(* ===== verification/CS_Prelude.thy ===== *)
theory CS_Prelude
  imports Main "HOL-Library.Word"
begin

text \<open>
  Shared vocabulary of the development: the C integer types, the value of a call that may
  not come back, bounds-checked C arrays, and generic lemmas on words and lists.
\<close>

unbundle bit_operations_syntax

section \<open>C integer types\<close>

type_synonym u8 = "8 word"
type_synonym u16 = "16 word"
type_synonym u32 = "32 word"
type_synonym u64 = "64 word"

section \<open>Collections of facts\<close>

named_theorems asm_simps \<open>execution of the inline assembly\<close>
named_theorems arr_simps \<open>bounds-checked array access\<close>
named_theorems wire_simps \<open>byte layouts and byte orders\<close>
named_theorems call_simps \<open>effects of the system and verbs calls\<close>

section \<open>Calls that may not come back\<close>

text \<open>
  A call of the program ends in one of six ways: it returns, an \<open>assert\<close> stops the process,
  it accesses memory outside an object, it divides an integer by zero, it does something else the
  language leaves undefined (a signed overflow, the use of an object without a value), or its loop
  never ends.
\<close>

datatype 'a outcome = Returned 'a | AssertFailed | OutOfBounds | DividedByZero | Undefined | NeverReturns

fun returned :: "'a outcome \<Rightarrow> 'a option" where
  "returned (Returned x) = Some x"
| "returned AssertFailed = None"
| "returned OutOfBounds = None"
| "returned DividedByZero = None"
| "returned Undefined = None"
| "returned NeverReturns = None"

lemma returned_eq_Some [simp]: "returned r = Some x \<longleftrightarrow> r = Returned x"
  by (cases r) auto

text \<open>A loop is an option: \<open>None\<close> when it never ends.\<close>

definition of_loop :: "'a outcome option \<Rightarrow> 'a outcome" where
  "of_loop r = (case r of None \<Rightarrow> NeverReturns | Some x \<Rightarrow> x)"

lemma of_loop_simps [simp]: "of_loop None = NeverReturns" "of_loop (Some x) = x"
  by (simp_all add: of_loop_def)

text \<open>Going on with the result of a call that came back.\<close>

fun on_return :: "'a outcome \<Rightarrow> ('a \<Rightarrow> 'b outcome) \<Rightarrow> 'b outcome" where
  "on_return (Returned x) f = f x"
| "on_return AssertFailed f = AssertFailed"
| "on_return OutOfBounds f = OutOfBounds"
| "on_return DividedByZero f = DividedByZero"
| "on_return Undefined f = Undefined"
| "on_return NeverReturns f = NeverReturns"

lemma on_return_eq_Returned [simp]:
  "on_return r f = Returned y \<longleftrightarrow> (\<exists>x. r = Returned x \<and> f x = Returned y)"
  by (cases r) auto

section \<open>Bounds-checked arrays\<close>

text \<open>
  A C array is a block of \<open>arr_len\<close> elements. Reading or writing outside it is undefined
  behaviour in the source and \<open>None\<close> here. The contents are a function, so that the arrays of
  a hundred million elements the benchmarks use have a closed form.
\<close>

record 'a arr =
  arr_len :: nat
  arr_get :: "nat \<Rightarrow> 'a"

definition arr_read :: "'a arr \<Rightarrow> nat \<Rightarrow> 'a option" where
  "arr_read a i = (if i < arr_len a then Some (arr_get a i) else None)"

definition arr_write :: "'a arr \<Rightarrow> nat \<Rightarrow> 'a \<Rightarrow> 'a arr option" where
  "arr_write a i v =
     (if i < arr_len a then Some (a\<lparr>arr_get := (arr_get a)(i := v)\<rparr>) else None)"

lemma arr_read_Some [arr_simps]: "i < arr_len a \<Longrightarrow> arr_read a i = Some (arr_get a i)"
  by (simp add: arr_read_def)

lemma arr_write_Some [arr_simps]:
  "i < arr_len a \<Longrightarrow> arr_write a i v = Some (a\<lparr>arr_get := (arr_get a)(i := v)\<rparr>)"
  by (simp add: arr_write_def)

lemma arr_read_None [arr_simps]: "\<not> i < arr_len a \<Longrightarrow> arr_read a i = None"
  by (simp add: arr_read_def)

lemma arr_write_None [arr_simps]: "\<not> i < arr_len a \<Longrightarrow> arr_write a i v = None"
  by (simp add: arr_write_def)

lemma arr_write_len: "arr_write a i v = Some a' \<Longrightarrow> arr_len a' = arr_len a"
  by (auto simp: arr_write_def split: if_splits)

section \<open>Words\<close>

lemma unat_of_nat_small:
  "n < 2 ^ LENGTH('l) \<Longrightarrow> unat (of_nat n :: 'l::len word) = n"
  by (simp add: unat_of_nat take_bit_nat_eq_self)

lemma word_eq_of_nat_iff:
  fixes x :: "'l::len word"
  shows "n < 2 ^ LENGTH('l) \<Longrightarrow> x = of_nat n \<longleftrightarrow> unat x = n"
  using unat_of_nat_small by fastforce

lemma xor_right_cancel [simp]: "x XOR y = z XOR y \<longleftrightarrow> x = (z :: 'l::len word)"
  by (metis xor.assoc xor.right_neutral xor_self_eq)

lemma xor_left_cancel [simp]: "y XOR x = y XOR z \<longleftrightarrow> x = (z :: 'l::len word)"
  by (metis xor.commute xor_right_cancel)

end
