(* ===== verification/Atomic.thy ===== *)
theory Atomic
  imports CS_Prelude
begin

text \<open>
  The atomic operations of src/atomic.h. Each function of that file is one block of inline
  assembly; it is modelled by its instruction list, run on an accumulator, the zero flag and the
  memory operand. The four overloads of a function (8, 16, 32 and 64 bits) differ in the operand
  size only and are one definition at an arbitrary word length. A locked instruction is one
  indivisible step; the steps of different threads interleave arbitrarily.
\<close>

section \<open>The instructions the file uses\<close>

datatype 'v insn =
    MovRes 'v    \<comment> \<open>\<open>mov\<close> of an immediate or operand into \<open>%0\<close>\<close>
  | LoadRes                \<comment> \<open>the input operand \<open>"0" (*pv)\<close>: a plain load into \<open>%0\<close>\<close>
  | Xadd                   \<comment> \<open>\<open>lock xadd %0,(%1)\<close>\<close>
  | IncRes                 \<comment> \<open>\<open>inc %0\<close>\<close>
  | DecRes                 \<comment> \<open>\<open>dec %0\<close>\<close>
  | Cmpxchg 'v             \<comment> \<open>\<open>lock cmpxchg %3,(%1)\<close>; \<open>%0\<close> is the accumulator\<close>
  | Jne nat                \<comment> \<open>jump to an instruction of the block when the zero flag is clear\<close>

record 'v cpu =
  pc :: nat
  res :: 'v
  zf :: bool

fun step_insn :: "'l::len word insn \<Rightarrow> 'l word cpu \<times> 'l word \<Rightarrow> 'l word cpu \<times> 'l word" where
  "step_insn (MovRes v) (c, m) = (c\<lparr>pc := Suc (pc c), res := v\<rparr>, m)"
| "step_insn LoadRes (c, m) = (c\<lparr>pc := Suc (pc c), res := m\<rparr>, m)"
| "step_insn Xadd (c, m) = (c\<lparr>pc := Suc (pc c), res := m\<rparr>, m + res c)"
| "step_insn IncRes (c, m) = (c\<lparr>pc := Suc (pc c), res := res c + 1\<rparr>, m)"
| "step_insn DecRes (c, m) = (c\<lparr>pc := Suc (pc c), res := res c - 1\<rparr>, m)"
| "step_insn (Cmpxchg nv) (c, m) =
     (if res c = m then (c\<lparr>pc := Suc (pc c), zf := True\<rparr>, nv)
      else (c\<lparr>pc := Suc (pc c), res := m, zf := False\<rparr>, m))"
| "step_insn (Jne t) (c, m) = (c\<lparr>pc := (if zf c then Suc (pc c) else t)\<rparr>, m)"

declare step_insn.simps [asm_simps]

text \<open>A block runs until control leaves its last instruction.\<close>

partial_function (option) exec_block ::
  "'l::len word insn list \<Rightarrow> 'l word cpu \<times> 'l word \<Rightarrow> ('l word cpu \<times> 'l word) option" where
  "exec_block code st =
     (if pc (fst st) < length code then exec_block code (step_insn (code ! pc (fst st)) st)
      else Some st)"

text \<open>The register and the flag hold anything when the block starts.\<close>

definition call_block ::
  "'l::len word insn list \<Rightarrow> 'l word cpu \<Rightarrow> 'l word \<Rightarrow> ('l word \<times> 'l word) option" where
  "call_block code c m =
     map_option (\<lambda>(c', m'). (res c', m')) (exec_block code (c\<lparr>pc := 0\<rparr>, m))"

section \<open>The functions\<close>

definition inc_code :: "'l::len word insn list" where
  "inc_code = [MovRes 1, Xadd, IncRes]"

definition dec_code :: "'l::len word insn list" where
  "dec_code = [MovRes (- 1), Xadd, DecRes]"

definition add_code :: "'l::len word \<Rightarrow> 'l word insn list" where
  "add_code av = [MovRes av, Xadd]"

definition exchange_code :: "'l::len word \<Rightarrow> 'l word insn list" where
  "exchange_code nv = [LoadRes, Cmpxchg nv, Jne 1]"

definition compare_exchange_code :: "'l::len word \<Rightarrow> 'l word \<Rightarrow> 'l word insn list" where
  "compare_exchange_code nv cv = [MovRes cv, Cmpxchg nv]"

text \<open>
  Each function takes the value of \<open>*pv\<close> and returns its result with the new value of \<open>*pv\<close>;
  \<open>c\<close> is the processor state the compiled code meets.
\<close>

definition atomic_inc :: "'l::len word cpu \<Rightarrow> 'l word \<Rightarrow> ('l word \<times> 'l word) option" where
  "atomic_inc c pv = call_block inc_code c pv"

definition atomic_dec :: "'l::len word cpu \<Rightarrow> 'l word \<Rightarrow> ('l word \<times> 'l word) option" where
  "atomic_dec c pv = call_block dec_code c pv"

definition atomic_add :: "'l::len word cpu \<Rightarrow> 'l word \<Rightarrow> 'l word \<Rightarrow> ('l word \<times> 'l word) option" where
  "atomic_add c pv av = call_block (add_code av) c pv"

definition atomic_exchange ::
  "'l::len word cpu \<Rightarrow> 'l word \<Rightarrow> 'l word \<Rightarrow> ('l word \<times> 'l word) option" where
  "atomic_exchange c pv nv = call_block (exchange_code nv) c pv"

definition atomic_compare_exchange ::
  "'l::len word cpu \<Rightarrow> 'l word \<Rightarrow> 'l word \<Rightarrow> 'l word \<Rightarrow> ('l word \<times> 'l word) option" where
  "atomic_compare_exchange c pv nv cv = call_block (compare_exchange_code nv cv) c pv"

text \<open>On x86-64 a pointer is a \<^typ>\<open>u64\<close>.\<close>

definition atomic_exchange_pointer :: "u64 cpu \<Rightarrow> u64 \<Rightarrow> u64 \<Rightarrow> (u64 \<times> u64) option" where
  "atomic_exchange_pointer c pv nv = atomic_exchange c pv nv"

definition atomic_compare_exchange_pointer ::
  "u64 cpu \<Rightarrow> u64 \<Rightarrow> u64 \<Rightarrow> u64 \<Rightarrow> (u64 \<times> u64) option" where
  "atomic_compare_exchange_pointer c pv nv cv = atomic_compare_exchange c pv nv cv"

lemmas code_defs = inc_code_def dec_code_def add_code_def exchange_code_def
  compare_exchange_code_def

lemmas atomic_defs = atomic_inc_def atomic_dec_def atomic_add_def atomic_exchange_def
  atomic_compare_exchange_def atomic_exchange_pointer_def atomic_compare_exchange_pointer_def

section \<open>The sequential contract\<close>

text \<open>An operation of the file, and what its comment promises: result and new contents.\<close>

datatype 'v aop = Inc | Dec | Add 'v | Exchange 'v | CompareExchange 'v 'v

fun aop_code :: "'l::len word aop \<Rightarrow> 'l word insn list" where
  "aop_code Inc = inc_code"
| "aop_code Dec = dec_code"
| "aop_code (Add av) = add_code av"
| "aop_code (Exchange nv) = exchange_code nv"
| "aop_code (CompareExchange nv cv) = compare_exchange_code nv cv"

fun aop_spec :: "'l::len word aop \<Rightarrow> 'l word \<Rightarrow> 'l word \<times> 'l word" where
  "aop_spec Inc m = (m + 1, m + 1)"
| "aop_spec Dec m = (m - 1, m - 1)"
| "aop_spec (Add av) m = (m, m + av)"
| "aop_spec (Exchange nv) m = (m, nv)"
| "aop_spec (CompareExchange nv cv) m = (m, if m = cv then nv else m)"

lemma exec_block_step:
  "pc c < length code \<Longrightarrow> exec_block code (c, m) = exec_block code (step_insn (code ! pc c) (c, m))"
  by (subst exec_block.simps) simp

lemma exec_block_done: "length code \<le> pc c \<Longrightarrow> exec_block code (c, m) = Some (c, m)"
  by (subst exec_block.simps) simp

lemmas exec_block_eqs = exec_block_step exec_block_done

lemma call_block_aop: "call_block (aop_code p) c m = Some (aop_spec p m)"
  by (cases p) (simp_all add: call_block_def code_defs exec_block_eqs)

section \<open>Interleaved execution\<close>

text \<open>
  Threads \<open>0 .. n - 1\<close> each make one call; a step is one instruction of one of them. The
  relation is stated for any local step function, so that the linearizability argument below
  is independent of the instruction set.
\<close>

record ('c, 'm) asys =
  cell :: 'm
  cpus :: "nat \<Rightarrow> 'c"

inductive reach ::
  "('op \<Rightarrow> 'c \<times> 'm \<Rightarrow> 'c \<times> 'm) \<Rightarrow> ('op \<Rightarrow> 'c \<Rightarrow> bool) \<Rightarrow> nat \<Rightarrow> (nat \<Rightarrow> 'op) \<Rightarrow>
   ('c, 'm) asys \<Rightarrow> ('c, 'm) asys \<Rightarrow> bool"
  for lstep running n ops s\<^sub>0 where
  reach_start: "reach lstep running n ops s\<^sub>0 s\<^sub>0"
| reach_step: "\<lbrakk>reach lstep running n ops s\<^sub>0 s; t < n; running (ops t) (cpus s t);
     lstep (ops t) (cpus s t, cell s) = (c', m')\<rbrakk> \<Longrightarrow>
     reach lstep running n ops s\<^sub>0 (s\<lparr>cell := m', cpus := (cpus s)(t := c')\<rparr>)"

definition aop_running :: "'l::len word aop \<Rightarrow> 'l word cpu \<Rightarrow> bool" where
  "aop_running p c \<longleftrightarrow> pc c < length (aop_code p)"

definition aop_step :: "'l::len word aop \<Rightarrow> 'l word cpu \<times> 'l word \<Rightarrow> 'l word cpu \<times> 'l word" where
  "aop_step p st = step_insn (aop_code p ! pc (fst st)) st"

text \<open>A schedule lists the thread that moves next; one that has returned does not move.\<close>

fun run_sched ::
  "('op \<Rightarrow> 'c \<times> 'm \<Rightarrow> 'c \<times> 'm) \<Rightarrow> ('op \<Rightarrow> 'c \<Rightarrow> bool) \<Rightarrow> nat \<Rightarrow> (nat \<Rightarrow> 'op) \<Rightarrow>
   nat list \<Rightarrow> ('c, 'm) asys \<Rightarrow> ('c, 'm) asys" where
  "run_sched lstep running n ops [] s = s"
| "run_sched lstep running n ops (t # ts) s =
     run_sched lstep running n ops ts
       (if t < n \<and> running (ops t) (cpus s t)
        then (let (c', m') = lstep (ops t) (cpus s t, cell s)
              in s\<lparr>cell := m', cpus := (cpus s)(t := c')\<rparr>)
        else s)"

lemma reach_run_sched:
  "reach lstep running n ops s\<^sub>0 s \<Longrightarrow>
   reach lstep running n ops s\<^sub>0 (run_sched lstep running n ops ts s)"
proof (induction ts arbitrary: s)
  case (Cons t ts)
  then show ?case
    by (cases "lstep (ops t) (cpus s t, cell s)") (auto intro: reach.reach_step)
qed simp

text \<open>The operations applied one after the other, in the order \<open>ord\<close> of their threads.\<close>

fun seq_cell :: "('op \<Rightarrow> 'm \<Rightarrow> 'r \<times> 'm) \<Rightarrow> (nat \<Rightarrow> 'op) \<Rightarrow> nat list \<Rightarrow> 'm \<Rightarrow> 'm" where
  "seq_cell spec ops [] m = m"
| "seq_cell spec ops (t # ts) m = seq_cell spec ops ts (snd (spec (ops t) m))"

lemma seq_cell_append:
  "seq_cell spec ops (ts @ us) m = seq_cell spec ops us (seq_cell spec ops ts m)"
  by (induction ts arbitrary: m) auto

text \<open>
  What one operation must offer: it is pending or it has taken effect on a value it saw
  (\<open>Some old\<close>). A step of a pending operation leaves the cell alone or takes effect, a step of one
  that has taken effect leaves the cell alone, and one that has finished returns the specified result.
\<close>

locale linearizable =
  fixes lstep :: "'op \<Rightarrow> 'c \<times> 'm \<Rightarrow> 'c \<times> 'm"
    and running :: "'op \<Rightarrow> 'c \<Rightarrow> bool"
    and result :: "'c \<Rightarrow> 'r"
    and spec :: "'op \<Rightarrow> 'm \<Rightarrow> 'r \<times> 'm"
    and phase :: "'op \<Rightarrow> 'c \<Rightarrow> 'm option \<Rightarrow> bool"
  assumes pending_step: "phase p c None \<Longrightarrow> lstep p (c, m) = (c', m') \<Longrightarrow>
      m' = m \<and> phase p c' None \<or> m' = snd (spec p m) \<and> phase p c' (Some m)"
    and done_step: "phase p c (Some v) \<Longrightarrow> running p c \<Longrightarrow> lstep p (c, m) = (c', m') \<Longrightarrow>
      m' = m \<and> phase p c' (Some v)"
    and pending_running: "phase p c None \<Longrightarrow> running p c"
    and done_result: "phase p c (Some v) \<Longrightarrow> \<not> running p c \<Longrightarrow> result c = fst (spec p v)"
begin

definition seen :: "(nat \<Rightarrow> 'op) \<Rightarrow> nat list \<Rightarrow> 'm \<Rightarrow> nat \<Rightarrow> 'm option" where
  "seen ops ord m t =
     (if t \<in> set ord then Some (seq_cell spec ops (takeWhile (\<lambda>u. u \<noteq> t) ord) m) else None)"

definition lin_inv :: "nat \<Rightarrow> (nat \<Rightarrow> 'op) \<Rightarrow> 'm \<Rightarrow> ('c, 'm) asys \<Rightarrow> nat list \<Rightarrow> bool" where
  "lin_inv n ops m\<^sub>0 s ord \<longleftrightarrow> distinct ord \<and> set ord \<subseteq> {..<n} \<and>
     cell s = seq_cell spec ops ord m\<^sub>0 \<and>
     (\<forall>t < n. phase (ops t) (cpus s t) (seen ops ord m\<^sub>0 t))"

lemma takeWhile_neq_snoc: "t \<notin> set ord \<Longrightarrow> takeWhile (\<lambda>u. u \<noteq> t) (ord @ [t]) = ord"
  by (subst takeWhile_append2) auto

lemma seen_snoc:
  "t \<notin> set ord \<Longrightarrow> seen ops (ord @ [t]) m u =
     (if u = t then Some (seq_cell spec ops ord m) else seen ops ord m u)"
  by (auto simp: seen_def takeWhile_append1 takeWhile_neq_snoc)

lemma lin_inv_step:
  assumes inv: "lin_inv n ops m\<^sub>0 s ord" and t: "t < n" "running (ops t) (cpus s t)"
    and st: "lstep (ops t) (cpus s t, cell s) = (c', m')"
  shows "\<exists>ord'. lin_inv n ops m\<^sub>0 (s\<lparr>cell := m', cpus := (cpus s)(t := c')\<rparr>) ord'"
proof (cases "t \<in> set ord")
  case True
  then obtain v where v: "seen ops ord m\<^sub>0 t = Some v"
    by (simp add: seen_def)
  with inv t st done_step [of "ops t" "cpus s t" v] have "m' = cell s \<and> phase (ops t) c' (Some v)"
    by (auto simp: lin_inv_def)
  with inv v have "lin_inv n ops m\<^sub>0 (s\<lparr>cell := m', cpus := (cpus s)(t := c')\<rparr>) ord"
    by (auto simp: lin_inv_def)
  then show ?thesis ..
next
  case False
  then have none: "seen ops ord m\<^sub>0 t = None"
    by (simp add: seen_def)
  with inv t(1) have "phase (ops t) (cpus s t) None"
    by (auto simp: lin_inv_def)
  from pending_step [OF this st] consider
      (wait) "m' = cell s" "phase (ops t) c' None"
    | (eff) "m' = snd (spec (ops t) (cell s))" "phase (ops t) c' (Some (cell s))"
    by blast
  then show ?thesis
  proof cases
    case wait
    with inv none have "lin_inv n ops m\<^sub>0 (s\<lparr>cell := m', cpus := (cpus s)(t := c')\<rparr>) ord"
      by (auto simp: lin_inv_def)
    then show ?thesis ..
  next
    case eff
    with inv False t(1)
    have "lin_inv n ops m\<^sub>0 (s\<lparr>cell := m', cpus := (cpus s)(t := c')\<rparr>) (ord @ [t])"
      by (auto simp: lin_inv_def seq_cell_append seen_snoc)
    then show ?thesis ..
  qed
qed

lemma reach_lin_inv:
  assumes "reach lstep running n ops s\<^sub>0 s" and "\<And>t. t < n \<Longrightarrow> phase (ops t) (cpus s\<^sub>0 t) None"
  shows "\<exists>ord. lin_inv n ops (cell s\<^sub>0) s ord"
  using assms
proof (induction rule: reach.induct)
  case reach_start
  then have "lin_inv n ops (cell s\<^sub>0) s\<^sub>0 []"
    by (simp add: lin_inv_def seen_def)
  then show ?case ..
next
  case (reach_step s t c' m')
  then show ?case
    using lin_inv_step by blast
qed

lemma linearization:
  assumes "reach lstep running n ops s\<^sub>0 s" and "\<And>t. t < n \<Longrightarrow> phase (ops t) (cpus s\<^sub>0 t) None"
    and "\<And>t. t < n \<Longrightarrow> \<not> running (ops t) (cpus s t)"
  obtains ord where "distinct ord" "set ord = {..<n}" "cell s = seq_cell spec ops ord (cell s\<^sub>0)"
    "\<And>i. i < n \<Longrightarrow> result (cpus s (ord ! i)) =
       fst (spec (ops (ord ! i)) (seq_cell spec ops (take i ord) (cell s\<^sub>0)))"
proof -
  obtain ord where inv: "lin_inv n ops (cell s\<^sub>0) s ord"
    using reach_lin_inv [OF assms(1,2)] by blast
  then have d: "distinct ord" and sub: "set ord \<subseteq> {..<n}"
    by (auto simp: lin_inv_def)
  have ph: "phase (ops t) (cpus s t) (seen ops ord (cell s\<^sub>0) t)" if "t < n" for t
    using inv that by (auto simp: lin_inv_def)
  have "t \<in> set ord" if "t < n" for t
    using ph [OF that] pending_running assms(3) [OF that] by (auto simp: seen_def split: if_splits)
  with sub have eq: "set ord = {..<n}"
    by auto
  have len: "length ord = n"
    using d eq distinct_card by fastforce
  have "result (cpus s (ord ! i)) =
       fst (spec (ops (ord ! i)) (seq_cell spec ops (take i ord) (cell s\<^sub>0)))" if "i < n" for i
  proof -
    have i: "i < length ord" "ord ! i < n"
      using that len eq nth_mem by auto
    have "takeWhile (\<lambda>u. u \<noteq> ord ! i) ord = take i ord"
      using d i(1) by (simp add: takeWhile_eq_take_P_nth nth_eq_iff_index_eq)
    then show ?thesis
      using ph [OF i(2)] i done_result assms(3) [OF i(2)] by (fastforce simp: seen_def)
  qed
  with that d eq inv show thesis
    by (auto simp: lin_inv_def)
qed

end

section \<open>The operations of atomic.h are linearizable\<close>

fun aop_phase :: "'l::len word aop \<Rightarrow> 'l word cpu \<Rightarrow> 'l word option \<Rightarrow> bool" where
  "aop_phase Inc c None \<longleftrightarrow> pc c = 0 \<or> pc c = 1 \<and> res c = 1"
| "aop_phase Inc c (Some v) \<longleftrightarrow> pc c = 2 \<and> res c = v \<or> pc c = 3 \<and> res c = v + 1"
| "aop_phase Dec c None \<longleftrightarrow> pc c = 0 \<or> pc c = 1 \<and> res c = - 1"
| "aop_phase Dec c (Some v) \<longleftrightarrow> pc c = 2 \<and> res c = v \<or> pc c = 3 \<and> res c = v - 1"
| "aop_phase (Add av) c None \<longleftrightarrow> pc c = 0 \<or> pc c = 1 \<and> res c = av"
| "aop_phase (Add av) c (Some v) \<longleftrightarrow> pc c = 2 \<and> res c = v"
| "aop_phase (Exchange nv) c None \<longleftrightarrow> pc c = 0 \<or> pc c = 1 \<or> pc c = 2 \<and> \<not> zf c"
| "aop_phase (Exchange nv) c (Some v) \<longleftrightarrow> (pc c = 2 \<and> zf c \<or> pc c = 3) \<and> res c = v"
| "aop_phase (CompareExchange nv cv) c None \<longleftrightarrow> pc c = 0 \<or> pc c = 1 \<and> res c = cv"
| "aop_phase (CompareExchange nv cv) c (Some v) \<longleftrightarrow> pc c = 2 \<and> res c = v"

lemmas aop_local = aop_step_def aop_running_def code_defs

interpretation atomic_ops: linearizable
  "aop_step :: 'l::len word aop \<Rightarrow> 'l word cpu \<times> 'l word \<Rightarrow> 'l word cpu \<times> 'l word"
  aop_running res aop_spec aop_phase
proof (unfold_locales, goal_cases)
  case (1 p c m c' m')
  then show ?case by (cases p) (auto simp: aop_local split: if_splits)
next
  case (2 p c v m c' m')
  then show ?case by (cases p) (auto simp: aop_local split: if_splits)
next
  case (3 p c)
  then show ?case by (cases p) (auto simp: aop_local)
next
  case (4 p c v)
  then show ?case by (cases p) (auto simp: aop_local)
qed

lemma aop_phase_start: "pc c = 0 \<Longrightarrow> aop_phase p c None"
  by (cases p) auto

section \<open>Properties\<close>


text \<open>
  For every interleaving of any number of concurrent calls, one per thread, once all have
  returned there is an order of the calls such that the cell and every returned value are those
  of making the calls one after the other in that order.
\<close>

theorem atomic_calls_linearizable:
  fixes ops :: "nat \<Rightarrow> 'l::len word aop"
  assumes "reach aop_step aop_running n ops s\<^sub>0 s"
    and "\<forall>t < n. pc (cpus s\<^sub>0 t) = 0" and "\<forall>t < n. \<not> aop_running (ops t) (cpus s t)"
  shows "\<exists>ord. distinct ord \<and> set ord = {..<n} \<and> cell s = seq_cell aop_spec ops ord (cell s\<^sub>0) \<and>
    (\<forall>i < n. res (cpus s (ord ! i)) =
       fst (aop_spec (ops (ord ! i)) (seq_cell aop_spec ops (take i ord) (cell s\<^sub>0))))"
  using atomic_ops.linearization [OF assms(1)] assms(2,3) aop_phase_start by metis

text \<open>
  Two increments and an exchange on a 32-bit cell holding 7: the exchange loads 7, both
  increments take effect, so its first \<open>cmpxchg\<close> fails and it retries.
\<close>

definition demo_ops :: "nat \<Rightarrow> u32 aop" where
  "demo_ops t = (if t = 2 then Exchange 100 else Inc)"

definition demo_start :: "(u32 cpu, u32) asys" where
  "demo_start = \<lparr>cell = 7, cpus = (\<lambda>_. \<lparr>pc = 0, res = 0, zf = False\<rparr>)\<rparr>"

definition demo_end :: "(u32 cpu, u32) asys" where
  "demo_end = run_sched aop_step aop_running 3 demo_ops [2, 0, 1, 1, 0, 2, 2, 1, 0, 2, 2] demo_start"

theorem atomic_calls_linearizable_witness:
  "cell demo_end = 100 \<and> res (cpus demo_end 2) = 9 \<and>
   (\<exists>ord. distinct ord \<and> set ord = {..<3} \<and>
      cell demo_end = seq_cell aop_spec demo_ops ord (cell demo_start) \<and>
      (\<forall>i < 3. res (cpus demo_end (ord ! i)) =
         fst (aop_spec (demo_ops (ord ! i)) (seq_cell aop_spec demo_ops (take i ord) (cell demo_start)))))"
proof -
  have r: "reach aop_step aop_running 3 demo_ops demo_start demo_end"
    unfolding demo_end_def by (intro reach_run_sched reach_start)
  have st: "\<forall>t < 3. pc (cpus demo_start t) = 0"
    by (simp add: demo_start_def)
  have e: "cell demo_end = 100" "res (cpus demo_end 2) = 9"
    "\<forall>t < 3. \<not> aop_running (demo_ops t) (cpus demo_end t)"
    by code_simp+
  show ?thesis
    using e atomic_calls_linearizable [OF r st e(3)] by blast
qed

end
