(* ===== verification/Mutex_Threads.thy ===== *)
theory Mutex_Threads
  imports CS_Prelude
begin

text \<open>
  Threads that share data under one POSIX mutex, as the threads around \<open>CounterMutex\<close> in
  src/pcm/width_extender.h and src/pcm/cpuasynchcounter.h do. A call locks the mutex, executes the
  statements of its critical section one at a time, and unlocks it; the statements of different
  threads interleave arbitrarily. Nothing but the mutex keeps two threads apart: a step inside a
  critical section does not look at the owner.
\<close>

section \<open>Interleaved execution\<close>

text \<open>A thread is outside, or has executed \<open>k\<close> statements of its critical section with locals \<open>l\<close>.\<close>

datatype 'l place = Outside | Inside nat 'l

record ('l, 's, 'r) msys =
  owner :: "nat option"
  shared :: 's
  place :: "nat \<Rightarrow> 'l place"
  history :: "(nat \<times> 'r) list"   \<comment> \<open>thread and result of every finished call, in unlock order\<close>

type_synonym ('l, 's) statement = "'l \<times> 's \<Rightarrow> 'l \<times> 's"

text \<open>\<open>prog t k\<close> is the \<open>k\<close>-th call of thread \<open>t\<close>, \<open>None\<close> when the thread has ended before.\<close>

type_synonym 'op program = "nat \<Rightarrow> nat \<Rightarrow> 'op option"

definition calls_made :: "nat \<Rightarrow> (nat \<times> 'r) list \<Rightarrow> nat" where
  "calls_made t h = length (filter (\<lambda>c. fst c = t) h)"

text \<open>The next step of thread \<open>t\<close>; \<open>None\<close> when it has ended or waits for the mutex.\<close>

definition mstep ::
  "('op \<Rightarrow> ('l, 's) statement list) \<Rightarrow> ('op \<Rightarrow> 'l) \<Rightarrow> ('l \<Rightarrow> 'r) \<Rightarrow> 'op program \<Rightarrow> nat \<Rightarrow>
   ('l, 's, 'r) msys \<Rightarrow> ('l, 's, 'r) msys option" where
  "mstep body start result prog t s =
     (case prog t (calls_made t (history s)) of
        None \<Rightarrow> None
      | Some p \<Rightarrow>
          (case place s t of
             Outside \<Rightarrow>
               (if owner s = None
                then Some (s\<lparr>owner := Some t, place := (place s)(t := Inside 0 (start p))\<rparr>) else None)
           | Inside k l \<Rightarrow>
               (if k < length (body p)
                then (let (l', x) = (body p ! k) (l, shared s)
                      in Some (s\<lparr>shared := x, place := (place s)(t := Inside (Suc k) l')\<rparr>))
                else Some (s\<lparr>owner := None, place := (place s)(t := Outside), history := history s @ [(t, result l)]\<rparr>))))"

lemma mstep_inside:
  assumes "place s t = Inside k l" "prog t (calls_made t (history s)) = Some p"
  shows "\<exists>s'. mstep body start result prog t s = Some s' \<and>
    (place s' t = Outside \<or> (\<exists>l'. place s' t = Inside (Suc k) l'))"
  using assms by (cases "(body p ! k) (l, shared s)") (auto simp: mstep_def)

text \<open>A schedule names the thread that moves next; a thread that cannot move is passed over.\<close>

fun mrun ::
  "('op \<Rightarrow> ('l, 's) statement list) \<Rightarrow> ('op \<Rightarrow> 'l) \<Rightarrow> ('l \<Rightarrow> 'r) \<Rightarrow> 'op program \<Rightarrow> nat list \<Rightarrow>
   ('l, 's, 'r) msys \<Rightarrow> ('l, 's, 'r) msys" where
  "mrun body start result prog [] s = s"
| "mrun body start result prog (t # ts) s =
     mrun body start result prog ts
       (case mstep body start result prog t s of None \<Rightarrow> s | Some s' \<Rightarrow> s')"

text \<open>What every single statement keeps holds in every state, also in the middle of a section.\<close>

lemma mstep_invariant:
  assumes "\<And>p f l x. f \<in> set (body p) \<Longrightarrow> J x \<Longrightarrow> J (snd (f (l, x)))"
    and "mstep body start result prog t s = Some s'" "J (shared s)"
  shows "J (shared s')"
  using assms(2,3) assms(1) [of "body p ! k" p "shared s" l for p k l]
  by (auto simp: mstep_def split_def Let_def split: option.splits place.splits if_splits)

lemma mrun_invariant:
  assumes "\<And>p f l x. f \<in> set (body p) \<Longrightarrow> J x \<Longrightarrow> J (snd (f (l, x)))" "J (shared s)"
  shows "J (shared (mrun body start result prog ts s))"
  using assms(2)
proof (induction ts arbitrary: s)
  case (Cons t ts)
  have "J (shared s')" if "mstep body start result prog t s = Some s'" for s'
    by (rule mstep_invariant [of body J, OF _ that Cons.prems]) (rule assms(1))
  with Cons show ?case
    by (auto split: option.splits)
qed simp

definition msys_init :: "'s \<Rightarrow> ('l, 's, 'r) msys" where
  "msys_init x = \<lparr>owner = None, shared = x, place = (\<lambda>_. Outside), history = []\<rparr>"

section \<open>Sequential execution\<close>

text \<open>The calls one after the other, each as a whole, by the threads \<open>ts\<close>.\<close>

fun seq_calls ::
  "('op \<Rightarrow> 's \<Rightarrow> 'r \<times> 's) \<Rightarrow> 'op program \<Rightarrow> nat list \<Rightarrow> (nat \<times> 'r) list \<times> 's \<Rightarrow> (nat \<times> 'r) list \<times> 's" where
  "seq_calls spec prog [] hx = hx"
| "seq_calls spec prog (t # ts) (h, x) =
     (case prog t (calls_made t h) of
        None \<Rightarrow> seq_calls spec prog ts (h, x)
      | Some p \<Rightarrow> (let (r, x') = spec p x in seq_calls spec prog ts (h @ [(t, r)], x')))"

lemma seq_calls_snoc:
  "seq_calls spec prog (ts @ [t]) hx = seq_calls spec prog [t] (seq_calls spec prog ts hx)"
  by (induction spec prog ts hx rule: seq_calls.induct) (auto simp: split_def Let_def split: option.splits)

text \<open>
  A sequence of calls that gives the history \<open>h\<close> gives every beginning of it: call \<open>i\<close> is made in
  the state after the first \<open>i\<close> calls.
\<close>

lemma seq_calls_grows: "\<exists>g. fst (seq_calls spec prog ts (h, x)) = h @ g \<and> length g \<le> length ts"
proof (induction ts arbitrary: h x)
  case (Cons t ts)
  show ?case
  proof (cases "prog t (calls_made t h)")
    case None
    with Cons [of h x] show ?thesis
      by (auto intro: le_SucI)
  next
    case (Some p)
    with Cons [of "h @ [(t, fst (spec p x))]" "snd (spec p x)"] show ?thesis
      by (auto simp: split_def Let_def)
  qed
qed simp

lemma seq_calls_last:
  assumes "seq_calls spec prog (map fst (h @ [(t, r)])) ([], x\<^sub>0) = (h @ [(t, r)], x)"
  shows "\<exists>p y. seq_calls spec prog (map fst h) ([], x\<^sub>0) = (h, y) \<and>
    prog t (calls_made t h) = Some p \<and> spec p y = (r, x)"
proof -
  obtain g y where g: "seq_calls spec prog (map fst h) ([], x\<^sub>0) = (g, y)"
    by fastforce
  with seq_calls_grows [of spec prog "map fst h" "[]" x\<^sub>0] have len: "length g \<le> length h"
    by auto
  from assms g have "seq_calls spec prog [t] (g, y) = (h @ [(t, r)], x)"
    by (simp add: seq_calls_snoc)
  with len show ?thesis
    by (cases "prog t (calls_made t g)") (auto simp: g split: prod.splits)
qed

lemma seq_calls_take:
  assumes "seq_calls spec prog (map fst h) ([], x\<^sub>0) = (h, x)"
  shows "\<exists>y. seq_calls spec prog (map fst (take i h)) ([], x\<^sub>0) = (take i h, y)"
  using assms
proof (induction h arbitrary: x rule: rev_induct)
  case (snoc c h)
  obtain t r where c: "c = (t, r)"
    by fastforce
  from snoc.prems seq_calls_last [of spec prog h t r x\<^sub>0 x] obtain y
    where "seq_calls spec prog (map fst h) ([], x\<^sub>0) = (h, y)"
    unfolding c by blast
  from snoc.IH [OF this] snoc.prems show ?case
    by (cases "i \<le> length h") auto
qed auto

lemma seq_calls_nth:
  assumes "seq_calls spec prog (map fst h) ([], x\<^sub>0) = (h, x)" "i < length h" "h ! i = (t, r)"
  shows "\<exists>p y z. seq_calls spec prog (map fst (take i h)) ([], x\<^sub>0) = (take i h, y) \<and>
    prog t (calls_made t (take i h)) = Some p \<and> spec p y = (r, z)"
proof -
  obtain z where "seq_calls spec prog (map fst (take (Suc i) h)) ([], x\<^sub>0) = (take (Suc i) h, z)"
    using seq_calls_take [OF assms(1)] by blast
  then show ?thesis
    using seq_calls_last [of spec prog "take i h" t r x\<^sub>0 z] assms(2,3)
    by (simp add: take_Suc_conv_app_nth) blast
qed

definition run_body :: "('l, 's) statement list \<Rightarrow> ('l, 's) statement" where
  "run_body fs y = fold (\<lambda>f. f) fs y"

lemma run_body_simps [simp]: "run_body [] y = y" "run_body (f # fs) y = run_body fs (f y)"
  by (simp_all add: run_body_def)

lemma run_body_append [simp]: "run_body (fs @ gs) y = run_body gs (run_body fs y)"
  by (simp add: run_body_def)

lemma run_body_take_Suc:
  "k < length fs \<Longrightarrow> run_body (take (Suc k) fs) y = (fs ! k) (run_body (take k fs) y)"
  by (simp add: take_Suc_conv_app_nth)

section \<open>Critical sections are atomic\<close>

text \<open>
  The contract of a critical section: undisturbed, and from good shared data, its statements do what
  \<open>spec\<close> says in one step, and leave good data.
\<close>

locale critical_section =
  fixes body :: "'op \<Rightarrow> ('l, 's) statement list"
    and start :: "'op \<Rightarrow> 'l"
    and result :: "'l \<Rightarrow> 'r"
    and spec :: "'op \<Rightarrow> 's \<Rightarrow> 'r \<times> 's"
    and ok :: "'s \<Rightarrow> bool"
  assumes body_spec: "ok x \<Longrightarrow> run_body (body p) (start p, x) = (l, x') \<Longrightarrow> spec p x = (result l, x')"
    and spec_ok: "ok x \<Longrightarrow> ok (snd (spec p x))"
begin

text \<open>
  \<open>x\<close> is the shared data after the finished calls. The owner is the only thread inside, and has
  executed the first \<open>k\<close> statements of its section from \<open>x\<close>.
\<close>

definition serial_inv :: "'op program \<Rightarrow> 's \<Rightarrow> ('l, 's, 'r) msys \<Rightarrow> 's \<Rightarrow> bool" where
  "serial_inv prog x\<^sub>0 s x \<longleftrightarrow> ok x \<and>
     seq_calls spec prog (map fst (history s)) ([], x\<^sub>0) = (history s, x) \<and>
     (case owner s of
        None \<Rightarrow> shared s = x \<and> (\<forall>t. place s t = Outside)
      | Some t \<Rightarrow> (\<forall>u. u \<noteq> t \<longrightarrow> place s u = Outside) \<and>
          (\<exists>p k l. prog t (calls_made t (history s)) = Some p \<and> place s t = Inside k l \<and>
             k \<le> length (body p) \<and> run_body (take k (body p)) (start p, x) = (l, shared s)))"

lemma serial_init: "ok x\<^sub>0 \<Longrightarrow> serial_inv prog x\<^sub>0 (msys_init x\<^sub>0) x\<^sub>0"
  by (simp add: serial_inv_def msys_init_def)

lemma inside_owns: "serial_inv prog x\<^sub>0 s x \<Longrightarrow> place s t \<noteq> Outside \<Longrightarrow> owner s = Some t"
  by (cases "owner s"; cases "owner s = Some t") (auto simp: serial_inv_def)

lemma serial_step:
  assumes inv: "serial_inv prog x\<^sub>0 s x" and st: "mstep body start result prog t s = Some s'"
  shows "\<exists>x'. serial_inv prog x\<^sub>0 s' x'"
proof -
  obtain p where p: "prog t (calls_made t (history s)) = Some p"
    using st by (auto simp: mstep_def split: option.splits)
  show ?thesis
  proof (cases "place s t")
    case Outside
    with st p inv have "owner s = None" "serial_inv prog x\<^sub>0 s' x"
      by (auto simp: mstep_def serial_inv_def split: if_splits)
    then show ?thesis by blast
  next
    case (Inside k l)
    then have own: "owner s = Some t"
      using inside_owns [OF inv, of t] by simp
    with inv p Inside have k: "k \<le> length (body p)"
      and run: "run_body (take k (body p)) (start p, x) = (l, shared s)"
      by (auto simp: serial_inv_def)
    show ?thesis
    proof (cases "k < length (body p)")
      case True
      with st p Inside inv own run have "serial_inv prog x\<^sub>0 s' x"
        by (auto simp: mstep_def serial_inv_def split_def Let_def run_body_take_Suc)
      then show ?thesis ..
    next
      case False
      with run k have "spec p x = (result l, shared s)"
        using body_spec inv by (simp add: serial_inv_def)
      with st p Inside inv own False have "serial_inv prog x\<^sub>0 s' (shared s)"
        using spec_ok [of x p] by (auto simp: mstep_def serial_inv_def seq_calls_snoc)
      then show ?thesis ..
    qed
  qed
qed

lemma serial_run:
  assumes "serial_inv prog x\<^sub>0 s x"
  shows "\<exists>x'. serial_inv prog x\<^sub>0 (mrun body start result prog ts s) x'"
  using assms
proof (induction ts arbitrary: s x)
  case (Cons t ts)
  then show ?case
    by (cases "mstep body start result prog t s") (auto dest: serial_step)
qed auto

text \<open>Every interleaving gives the results of the calls made one after the other, in unlock order.\<close>

lemma serializable:
  assumes "ok x\<^sub>0" and s: "s = mrun body start result prog ts (msys_init x\<^sub>0)"
  obtains x where "seq_calls spec prog (map fst (history s)) ([], x\<^sub>0) = (history s, x)"
    "owner s = None \<Longrightarrow> shared s = x" "ok x"
proof -
  obtain x where "serial_inv prog x\<^sub>0 s x"
    using serial_run [OF serial_init] assms by blast
  then show thesis
    by (intro that [of x]) (auto simp: serial_inv_def)
qed

lemma mutual_exclusion:
  assumes "ok x\<^sub>0" "s = mrun body start result prog ts (msys_init x\<^sub>0)" "place s t \<noteq> Outside" "place s u \<noteq> Outside"
  shows "t = u"
proof -
  obtain x where "serial_inv prog x\<^sub>0 s x"
    using serial_run [OF serial_init] assms(1,2) by blast
  from inside_owns [OF this assms(3)] inside_owns [OF this assms(4)] show ?thesis
    by simp
qed

lemma owner_inside:
  assumes "ok x\<^sub>0" "s = mrun body start result prog ts (msys_init x\<^sub>0)" "owner s = Some u"
  shows "prog u (calls_made u (history s)) \<noteq> None \<and> place s u \<noteq> Outside"
proof -
  obtain x where "serial_inv prog x\<^sub>0 s x"
    using serial_run [OF serial_init] assms(1,2) by blast
  with assms(3) show ?thesis
    by (auto simp: serial_inv_def)
qed

text \<open>A thread with a call to make is never in the way of all: it, or the owner, can move.\<close>

lemma some_thread_moves:
  assumes "ok x\<^sub>0" "s = mrun body start result prog ts (msys_init x\<^sub>0)" "prog t (calls_made t (history s)) = Some p"
  shows "\<exists>u s'. mstep body start result prog u s = Some s'"
proof -
  obtain x where inv: "serial_inv prog x\<^sub>0 s x"
    using serial_run [OF serial_init] assms(1,2) by blast
  show ?thesis
  proof (cases "owner s")
    case None
    with inv assms(3) have "mstep body start result prog t s \<noteq> None"
      by (simp add: serial_inv_def mstep_def)
    then show ?thesis by blast
  next
    case (Some u)
    with inv obtain q k l where "prog u (calls_made u (history s)) = Some q" "place s u = Inside k l"
      by (auto simp: serial_inv_def)
    then have "mstep body start result prog u s \<noteq> None"
      by (simp add: mstep_def split_def Let_def)
    then show ?thesis by blast
  qed
qed

text \<open>The owner, left to run, finishes its call.\<close>

lemma owner_finishes:
  assumes "prog u (calls_made u (history s)) = Some p" "place s u = Inside k l" "k \<le> length (body p)"
  shows "\<exists>us r. owner (mrun body start result prog us s) = None \<and>
    place (mrun body start result prog us s) = (place s)(u := Outside) \<and>
    history (mrun body start result prog us s) = history s @ [(u, r)]"
  using assms
proof (induction "length (body p) - k" arbitrary: k l s)
  case 0
  then show ?case
    by (intro exI [of _ "[u]"] exI [of _ "result l"]) (simp add: mstep_def)
next
  case (Suc n)
  obtain l' x where b: "(body p ! k) (l, shared s) = (l', x)"
    by fastforce
  let ?s = "s\<lparr>shared := x, place := (place s)(u := Inside (Suc k) l')\<rparr>"
  have "mstep body start result prog u s = Some ?s"
    using Suc.hyps(2) Suc.prems b by (simp add: mstep_def)
  moreover have "\<exists>us r. owner (mrun body start result prog us ?s) = None \<and>
      place (mrun body start result prog us ?s) = (place ?s)(u := Outside) \<and>
      history (mrun body start result prog us ?s) = history ?s @ [(u, r)]"
    by (rule Suc.hyps(1) [of "Suc k" ?s l']) (use Suc.hyps(2) Suc.prems in auto)
  then obtain us r where "owner (mrun body start result prog us ?s) = None"
    "place (mrun body start result prog us ?s) = (place s)(u := Outside)"
    "history (mrun body start result prog us ?s) = history s @ [(u, r)]"
    by auto
  ultimately show ?case
    by (intro exI [of _ "u # us"] exI [of _ r]) simp
qed

lemma mrun_append:
  "mrun body start result prog (ts @ us) s = mrun body start result prog us (mrun body start result prog ts s)"
  by (induction ts arbitrary: s) auto

lemma free_call_finishes:
  assumes "prog t (calls_made t (history s)) = Some p" "owner s = None" "place s t = Outside"
  shows "\<exists>us. calls_made t (history (mrun body start result prog us s)) = Suc (calls_made t (history s))"
proof -
  let ?s = "s\<lparr>owner := Some t, place := (place s)(t := Inside 0 (start p))\<rparr>"
  have "mstep body start result prog t s = Some ?s"
    using assms by (simp add: mstep_def)
  moreover obtain us r where "history (mrun body start result prog us ?s) = history ?s @ [(t, r)]"
    using owner_finishes [of prog t ?s p 0 "start p"] assms(1) by auto
  ultimately show ?thesis
    by (intro exI [of _ "t # us"]) (simp add: calls_made_def)
qed

text \<open>No thread is shut out: from every state some continuation finishes its next call.\<close>

lemma call_can_finish:
  assumes "ok x\<^sub>0" "s = mrun body start result prog ts (msys_init x\<^sub>0)" "prog t (calls_made t (history s)) = Some p"
  shows "\<exists>us. calls_made t (history (mrun body start result prog us s)) = Suc (calls_made t (history s))"
proof -
  obtain x where inv: "serial_inv prog x\<^sub>0 s x"
    using serial_run [OF serial_init] assms(1,2) by blast
  show ?thesis
  proof (cases "owner s")
    case None
    with inv have "place s t = Outside"
      by (simp add: serial_inv_def)
    with None assms(3) show ?thesis
      by (intro free_call_finishes)
  next
    case (Some u)
    with inv obtain q k l where "prog u (calls_made u (history s)) = Some q" "place s u = Inside k l"
      "k \<le> length (body q)"
      by (auto simp: serial_inv_def)
    then have "\<exists>us r. owner (mrun body start result prog us s) = None \<and>
        place (mrun body start result prog us s) = (place s)(u := Outside) \<and>
        history (mrun body start result prog us s) = history s @ [(u, r)]"
      by (intro owner_finishes)
    then obtain us r where us: "owner (mrun body start result prog us s) = None"
      "place (mrun body start result prog us s) = (place s)(u := Outside)"
      "history (mrun body start result prog us s) = history s @ [(u, r)]"
      by blast
    show ?thesis
    proof (cases "u = t")
      case True
      with us(3) show ?thesis
        by (intro exI [of _ us]) (simp add: calls_made_def)
    next
      case False
      then have "calls_made t (history (mrun body start result prog us s)) = calls_made t (history s)"
        by (simp add: us(3) calls_made_def)
      moreover have "place (mrun body start result prog us s) t = Outside"
        using False inside_owns [OF inv, of t] Some by (auto simp: us(2))
      ultimately show ?thesis
        using free_call_finishes [of prog t "mrun body start result prog us s"] assms(3) us(1)
        by (metis mrun_append)
    qed
  qed
qed

end

end
