(* ===== verification/Atomic_Programs.thy ===== *)
theory Atomic_Programs
  imports Atomic Mutex_Threads
begin

text \<open>
  Threads that make any number of calls of the functions of src/atomic.h one after the other. The
  order in which the calls take effect only grows as the threads go on, so that it agrees with
  the order of each thread's program and with real time.
\<close>

section \<open>Interleaved programs\<close>

text \<open>The data of a thread is \<open>None\<close> between two calls.\<close>

record ('c, 'm, 'r) psys =
  pcell :: 'm
  active :: "nat \<Rightarrow> 'c option"
  finished :: "nat \<Rightarrow> 'r list"   \<comment> \<open>the results of each thread's finished calls\<close>

text \<open>Call \<open>k\<close> of thread \<open>t\<close>, with the registers that the compiled code has when it comes to the call.\<close>

type_synonym ('op, 'c) calls = "nat \<Rightarrow> nat \<Rightarrow> ('op \<times> 'c) option"

definition pstep ::
  "('op \<Rightarrow> 'c \<times> 'm \<Rightarrow> 'c \<times> 'm) \<Rightarrow> ('op \<Rightarrow> 'c \<Rightarrow> bool) \<Rightarrow> ('c \<Rightarrow> 'r) \<Rightarrow> ('c \<Rightarrow> 'c) \<Rightarrow> ('op, 'c) calls \<Rightarrow> nat \<Rightarrow>
   ('c, 'm, 'r) psys \<Rightarrow> ('c, 'm, 'r) psys" where
  "pstep lstep running result enter calls t s =
     (case calls t (length (finished s t)) of
        None \<Rightarrow> s
      | Some (p, c\<^sub>0) \<Rightarrow>
          (case active s t of
             None \<Rightarrow> s\<lparr>active := (active s)(t := Some (enter c\<^sub>0))\<rparr>
           | Some c \<Rightarrow>
               if running p c
               then (let (c', m') = lstep p (c, pcell s) in s\<lparr>pcell := m', active := (active s)(t := Some c')\<rparr>)
               else s\<lparr>active := (active s)(t := None), finished := (finished s)(t := finished s t @ [result c])\<rparr>))"

definition prun ::
  "('op \<Rightarrow> 'c \<times> 'm \<Rightarrow> 'c \<times> 'm) \<Rightarrow> ('op \<Rightarrow> 'c \<Rightarrow> bool) \<Rightarrow> ('c \<Rightarrow> 'r) \<Rightarrow> ('c \<Rightarrow> 'c) \<Rightarrow> ('op, 'c) calls \<Rightarrow> nat list \<Rightarrow>
   ('c, 'm, 'r) psys \<Rightarrow> ('c, 'm, 'r) psys" where
  "prun lstep running result enter calls ts s = fold (pstep lstep running result enter calls) ts s"

definition psys_init :: "'m \<Rightarrow> ('c, 'm, 'r) psys" where
  "psys_init m = \<lparr>pcell = m, active = (\<lambda>_. None), finished = (\<lambda>_. [])\<rparr>"

text \<open>The operations alone, and the results of one thread in a sequence of calls.\<close>

definition ops_of :: "('op, 'c) calls \<Rightarrow> 'op program" where
  "ops_of calls t k = map_option fst (calls t k)"

definition results_of :: "nat \<Rightarrow> (nat \<times> 'r) list \<Rightarrow> 'r list" where
  "results_of t h = map snd (filter (\<lambda>c. fst c = t) h)"

lemma results_of_simps [simp]: "results_of t [] = []" "results_of t (h @ g) = results_of t h @ results_of t g"
  "results_of t [(u, r)] = (if u = t then [r] else [])"
  by (auto simp: results_of_def)

lemma calls_made_results: "calls_made t h = length (results_of t h)"
  by (simp add: calls_made_def results_of_def)

text \<open>
  \<open>h\<close> explains the state: its calls made one after the other give its results and the cell, and
  every thread's finished results are its results in \<open>h\<close>, but for a last one that has taken effect and
  not returned.
\<close>

definition explains :: "('op \<Rightarrow> 'm \<Rightarrow> 'r \<times> 'm) \<Rightarrow> ('op, 'c) calls \<Rightarrow> 'm \<Rightarrow> (nat \<times> 'r) list \<Rightarrow> ('c, 'm, 'r) psys \<Rightarrow> bool" where
  "explains spec calls m h s \<longleftrightarrow> seq_calls spec (ops_of calls) (map fst h) ([], m) = (h, pcell s) \<and>
     (\<forall>t. \<exists>rest. results_of t h = finished s t @ rest \<and> length rest \<le> 1 \<and> (active s t = None \<longrightarrow> rest = []))"

locale linearizable_programs = linearizable lstep running result spec phase
  for lstep :: "'op \<Rightarrow> 'c \<times> 'm \<Rightarrow> 'c \<times> 'm" and running result and spec :: "'op \<Rightarrow> 'm \<Rightarrow> 'r \<times> 'm" and phase +
  fixes enter :: "'c \<Rightarrow> 'c"
  assumes enter_pending: "phase p (enter c) None"
begin

definition thread_ok :: "('op, 'c) calls \<Rightarrow> (nat \<times> 'r) list \<Rightarrow> ('c, 'm, 'r) psys \<Rightarrow> nat \<Rightarrow> bool" where
  "thread_ok calls h s t \<longleftrightarrow>
     (case active s t of
        None \<Rightarrow> results_of t h = finished s t
      | Some c \<Rightarrow> (\<exists>p c\<^sub>0. calls t (length (finished s t)) = Some (p, c\<^sub>0) \<and>
          (results_of t h = finished s t \<and> phase p c None \<or>
           (\<exists>v. results_of t h = finished s t @ [fst (spec p v)] \<and> phase p c (Some v)))))"

definition plin_inv :: "('op, 'c) calls \<Rightarrow> 'm \<Rightarrow> (nat \<times> 'r) list \<Rightarrow> ('c, 'm, 'r) psys \<Rightarrow> bool" where
  "plin_inv calls m h s \<longleftrightarrow> seq_calls spec (ops_of calls) (map fst h) ([], m) = (h, pcell s) \<and> (\<forall>t. thread_ok calls h s t)"

lemma plin_inv_init: "plin_inv calls m [] (psys_init m)"
  by (simp add: plin_inv_def thread_ok_def psys_init_def)

lemma thread_rest:
  assumes "\<forall>t. thread_ok calls h s t"
  shows "\<exists>rest. results_of t h = finished s t @ rest \<and> length rest \<le> 1 \<and> (active s t = None \<longrightarrow> rest = [])"
  using assms [THEN spec, of t] unfolding thread_ok_def by (cases "active s t") auto

lemma plin_inv_explains: "plin_inv calls m h s \<Longrightarrow> explains spec calls m h s"
  unfolding plin_inv_def explains_def using thread_rest by blast

lemma thread_ok_other:
  assumes "thread_ok calls h s u" "active s' u = active s u" "finished s' u = finished s u" "results_of u h' = results_of u h"
  shows "thread_ok calls h' s' u"
  using assms unfolding thread_ok_def by (simp only:)

text \<open>A step that neither changes the cell nor lets a call take effect.\<close>

lemma plin_inv_quiet:
  assumes "plin_inv calls m h s" "pcell s' = pcell s" "thread_ok calls h s' t"
    and "\<And>u. u \<noteq> t \<Longrightarrow> active s' u = active s u \<and> finished s' u = finished s u"
  shows "plin_inv calls m (h @ []) s'"
proof -
  have "thread_ok calls h s' u" for u
    using assms(1,3) assms(4) [of u] thread_ok_other [of calls h s u s' h] by (cases "u = t") (auto simp: plin_inv_def)
  with assms(1,2) show ?thesis
    by (simp add: plin_inv_def)
qed

lemma plin_inv_effect:
  assumes "plin_inv calls m h s" "calls t (length (finished s t)) = Some (p, c\<^sub>0)" "results_of t h = finished s t"
    and "phase p c' (Some (pcell s))"
  defines "r \<equiv> fst (spec p (pcell s))"
  shows "plin_inv calls m (h @ [(t, r)]) (s\<lparr>pcell := snd (spec p (pcell s)), active := (active s)(t := Some c')\<rparr>)"
proof -
  let ?s = "s\<lparr>pcell := snd (spec p (pcell s)), active := (active s)(t := Some c')\<rparr>"
  have "thread_ok calls (h @ [(t, r)]) ?s u" for u
  proof (cases "u = t")
    case True
    with assms(2-4) show ?thesis
      by (auto simp: thread_ok_def r_def)
  next
    case False
    with assms(1) show ?thesis
      by (intro thread_ok_other [of calls h s u ?s]) (auto simp: plin_inv_def)
  qed
  moreover have "seq_calls spec (ops_of calls) (map fst (h @ [(t, r)])) ([], m) = (h @ [(t, r)], pcell ?s)"
    using assms(1-3) by (simp add: plin_inv_def seq_calls_snoc calls_made_results ops_of_def split_def Let_def r_def)
  ultimately show ?thesis
    by (simp add: plin_inv_def)
qed

text \<open>A step of a thread leaves the order of the calls alone, or its call takes effect.\<close>

lemma plin_inv_active:
  assumes inv: "plin_inv calls m h s" and p: "calls t (length (finished s t)) = Some (p, c\<^sub>0)" and act: "active s t = Some c"
  shows "\<exists>g. plin_inv calls m (h @ g) (pstep lstep running result enter calls t s)"
proof -
  obtain c' m' where st: "lstep p (c, pcell s) = (c', m')"
    by fastforce
  let ?moved = "s\<lparr>pcell := m', active := (active s)(t := Some c')\<rparr>"
  let ?returned = "s\<lparr>active := (active s)(t := None), finished := (finished s)(t := finished s t @ [result c])\<rparr>"
  have step: "pstep lstep running result enter calls t s = (if running p c then ?moved else ?returned)"
    using p act st by (simp add: pstep_def)
  from inv p act consider
      (pending) "results_of t h = finished s t" "phase p c None"
    | (effected) v where "results_of t h = finished s t @ [fst (spec p v)]" "phase p c (Some v)"
    unfolding plin_inv_def thread_ok_def by (elim conjE allE [of _ t]) auto
  then show ?thesis
  proof cases
    case pending
    from pending_step [OF pending(2) st] pending_running [OF pending(2)] show ?thesis
    proof (elim disjE conjE)
      assume "m' = pcell s" "phase p c' None" "running p c"
      with pending p show ?thesis
        unfolding step by (intro exI [of _ "[]"] plin_inv_quiet [OF inv, of _ t]) (auto simp: thread_ok_def)
    next
      assume "m' = snd (spec p (pcell s))" "phase p c' (Some (pcell s))" "running p c"
      with plin_inv_effect [OF inv p pending(1)] show ?thesis
        unfolding step by auto
    qed
  next
    case (effected v)
    show ?thesis
    proof (cases "running p c")
      case True
      with done_step [OF effected(2) True st] effected p show ?thesis
        unfolding step by (intro exI [of _ "[]"] plin_inv_quiet [OF inv, of _ t]) (auto simp: thread_ok_def)
    next
      case False
      with done_result [OF effected(2)] effected p show ?thesis
        unfolding step by (intro exI [of _ "[]"] plin_inv_quiet [OF inv, of _ t]) (auto simp: thread_ok_def)
    qed
  qed
qed

lemma plin_inv_step:
  assumes inv: "plin_inv calls m h s"
  shows "\<exists>g. plin_inv calls m (h @ g) (pstep lstep running result enter calls t s)"
proof (cases "calls t (length (finished s t))")
  case None
  with inv show ?thesis
    by (intro exI [of _ "[]"]) (simp add: pstep_def)
next
  case (Some x)
  then obtain p c\<^sub>0 where p: "calls t (length (finished s t)) = Some (p, c\<^sub>0)"
    by (cases x) simp
  show ?thesis
  proof (cases "active s t")
    case None
    with inv have "results_of t h = finished s t"
      unfolding plin_inv_def thread_ok_def by (elim conjE allE [of _ t]) simp
    with None p show ?thesis
      by (intro exI [of _ "[]"] plin_inv_quiet [OF inv, of _ t]) (auto simp: pstep_def thread_ok_def enter_pending)
  next
    case (Some c)
    from plin_inv_active [OF inv p this] show ?thesis .
  qed
qed

lemma plin_inv_run:
  "plin_inv calls m h s \<Longrightarrow> \<exists>g. plin_inv calls m (h @ g) (prun lstep running result enter calls ts s)"
proof (induction ts arbitrary: h s)
  case Nil
  then show ?case by (intro exI [of _ "[]"]) (simp add: prun_def)
next
  case (Cons t ts)
  then obtain g where "plin_inv calls m (h @ g) (pstep lstep running result enter calls t s)"
    using plin_inv_step by blast
  from Cons.IH [OF this] show ?case
    by (auto simp: prun_def)
qed

lemma programs_linearizable:
  assumes "s = prun lstep running result enter calls ts (psys_init m)"
  shows "\<exists>h. explains spec calls m h s \<and> (\<forall>us. \<exists>g. explains spec calls m (h @ g) (prun lstep running result enter calls us s))"
proof -
  obtain h where "plin_inv calls m h s"
    using plin_inv_run [OF plin_inv_init] assms by (metis append_Nil)
  then show ?thesis
    using plin_inv_run plin_inv_explains by meson
qed

end

section \<open>A thread alone\<close>

locale solo_programs = linearizable_programs lstep running result spec phase enter
  for lstep :: "'op \<Rightarrow> 'c \<times> 'm \<Rightarrow> 'c \<times> 'm" and running and result :: "'c \<Rightarrow> 'r" and spec and phase and enter +
  fixes most :: nat
  assumes solo: "phase p c ph \<Longrightarrow> \<exists>k \<le> most. \<not> running p (fst ((lstep p ^^ k) (c, m)))"
begin

abbreviation alone :: "('op, 'c) calls \<Rightarrow> nat \<Rightarrow> nat \<Rightarrow> ('c, 'm, 'r) psys \<Rightarrow> ('c, 'm, 'r) psys" where
  "alone calls t k \<equiv> prun lstep running result enter calls (replicate k t)"

lemma alone_moves:
  assumes "calls t (length (finished s t)) = Some (p, c\<^sub>0)" "active s t = Some c"
    and "\<forall>j < k. running p (fst ((lstep p ^^ j) (c, pcell s)))"
  shows "alone calls t k s =
    s\<lparr>pcell := snd ((lstep p ^^ k) (c, pcell s)), active := (active s)(t := Some (fst ((lstep p ^^ k) (c, pcell s))))\<rparr>"
  using assms(3)
proof (induction k)
  case 0
  then show ?case
    using assms(2) by (simp add: prun_def fun_upd_idem)
next
  case (Suc k)
  obtain c\<^sub>1 m\<^sub>1 where k: "(lstep p ^^ k) (c, pcell s) = (c\<^sub>1, m\<^sub>1)"
    by fastforce
  obtain c\<^sub>2 m\<^sub>2 where st: "lstep p (c\<^sub>1, m\<^sub>1) = (c\<^sub>2, m\<^sub>2)"
    by fastforce
  have "running p (fst ((lstep p ^^ k) (c, pcell s)))"
    using Suc.prems by (rule allE [of _ k]) simp
  then have run: "running p c\<^sub>1"
    by (simp add: k)
  have IH: "alone calls t k s = s\<lparr>pcell := m\<^sub>1, active := (active s)(t := Some c\<^sub>1)\<rparr>"
    using Suc.IH [unfolded k fst_conv snd_conv] Suc.prems less_SucI by blast
  have "alone calls t (Suc k) s = pstep lstep running result enter calls t (alone calls t k s)"
    by (simp add: prun_def replicate_append_same [symmetric] del: replicate_Suc)
  also have "\<dots> = s\<lparr>pcell := m\<^sub>2, active := (active s)(t := Some c\<^sub>2)\<rparr>"
    unfolding IH using assms(1) run st by (simp add: pstep_def)
  finally show ?case
    unfolding funpow.simps comp_apply k st fst_conv snd_conv .
qed

lemma alone_returns:
  assumes "calls t (length (finished s t)) = Some (p, c\<^sub>0)" "active s t = Some c" "phase p c ph"
  shows "\<exists>k \<le> Suc most. length (finished (alone calls t k s) t) = Suc (length (finished s t))"
proof -
  define k where "k = (LEAST k. \<not> running p (fst ((lstep p ^^ k) (c, pcell s))))"
  obtain n where n: "n \<le> most" "\<not> running p (fst ((lstep p ^^ n) (c, pcell s)))"
    using solo [OF assms(3)] by blast
  have k: "\<not> running p (fst ((lstep p ^^ k) (c, pcell s)))" "k \<le> n"
    unfolding k_def
    by (rule LeastI [of "\<lambda>k. \<not> running p (fst ((lstep p ^^ k) (c, pcell s)))", OF n(2)],
      rule Least_le [of "\<lambda>k. \<not> running p (fst ((lstep p ^^ k) (c, pcell s)))", OF n(2)])
  have "\<forall>j < k. running p (fst ((lstep p ^^ j) (c, pcell s)))"
    unfolding k_def using not_less_Least by blast
  then have "alone calls t k s =
    s\<lparr>pcell := snd ((lstep p ^^ k) (c, pcell s)), active := (active s)(t := Some (fst ((lstep p ^^ k) (c, pcell s))))\<rparr>"
    using assms(1,2) by (intro alone_moves)
  with k(1) assms(1) have "length (finished (pstep lstep running result enter calls t (alone calls t k s)) t) = Suc (length (finished s t))"
    by (simp add: pstep_def)
  moreover have "alone calls t (Suc k) s = pstep lstep running result enter calls t (alone calls t k s)"
    by (simp add: prun_def replicate_append_same [symmetric] del: replicate_Suc)
  ultimately show ?thesis
    using k(2) n(1) by (intro exI [of _ "Suc k"]) simp
qed

lemma alone_finishes:
  assumes "plin_inv calls m h s" "calls t (length (finished s t)) = Some (p, c\<^sub>0)"
  shows "\<exists>k \<le> most + 2. length (finished (alone calls t k s) t) = Suc (length (finished s t))"
proof (cases "active s t")
  case None
  let ?s = "s\<lparr>active := (active s)(t := Some (enter c\<^sub>0))\<rparr>"
  have "pstep lstep running result enter calls t s = ?s"
    using None assms(2) by (simp add: pstep_def)
  moreover obtain k where "k \<le> Suc most" "length (finished (alone calls t k ?s) t) = Suc (length (finished s t))"
    using alone_returns [of calls t ?s p c\<^sub>0 "enter c\<^sub>0" None] assms(2) enter_pending by auto
  ultimately show ?thesis
    by (intro exI [of _ "Suc k"]) (simp add: prun_def)
next
  case (Some c)
  from assms Some obtain ph where "phase p c ph"
    unfolding plin_inv_def thread_ok_def by (elim conjE allE [of _ t]) auto
  with assms(2) Some have "\<exists>k \<le> Suc most. length (finished (alone calls t k s) t) = Suc (length (finished s t))"
    by (intro alone_returns)
  then show ?thesis
    by (auto intro: le_SucI)
qed

lemma finishes_alone:
  assumes "s = prun lstep running result enter calls ts (psys_init m)" "calls t (length (finished s t)) \<noteq> None"
  shows "\<exists>k \<le> most + 2. length (finished (alone calls t k s) t) = Suc (length (finished s t))"
proof -
  obtain h where "plin_inv calls m h s"
    using plin_inv_run [OF plin_inv_init] assms(1) by (metis append_Nil)
  moreover obtain p c\<^sub>0 where "calls t (length (finished s t)) = Some (p, c\<^sub>0)"
    using assms(2) by auto
  ultimately show ?thesis
    by (rule alone_finishes)
qed

end

section \<open>The operations of atomic.h\<close>

definition enter_block :: "'l::len word cpu \<Rightarrow> 'l word cpu" where
  "enter_block c = c\<lparr>pc := 0\<rparr>"

text \<open>A thread that is not disturbed finishes its call within five instructions, wherever it stands.\<close>

fun solo_steps :: "'l::len word aop \<Rightarrow> 'l word cpu \<Rightarrow> 'l word \<Rightarrow> nat" where
  "solo_steps (Exchange nv) c m =
     (if pc c = 0 then 3 else if pc c = 1 then (if res c = m then 2 else 4)
      else if pc c = 2 then (if zf c then 1 else if res c = m then 3 else 5) else 0)"
| "solo_steps p c m = length (aop_code p) - pc c"

lemma solo_stops: "aop_phase p c ph \<Longrightarrow> \<not> aop_running p (fst ((aop_step p ^^ solo_steps p c m) (c, m)))"
proof (cases p)
  case Inc
  then show "aop_phase p c ph \<Longrightarrow> ?thesis"
    by (cases ph) (auto simp: aop_local eval_nat_numeral)
next
  case Dec
  then show "aop_phase p c ph \<Longrightarrow> ?thesis"
    by (cases ph) (auto simp: aop_local eval_nat_numeral)
next
  case (Add av)
  then show "aop_phase p c ph \<Longrightarrow> ?thesis"
    by (cases ph) (auto simp: aop_local eval_nat_numeral)
next
  case (Exchange nv)
  then show "aop_phase p c ph \<Longrightarrow> ?thesis"
    by (cases ph; cases "res c = m") (auto simp: aop_local eval_nat_numeral)
next
  case (CompareExchange nv cv)
  then show "aop_phase p c ph \<Longrightarrow> ?thesis"
    by (cases ph; cases "cv = m") (auto simp: aop_local eval_nat_numeral)
qed

lemma solo_call: "aop_phase p c ph \<Longrightarrow> \<exists>k \<le> 5. \<not> aop_running p (fst ((aop_step p ^^ k) (c, m)))"
  using solo_stops [of p c ph m] by (intro exI [of _ "solo_steps p c m"]) (cases p, simp_all add: code_defs)

interpretation atomic_programs: solo_programs
  "aop_step :: 'l::len word aop \<Rightarrow> 'l word cpu \<times> 'l word \<Rightarrow> 'l word cpu \<times> 'l word"
  aop_running res aop_spec aop_phase enter_block 5
  by unfold_locales (simp add: enter_block_def aop_phase_start, rule solo_call)

definition atomic_threads ::
  "('l::len word aop, 'l word cpu) calls \<Rightarrow> nat list \<Rightarrow> ('l word cpu, 'l word, 'l word) psys \<Rightarrow>
   ('l word cpu, 'l word, 'l word) psys" where
  "atomic_threads = prun aop_step aop_running res enter_block"

section \<open>Properties\<close>

text \<open>
  C4: programs of any number of threads, each making any number of calls of the functions of atomic.h:
  for every interleaving of the instructions there is an order of the calls that explains every
  result and the cell, and as the threads go on this order is only extended: a call that has finished
  comes before every call that has not begun. A thread with a call to make that is left alone finishes it
  within seven of its steps.
\<close>

theorem atomic_programs_linearizable:
  fixes calls :: "('l::len word aop, 'l word cpu) calls"
  assumes "s = atomic_threads calls ts (psys_init m)"
  shows "(\<exists>h. explains aop_spec calls m h s \<and>
      (\<forall>us. \<exists>g. explains aop_spec calls m (h @ g) (atomic_threads calls us s))) \<and>
    (\<forall>t. calls t (length (finished s t)) \<noteq> None \<longrightarrow>
      (\<exists>k \<le> 7. length (finished (atomic_threads calls (replicate k t) s) t) = Suc (length (finished s t))))"
proof (intro conjI allI impI)
  have s: "s = prun aop_step aop_running res enter_block calls ts (psys_init m)"
    using assms by (simp add: atomic_threads_def)
  show "\<exists>h. explains aop_spec calls m h s \<and> (\<forall>us. \<exists>g. explains aop_spec calls m (h @ g) (atomic_threads calls us s))"
    using atomic_programs.programs_linearizable [OF s] unfolding atomic_threads_def .
  show "\<exists>k \<le> 7. length (finished (atomic_threads calls (replicate k t) s) t) = Suc (length (finished s t))"
    if "calls t (length (finished s t)) \<noteq> None" for t
    using atomic_programs.finishes_alone [OF s that] by (simp add: atomic_threads_def)
qed

text \<open>One thread increments twice, another exchanges and then adds; the exchange has to try again.\<close>

definition two_programs :: "(u32 aop, u32 cpu) calls" where
  "two_programs t k =
     (let c = \<lparr>pc = 0, res = 0, zf = False\<rparr>
      in map_option (\<lambda>p. (p, c))
        (if t = 0 \<and> k < 2 then Some Inc else if t = 1 \<and> k = 0 then Some (Exchange 100)
         else if t = 1 \<and> k = 1 then Some (Add 5) else None))"

definition two_schedule :: "nat list" where
  "two_schedule = [1, 1, 0, 0, 0, 0, 0, 1, 1, 1, 1, 1, 0, 0, 0, 0, 1, 1, 1, 1, 0]"

theorem atomic_programs_linearizable_witness:
  "let s = atomic_threads two_programs two_schedule (psys_init 7)
   in (\<exists>h. explains aop_spec two_programs 7 h s) \<and> pcell s = 106 \<and> finished s 0 = [8, 101] \<and> finished s 1 = [8, 101]"
proof -
  let ?s = "atomic_threads two_programs two_schedule (psys_init 7)"
  have "pcell ?s = 106" "finished ?s 0 = [8, 101]" "finished ?s 1 = [8, 101]"
    by code_simp+
  with atomic_programs_linearizable [OF refl, where calls = two_programs and ts = two_schedule and m = 7] show ?thesis
    unfolding Let_def by blast
qed

end
