(* ===== verification/Permutate.thy ===== *)
theory Permutate
  imports CS_Prelude
begin

text \<open>
  The access patterns of src/mem/permutate.cpp: four functions that turn an array into a linked
  ring of indices sized for one level of the memory hierarchy, and four that walk the ring. The
  theory shows that the rings are complete: a walk touches every cache line of its range exactly
  once per lap and never leaves the array.
\<close>

section \<open>The functions of permutate.cpp\<close>

definition CacheLineSize :: u32 where "CacheLineSize = 64"
definition L1CacheSize :: u32 where "L1CacheSize = 16 * 1024"
definition L2CacheSize :: u32 where "L2CacheSize = 128 * 1024"
definition L3CacheSize :: u32 where "L3CacheSize = 3 * 1024 * 1024"
definition sizeof_uint32 :: u32 where "sizeof_uint32 = 4"
definition WARMUPROUND :: u32 where "WARMUPROUND = 100"

lemmas cache_sizes = CacheLineSize_def L1CacheSize_def L2CacheSize_def L3CacheSize_def
  sizeof_uint32_def WARMUPROUND_def

text \<open>
  The loop \<open>for (i = 0; i < range; i += step) array[i] = (i + stride) % range\<close> that the four
  pattern functions share, with 32-bit unsigned arithmetic.
\<close>

partial_function (option) fill_loop ::
  "u32 \<Rightarrow> u32 \<Rightarrow> u32 \<Rightarrow> u32 \<Rightarrow> u32 arr \<Rightarrow> u32 arr outcome option" where
  "fill_loop step stride rng i a =
     (if i < rng then
        (case arr_write a (unat i) ((i + stride) mod rng) of
           None \<Rightarrow> Some OutOfBounds
         | Some a' \<Rightarrow> fill_loop step stride rng (i + step) a')
      else Some (Returned a))"

definition fill :: "u32 \<Rightarrow> u32 \<Rightarrow> u32 \<Rightarrow> u32 arr \<Rightarrow> (u32 \<times> u32 arr) outcome" where
  "fill step stride rng a =
     on_return (of_loop (fill_loop step stride rng 0 a)) (\<lambda>a'. Returned (rng, a'))"

definition l1h :: "u32 arr \<Rightarrow> u32 \<Rightarrow> (u32 \<times> u32 arr) outcome" where
  "l1h array sz =
     (let rng = L1CacheSize div sizeof_uint32
      in if rng < sz then fill 1 1 rng array else AssertFailed)"

definition l1ml2h :: "u32 arr \<Rightarrow> u32 \<Rightarrow> (u32 \<times> u32 arr) outcome" where
  "l1ml2h array sz =
     (let step = CacheLineSize div sizeof_uint32; rng = L2CacheSize div sizeof_uint32
      in if rng < sz then fill step (step * 5) rng array else AssertFailed)"

definition l2ml3h :: "u32 arr \<Rightarrow> u32 \<Rightarrow> (u32 \<times> u32 arr) outcome" where
  "l2ml3h array sz =
     (let step = CacheLineSize div sizeof_uint32; rng = L3CacheSize div sizeof_uint32
      in if rng < sz then fill step (step * 5) rng array else AssertFailed)"

definition l3m :: "u32 arr \<Rightarrow> u32 \<Rightarrow> (u32 \<times> u32 arr) outcome" where
  "l3m array sz =
     (let step = CacheLineSize div sizeof_uint32; rng = L3CacheSize * 32 div sizeof_uint32
      in if rng < sz then fill step (step * 5) rng array else AssertFailed)"

text \<open>The walk \<open>j = array[j]\<close>, repeated; \<open>None\<close> when it leaves the array.\<close>

primrec chase :: "nat \<Rightarrow> u32 arr \<Rightarrow> u32 \<Rightarrow> u32 option" where
  "chase 0 a j = Some j"
| "chase (Suc n) a j =
     (case arr_read a (unat j) of None \<Rightarrow> None | Some j' \<Rightarrow> chase n a j')"

definition walk :: "u32 \<Rightarrow> u32 arr \<Rightarrow> (string + u32) outcome" where
  "walk iters a =
     (case chase (unat iters) a 0 of None \<Rightarrow> OutOfBounds | Some j \<Rightarrow> Returned (Inr j))"

text \<open>The warm-up functions log an error for a short array (\<open>Inl\<close>), else walk from 0.\<close>

definition warmUpL1 :: "u32 arr \<Rightarrow> u32 \<Rightarrow> (string + u32) outcome" where
  "warmUpL1 array sz =
     (let rng = L1CacheSize div sizeof_uint32
      in if rng > sz then Returned (Inl ''Array size is less than L1 cache'')
         else walk (rng * WARMUPROUND) array)"

definition warmUpL2 :: "u32 arr \<Rightarrow> u32 \<Rightarrow> (string + u32) outcome" where
  "warmUpL2 array sz =
     (let rng = L2CacheSize div sizeof_uint32
      in if rng > sz then Returned (Inl ''Array size is less than L2 cache'')
         else walk (rng * WARMUPROUND) array)"

definition warmUpL3 :: "u32 arr \<Rightarrow> u32 \<Rightarrow> (string + u32) outcome" where
  "warmUpL3 array sz =
     (let rng = L3CacheSize div sizeof_uint32
      in if rng > sz then Returned (Inl ''Array size is less than L2 cache'')
         else walk (rng * WARMUPROUND) array)"

definition warmUpL4 :: "u32 arr \<Rightarrow> u32 \<Rightarrow> (string + u32) outcome" where
  "warmUpL4 array sz = walk sz array"

section \<open>Rings\<close>

text \<open>
  The abstract content of a pattern: every index that is a multiple of \<open>step\<close> below \<open>rng\<close>
  points \<open>stride\<close> further, around the range.
\<close>

definition ring_array :: "nat \<Rightarrow> nat \<Rightarrow> nat \<Rightarrow> u32 arr \<Rightarrow> bool" where
  "ring_array step stride rng a \<longleftrightarrow> rng \<le> arr_len a \<and>
     (\<forall>j < rng. step dvd j \<longrightarrow> arr_get a j = of_nat ((j + stride) mod rng))"

text \<open>
  One lap: \<open>lines\<close> steps from index 0 come back to 0, and on the way visit every multiple of
  \<open>step\<close> below \<open>lines * step\<close> exactly once.
\<close>

definition full_lap :: "nat \<Rightarrow> nat \<Rightarrow> u32 arr \<Rightarrow> bool" where
  "full_lap step lines a \<longleftrightarrow> chase lines a 0 = Some 0 \<and>
     bij_betw (\<lambda>n. map_option unat (chase n a 0)) {..<lines} {Some (c * step) | c. c < lines}"

lemma chase_add:
  "chase (m + n) a j = (case chase m a j of None \<Rightarrow> None | Some j' \<Rightarrow> chase n a j')"
  by (induction m arbitrary: j) (auto split: option.splits)

locale stride_ring =
  fixes step stride rng :: nat
  assumes step_pos: "0 < step" and range_pos: "0 < rng"
    and step_stride: "step dvd stride" and step_range: "step dvd rng"
    and small: "rng + stride + step < 2 ^ 32"
    and coprime_lines: "coprime (stride div step) (rng div step)"
begin

lemma range_eq: "rng = rng div step * step"
  using step_range by simp

lemma stride_eq: "stride = stride div step * step"
  using step_stride by simp

lemma index_small: "i < rng \<Longrightarrow> unat (of_nat i :: u32) = i"
  using small by (intro unat_of_nat_small) simp

lemma mod_step: "step dvd j \<Longrightarrow> step dvd (j mod rng)"
  using step_range by (simp add: dvd_mod_iff)

text \<open>The loop of the pattern functions builds the ring, whatever the array held.\<close>

lemma slot_value:
  assumes "i < rng"
  shows "(of_nat i + of_nat stride) mod (of_nat rng :: u32) = of_nat ((i + stride) mod rng)"
proof -
  have "unat (of_nat (i + stride) :: u32) = i + stride" "unat (of_nat rng :: u32) = rng"
    using assms small by (auto intro!: unat_of_nat_small simp del: of_nat_add)
  moreover have "(i + stride) mod rng < 2 ^ 32"
    using mod_less_divisor [OF range_pos, of "i + stride"] small by linarith
  ultimately show ?thesis
    by (subst word_eq_of_nat_iff) (simp_all add: unat_mod flip: of_nat_add)
qed

lemma fill_loop_from:
  assumes "rng \<le> arr_len a" and "c \<le> rng div step"
  shows "\<exists>a'. fill_loop (of_nat step) (of_nat stride) (of_nat rng) (of_nat (c * step)) a =
      Some (Returned a') \<and> arr_len a' = arr_len a \<and>
      (\<forall>j. arr_get a' j = (if step dvd j \<and> c * step \<le> j \<and> j < rng
         then of_nat ((j + stride) mod rng) else arr_get a j))"
  using assms
proof (induction "rng div step - c" arbitrary: c a)
  case 0
  then have c: "c * step = rng"
    using range_eq by simp
  then show ?case
    by (subst fill_loop.simps) auto
next
  case (Suc k)
  then have lt: "c < rng div step"
    by simp
  then have "Suc c * step \<le> rng"
    using range_eq by (metis Suc_leI mult_le_mono1)
  then have i: "c * step < rng" "c * step + step \<le> rng"
    using step_pos by auto
  let ?b = "a\<lparr>arr_get := (arr_get a)(c * step := of_nat ((c * step + stride) mod rng))\<rparr>"
  have cond: "(of_nat (c * step) :: u32) < of_nat rng"
    using i small
    by (simp add: word_less_nat_alt index_small unat_of_nat_small del: of_nat_mult)
  have wr: "arr_write a (unat (of_nat (c * step) :: u32))
      ((of_nat (c * step) + of_nat stride) mod of_nat rng) = Some ?b"
    using i Suc.prems(1) by (simp add: index_small slot_value arr_write_Some del: of_nat_mult)
  have nxt: "(of_nat (c * step) + of_nat step :: u32) = of_nat (Suc c * step)"
    by (simp add: add.commute)
  obtain a' where a': "fill_loop (of_nat step) (of_nat stride) (of_nat rng) (of_nat (Suc c * step)) ?b
      = Some (Returned a')" "arr_len a' = arr_len a"
      "\<forall>j. arr_get a' j = (if step dvd j \<and> Suc c * step \<le> j \<and> j < rng
         then of_nat ((j + stride) mod rng) else arr_get ?b j)"
  proof -
    have "k = rng div step - Suc c" "rng \<le> arr_len ?b" "Suc c \<le> rng div step"
      using Suc.hyps(2) Suc.prems lt by auto
    from Suc.hyps(1) [OF this] that show thesis
      by auto
  qed
  have gap: "Suc c * step \<le> j" if j: "step dvd j" "c * step \<le> j" "j \<noteq> c * step" for j
  proof -
    obtain k where k: "j = k * step"
      using j(1) by (metis dvdE mult.commute)
    with j step_pos have "Suc c \<le> k"
      by auto
    with k show ?thesis
      using mult_le_mono1 by blast
  qed
  have eqn: "fill_loop (of_nat step) (of_nat stride) (of_nat rng) (of_nat (c * step)) a =
      Some (Returned a')"
    by (subst fill_loop.simps) (simp only: cond wr nxt a'(1) if_True option.case)
  have "arr_get a' j = (if step dvd j \<and> c * step \<le> j \<and> j < rng
         then of_nat ((j + stride) mod rng) else arr_get a j)" for j
    using a'(3) gap [of j] i(1) step_pos by (cases "j = c * step") auto
  with eqn a'(2) show ?case
    by blast
qed

lemma fill_ring:
  assumes "rng \<le> arr_len a"
  obtains a' where "fill (of_nat step) (of_nat stride) (of_nat rng) a = Returned (of_nat rng, a')"
    "arr_len a' = arr_len a" "ring_array step stride rng a'"
  using fill_loop_from [OF assms, of 0] assms by (fastforce simp: fill_def ring_array_def)

text \<open>Walking the ring.\<close>

lemma chase_ring:
  assumes "ring_array step stride rng a"
  shows "chase n a 0 = Some (of_nat (n * stride mod rng))"
proof -
  have "chase n a (of_nat j) = Some (of_nat ((j + n * stride) mod rng))"
    if "j < rng" "step dvd j" for j
    using that
  proof (induction n arbitrary: j)
    case (Suc n)
    have rd: "arr_read a (unat (of_nat j :: u32)) = Some (of_nat ((j + stride) mod rng))"
      using assms Suc.prems by (simp add: index_small ring_array_def arr_read_Some)
    have "(j + stride) mod rng < rng" "step dvd (j + stride) mod rng"
      using range_pos Suc.prems step_stride by (auto intro!: mod_step)
    with Suc.IH rd show ?case
      by (simp add: mod_add_left_eq add.assoc)
  qed simp
  from this [of 0] range_pos show ?thesis
    by simp
qed

lemma chase_line:
  assumes "ring_array step stride rng a"
  shows "map_option unat (chase n a 0) =
    Some (n * (stride div step) mod (rng div step) * step)"
proof -
  have "n * stride mod rng = n * (stride div step) mod (rng div step) * step"
    by (metis mult.assoc mult_mod_left range_eq stride_eq)
  moreover have "n * stride mod rng < rng"
    using range_pos by simp
  ultimately show ?thesis
    by (simp add: chase_ring [OF assms] index_small del: of_nat_mult)
qed

lemma full_lap_ring:
  assumes "ring_array step stride rng a"
  shows "full_lap step (rng div step) a"
proof -
  let ?L = "rng div step"
  let ?f = "\<lambda>n. n * (stride div step) mod ?L"
  have L: "0 < ?L"
    using range_eq range_pos by (metis gr_zeroI mult_0)
  have inj: "inj_on ?f {..<?L}"
  proof (rule linorder_inj_onI')
    fix m n assume mn: "m \<in> {..<?L}" "n \<in> {..<?L}" "m < n"
    show "?f m \<noteq> ?f n"
    proof
      assume "?f m = ?f n"
      then have "?L dvd n * (stride div step) - m * (stride div step)"
        using mn(3) by (metis less_imp_le mod_eq_dvd_iff_nat mult_le_mono1)
      then have "?L dvd (n - m) * (stride div step)"
        by (simp add: diff_mult_distrib)
      then have "?L dvd n - m"
        using coprime_lines by (simp add: coprime_dvd_mult_left_iff coprime_commute)
      with mn show False
        by (auto dest: dvd_imp_le)
    qed
  qed
  have img: "?f ` {..<?L} = {..<?L}"
    using L inj by (intro endo_inj_surj) auto
  have bij: "bij_betw ?f {..<?L} {..<?L}"
    using inj img by (simp add: bij_betw_def)
  have "bij_betw (\<lambda>c. Some (c * step)) {..<?L} {Some (c * step) | c. c < ?L}"
    using step_pos by (auto simp: bij_betw_def inj_on_def)
  from bij_betw_trans [OF bij this]
  have "bij_betw (\<lambda>n. map_option unat (chase n a 0)) {..<?L} {Some (c * step) | c. c < ?L}"
    by (simp add: chase_line [OF assms] o_def)
  moreover have "?L * stride mod rng = 0"
    by (metis mod_mult_self2_is_0 mult.assoc mult.commute range_eq stride_eq)
  ultimately show ?thesis
    by (simp add: full_lap_def chase_ring [OF assms])
qed

lemma walk_laps:
  assumes "ring_array step stride rng a" and "rng div step dvd unat iters"
  shows "walk iters a = Returned (Inr 0)"
proof -
  obtain k where "unat iters = rng div step * k"
    using assms(2) by (auto simp: dvd_def)
  then have "unat iters * stride = k * (stride div step) * rng"
    using range_eq stride_eq by (metis mult.assoc mult.commute)
  then show ?thesis
    by (simp add: walk_def chase_ring [OF assms(1)])
qed

end

section \<open>The four patterns\<close>

interpretation ring_L1: stride_ring 1 1 4096
  by unfold_locales auto

interpretation ring_L2: stride_ring 16 80 32768
  by unfold_locales (auto simp: coprime_iff_gcd_eq_1 gcd_nat.simps)

interpretation ring_L3: stride_ring 16 80 786432
  by unfold_locales (auto simp: coprime_iff_gcd_eq_1 gcd_nat.simps)

interpretation ring_L4: stride_ring 16 80 25165824
  by unfold_locales (auto simp: coprime_iff_gcd_eq_1 gcd_nat.simps)

text \<open>Each pattern function in numbers: the assertion, then the fill of a \<open>stride_ring\<close>.\<close>

lemma pattern_fills:
  "l1h a sz = (if 4096 < sz then fill 1 1 4096 a else AssertFailed)"
  "l1ml2h a sz = (if 32768 < sz then fill 16 80 32768 a else AssertFailed)"
  "l2ml3h a sz = (if 786432 < sz then fill 16 80 786432 a else AssertFailed)"
  "l3m a sz = (if 25165824 < sz then fill 16 80 25165824 a else AssertFailed)"
  by (simp_all add: l1h_def l1ml2h_def l2ml3h_def l3m_def cache_sizes)

lemma warm_up_walks:
  "warmUpL1 a sz = (if sz < 4096 then Returned (Inl ''Array size is less than L1 cache'')
     else walk 409600 a)"
  "warmUpL2 a sz = (if sz < 32768 then Returned (Inl ''Array size is less than L2 cache'')
     else walk 3276800 a)"
  "warmUpL3 a sz = (if sz < 786432 then Returned (Inl ''Array size is less than L2 cache'')
     else walk 78643200 a)"
  by (simp_all add: warmUpL1_def warmUpL2_def warmUpL3_def cache_sizes)

lemma l1h_ring:
  assumes "4096 < sz" "4096 \<le> arr_len a"
  obtains a' where "l1h a sz = Returned (4096, a')" "arr_len a' = arr_len a" "ring_array 1 1 4096 a'"
  using ring_L1.fill_ring [OF assms(2)] assms(1) by (auto simp: pattern_fills)

lemma l1ml2h_ring:
  assumes "32768 < sz" "32768 \<le> arr_len a"
  obtains a' where "l1ml2h a sz = Returned (32768, a')" "arr_len a' = arr_len a"
    "ring_array 16 80 32768 a'"
  using ring_L2.fill_ring [OF assms(2)] assms(1) by (auto simp: pattern_fills)

lemma l2ml3h_ring:
  assumes "786432 < sz" "786432 \<le> arr_len a"
  obtains a' where "l2ml3h a sz = Returned (786432, a')" "arr_len a' = arr_len a"
    "ring_array 16 80 786432 a'"
  using ring_L3.fill_ring [OF assms(2)] assms(1) by (auto simp: pattern_fills)

lemma l3m_ring:
  assumes "25165824 < sz" "25165824 \<le> arr_len a"
  obtains a' where "l3m a sz = Returned (25165824, a')" "arr_len a' = arr_len a"
    "ring_array 16 80 25165824 a'"
  using ring_L4.fill_ring [OF assms(2)] assms(1) by (auto simp: pattern_fills)

section \<open>Properties\<close>

text \<open>
  C6: on an array at least as long as its declared size, each pattern function returns its range
  and leaves a ring whose walk from index 0 visits every line of the range exactly once before it
  is back at 0: all 4096 words of the L1 range, and all 2048, 49152 and 1572864 cache lines of
  the L2, L3 and memory ranges. The comment on \<open>l1ml2h\<close>, that only half of the L2 cache
  is visited, does not describe the stride of five lines that the code uses.
\<close>

theorem patterns_visit_every_line:
  assumes "25165824 < sz" "unat sz \<le> arr_len a"
  shows "(\<exists>a'. l1h a sz = Returned (4096, a') \<and> arr_len a' = arr_len a \<and> full_lap 1 4096 a') \<and>
    (\<exists>a'. l1ml2h a sz = Returned (32768, a') \<and> arr_len a' = arr_len a \<and> full_lap 16 2048 a') \<and>
    (\<exists>a'. l2ml3h a sz = Returned (786432, a') \<and> arr_len a' = arr_len a \<and> full_lap 16 49152 a') \<and>
    (\<exists>a'. l3m a sz = Returned (25165824, a') \<and> arr_len a' = arr_len a \<and> full_lap 16 1572864 a')"
proof -
  have "25165824 < unat sz"
    using assms(1) by (simp add: word_less_nat_alt)
  then have len: "25165824 \<le> arr_len a" "786432 \<le> arr_len a" "32768 \<le> arr_len a" "4096 \<le> arr_len a"
    using assms(2) by linarith+
  have sz: "4096 < sz" "32768 < sz" "786432 < sz"
    using assms(1) by (auto elim!: order.strict_trans [rotated])
  show ?thesis
    using l1h_ring [OF sz(1) len(4)] l1ml2h_ring [OF sz(2) len(3)] l2ml3h_ring [OF sz(3) len(2)]
      l3m_ring [OF assms(1) len(1)] ring_L1.full_lap_ring ring_L2.full_lap_ring
      ring_L3.full_lap_ring ring_L4.full_lap_ring
    by (intro conjI) (metis (no_types) div_by_1, fastforce+)
qed

definition bench_array :: "u32 arr" where
  "bench_array = \<lparr>arr_len = 100663296, arr_get = (\<lambda>_. 0)\<rparr>"

theorem patterns_visit_every_line_witness:
  "\<exists>a'. l1ml2h bench_array 100663296 = Returned (32768, a') \<and> full_lap 16 2048 a'"
proof -
  have h: "25165824 < (100663296 :: u32)" "unat (100663296 :: u32) \<le> arr_len bench_array"
    by (simp_all add: bench_array_def)
  show ?thesis
    using patterns_visit_every_line [OF h] by blast
qed

text \<open>
  In the order the benchmarks use, on one array of \<open>L3CacheSize * 32\<close> words, every pattern
  function returns although the array still holds the earlier patterns, and the warm-up that
  follows it stays inside the array and ends on index 0, after a whole number of laps.
\<close>

theorem warm_ups_end_at_origin:
  assumes "arr_len a = unat (L3CacheSize * 32)"
  shows "\<exists>a1 a2 a3 a4.
    l1h a (L3CacheSize * 32) = Returned (4096, a1) \<and>
    warmUpL1 a1 (L3CacheSize * 32) = Returned (Inr 0) \<and>
    l1ml2h a1 (L3CacheSize * 32) = Returned (32768, a2) \<and>
    warmUpL2 a2 (L3CacheSize * 32) = Returned (Inr 0) \<and>
    l2ml3h a2 (L3CacheSize * 32) = Returned (786432, a3) \<and>
    warmUpL3 a3 (L3CacheSize * 32) = Returned (Inr 0) \<and>
    l3m a3 (L3CacheSize * 32) = Returned (25165824, a4) \<and>
    warmUpL4 a4 (L3CacheSize * 32) = Returned (Inr 0)"
proof -
  have sz: "L3CacheSize * 32 = 100663296"
    by (simp add: cache_sizes)
  with assms have len: "arr_len a = 100663296"
    by simp
  obtain a1 where a1: "l1h a 100663296 = Returned (4096, a1)" "arr_len a1 = arr_len a"
      "ring_array 1 1 4096 a1"
    by (rule l1h_ring [of 100663296 a]) (simp_all add: len)
  obtain a2 where a2: "l1ml2h a1 100663296 = Returned (32768, a2)" "arr_len a2 = arr_len a1"
      "ring_array 16 80 32768 a2"
    by (rule l1ml2h_ring [of 100663296 a1]) (simp_all add: len a1)
  obtain a3 where a3: "l2ml3h a2 100663296 = Returned (786432, a3)" "arr_len a3 = arr_len a2"
      "ring_array 16 80 786432 a3"
    by (rule l2ml3h_ring [of 100663296 a2]) (simp_all add: len a1 a2)
  obtain a4 where a4: "l3m a3 100663296 = Returned (25165824, a4)" "ring_array 16 80 25165824 a4"
    by (rule l3m_ring [of 100663296 a3]) (simp_all add: len a1 a2 a3)
  have "warmUpL1 a1 100663296 = Returned (Inr 0)" "warmUpL2 a2 100663296 = Returned (Inr 0)"
    "warmUpL3 a3 100663296 = Returned (Inr 0)" "warmUpL4 a4 100663296 = Returned (Inr 0)"
    using ring_L1.walk_laps [OF a1(3)] ring_L2.walk_laps [OF a2(3)] ring_L3.walk_laps [OF a3(3)]
      ring_L4.walk_laps [OF a4(2)]
    by (simp_all add: warm_up_walks warmUpL4_def)
  with a1 a2 a3 a4 show ?thesis
    unfolding sz by blast
qed

theorem warm_ups_end_at_origin_witness:
  "\<exists>a1 a2. l1h bench_array (L3CacheSize * 32) = Returned (4096, a1) \<and>
    l1ml2h a1 (L3CacheSize * 32) = Returned (32768, a2) \<and>
    warmUpL2 a2 (L3CacheSize * 32) = Returned (Inr 0)"
proof -
  have "arr_len bench_array = unat (L3CacheSize * 32)"
    by (simp add: bench_array_def cache_sizes)
  from warm_ups_end_at_origin [OF this] show ?thesis
    by blast
qed

text \<open>
  The pattern functions stop on their assertion exactly when the declared size does not exceed
  the range, even for a size equal to it.
\<close>

theorem pattern_assertions:
  assumes "25165824 \<le> arr_len a"
  shows "(l1h a sz = AssertFailed \<longleftrightarrow> sz \<le> 4096) \<and> (l1ml2h a sz = AssertFailed \<longleftrightarrow> sz \<le> 32768) \<and>
    (l2ml3h a sz = AssertFailed \<longleftrightarrow> sz \<le> 786432) \<and> (l3m a sz = AssertFailed \<longleftrightarrow> sz \<le> 25165824)"
proof -
  have "fill 1 1 4096 a \<noteq> AssertFailed"
    by (rule ring_L1.fill_ring [of a]) (use assms in simp_all)
  moreover have "fill 16 80 32768 a \<noteq> AssertFailed"
    by (rule ring_L2.fill_ring [of a]) (use assms in simp_all)
  moreover have "fill 16 80 786432 a \<noteq> AssertFailed"
    by (rule ring_L3.fill_ring [of a]) (use assms in simp_all)
  moreover have "fill 16 80 25165824 a \<noteq> AssertFailed"
    by (rule ring_L4.fill_ring [of a]) (use assms in simp_all)
  ultimately show ?thesis
    by (simp add: pattern_fills flip: not_less)
qed

theorem pattern_assertions_witness:
  "l3m bench_array 25165824 = AssertFailed \<and> l3m bench_array 25165825 \<noteq> AssertFailed"
proof -
  have "25165824 \<le> arr_len bench_array"
    by (simp add: bench_array_def)
  from pattern_assertions [OF this, of 25165824] pattern_assertions [OF this, of 25165825]
  show ?thesis by simp
qed

end
