(* ===== verification/Byte_Order.thy ===== *)
theory Byte_Order
  imports CS_Prelude
begin

text \<open>
  Words as runs of bytes in memory, for both byte orders: the loads of the hash functions and the
  connection data that the RDMA example sends over its socket.
\<close>

type_synonym bytes = "u8 list"

section \<open>Strings and buffers\<close>

definition chars :: "string \<Rightarrow> bytes" where
  "chars s = map (of_nat \<circ> of_char) s"

text \<open>The C string at the start of a block of memory; \<open>None\<close> when the block has no terminating zero.\<close>

definition c_string :: "bytes \<Rightarrow> bytes option" where
  "c_string mem = (if 0 \<in> set mem then Some (takeWhile (\<lambda>b. b \<noteq> 0) mem) else None)"

text \<open>Storing data at the start of a buffer.\<close>

definition blit :: "bytes \<Rightarrow> bytes \<Rightarrow> bytes" where
  "blit data buffer = take (length buffer) data @ drop (length data) buffer"

lemma length_blit [simp]: "length (blit data buffer) = length buffer"
  by (simp add: blit_def)

section \<open>Little-endian words\<close>

text \<open>The first byte of a little-endian memory operand is the least significant one.\<close>

fun le_word :: "bytes \<Rightarrow> 'l::len word" where
  "le_word [] = 0"
| "le_word (b # bs) = ucast b OR push_bit 8 (le_word bs)"


lemma bit_le_word:
  "bit (le_word bs :: 'l::len word) k \<longleftrightarrow>
     k < LENGTH('l) \<and> k div 8 < length bs \<and> bit (bs ! (k div 8)) (k mod 8)"
proof (induction bs arbitrary: k)
  case (Cons b bs)
  show ?case
  proof (cases "k < 8")
    case True
    then show ?thesis
      by (auto simp: bit_simps)
  next
    case False
    then have "k div 8 = Suc ((k - 8) div 8)" "k mod 8 = (k - 8) mod 8"
      by (auto simp: le_div_geq le_mod_geq)
    then show ?thesis
      using False Cons.IH [of "k - 8"] by (auto simp: bit_simps dest: bit_imp_le_length)
  qed
qed simp

lemma le_word_inj:
  assumes "length bs = length cs" "8 * length bs \<le> LENGTH('l)"
    and "(le_word bs :: 'l::len word) = le_word cs"
  shows "bs = cs"
proof (rule nth_equalityI)
  fix i assume i: "i < length bs"
  show "bs ! i = cs ! i"
  proof (rule bit_word_eqI)
    fix n assume "n < LENGTH(8)"
    then have n: "n < 8" by simp
    then have "8 * i + n < LENGTH('l)" "(8 * i + n) div 8 = i" "(8 * i + n) mod 8 = n"
      using i assms(2) by auto
    then show "bit (bs ! i) n = bit (cs ! i) n"
      using bit_le_word [of bs "8 * i + n", where 'l = 'l]
        bit_le_word [of cs "8 * i + n", where 'l = 'l] i assms(1,3) by auto
  qed
qed (rule assms(1))

lemma le_word_snoc:
  "le_word (bs @ [b]) = (le_word bs :: 'l::len word) XOR push_bit (8 * length bs) (ucast b)"
proof (rule bit_word_eqI)
  fix k assume "k < LENGTH('l)"
  moreover have "k div 8 = length bs \<longleftrightarrow> 8 * length bs \<le> k \<and> k - 8 * length bs < 8"
    by auto
  moreover have "k div 8 = length bs \<Longrightarrow> k mod 8 = k - 8 * length bs"
    by (metis minus_mult_div_eq_mod)
  ultimately show "bit (le_word (bs @ [b]) :: 'l word) k =
      bit ((le_word bs :: 'l word) XOR push_bit (8 * length bs) (ucast b)) k"
    by (auto simp: bit_le_word bit_simps nth_append less_Suc_eq dest: bit_imp_le_length)
qed


lemma le_word_single: "le_word [b] = (ucast b :: 'l::len word)"
  by simp

definition le_bytes :: "'l::len word \<Rightarrow> bytes" where
  "le_bytes x = map (\<lambda>i. ucast (drop_bit (8 * i) x)) [0..<LENGTH('l) div 8]"

lemma length_le_bytes [simp]: "length (le_bytes (x :: 'l::len word)) = LENGTH('l) div 8"
  by (simp add: le_bytes_def)

lemma le_word_le_bytes [wire_simps]:
  assumes "8 dvd LENGTH('l)"
  shows "le_word (le_bytes x) = (x :: 'l::len word)"
proof (rule bit_word_eqI)
  fix k assume k: "k < LENGTH('l)"
  then have "k div 8 < LENGTH('l) div 8"
    using assms by (auto simp: dvd_def)
  moreover have "8 * (k div 8) + k mod 8 = k"
    by simp
  ultimately show "bit (le_word (le_bytes x) :: 'l word) k = bit x k"
    using k by (simp add: bit_le_word le_bytes_def bit_simps)
qed

lemma le_bytes_le_word [wire_simps]:
  assumes "length bs = LENGTH('l) div 8"
  shows "le_bytes (le_word bs :: 'l::len word) = bs"
proof (rule le_word_inj [where 'l = 'l])
  show "8 * length (le_bytes (le_word bs :: 'l word)) \<le> LENGTH('l)"
    by simp
  show "(le_word (le_bytes (le_word bs :: 'l word)) :: 'l word) = le_word bs"
  proof (rule bit_word_eqI)
    fix k assume "k < LENGTH('l)"
    then show "bit (le_word (le_bytes (le_word bs :: 'l word)) :: 'l word) k = bit (le_word bs :: 'l word) k"
      using assms by (auto simp: bit_le_word le_bytes_def bit_simps)
  qed
qed (simp add: assms)

section \<open>Byte orders\<close>

datatype endian = LittleEndian | BigEndian

text \<open>A word stored to and loaded from memory by a host of the given byte order.\<close>

fun store :: "endian \<Rightarrow> 'l::len word \<Rightarrow> bytes" where
  "store LittleEndian x = le_bytes x"
| "store BigEndian x = rev (le_bytes x)"

fun load :: "endian \<Rightarrow> bytes \<Rightarrow> 'l::len word" where
  "load LittleEndian bs = le_word bs"
| "load BigEndian bs = le_word (rev bs)"

definition bswap :: "'l::len word \<Rightarrow> 'l word" where
  "bswap x = le_word (rev (le_bytes x))"

lemma length_store [simp]: "length (store e (x :: 'l::len word)) = LENGTH('l) div 8"
  by (cases e) simp_all

lemma load_store [wire_simps]:
  "8 dvd LENGTH('l) \<Longrightarrow> load e (store e x) = (x :: 'l::len word)"
  by (cases e) (simp_all add: wire_simps)

lemma le_bytes_bswap [wire_simps]: "le_bytes (bswap (x :: 'l::len word)) = rev (le_bytes x)"
  by (simp add: bswap_def wire_simps)

lemma bswap_bswap [wire_simps]: "8 dvd LENGTH('l) \<Longrightarrow> bswap (bswap x) = (x :: 'l::len word)"
  by (simp add: bswap_def [of "bswap x"] wire_simps)

text \<open>The C library's \<open>htonl\<close>, \<open>htons\<close> and their inverses: network order is big endian.\<close>

definition hton :: "endian \<Rightarrow> 'l::len word \<Rightarrow> 'l word" where
  "hton e x = (case e of LittleEndian \<Rightarrow> bswap x | BigEndian \<Rightarrow> x)"

definition ntoh :: "endian \<Rightarrow> 'l::len word \<Rightarrow> 'l word" where
  "ntoh e x = (case e of LittleEndian \<Rightarrow> bswap x | BigEndian \<Rightarrow> x)"

lemma store_hton [wire_simps]: "store e (hton e x) = rev (le_bytes x)"
  by (cases e) (simp_all add: hton_def wire_simps)

lemma ntoh_load_network [wire_simps]:
  "8 dvd LENGTH('l) \<Longrightarrow> ntoh e (load e (rev (le_bytes x))) = (x :: 'l::len word)"
  by (cases e) (simp_all add: ntoh_def wire_simps flip: bswap_def)

end
