(* ===== verification/Murmur_Hash.thy ===== *)
theory Murmur_Hash
  imports Byte_Order
begin

text \<open>
  The hash functions of src/murmur_hash.cpp and the function objects of src/murmur_hash.h. A key
  is a block of bytes; reading past it is out of bounds. The theory shows that the functions stay
  inside a key of the announced length, that the two Murmur hashes can be undone step by step, so
  that no two seeds and no two keys of one block collide, and that \<open>fnv_hash2\<close> loses a bit.
\<close>

section \<open>The functions\<close>

definition byte_at :: "bytes \<Rightarrow> nat \<Rightarrow> u8 option" where
  "byte_at key i = (if i < length key then Some (key ! i) else None)"

text \<open>\<open>x ^ (x >> r)\<close>, for an unsigned \<open>x\<close>.\<close>

definition xorshift :: "nat \<Rightarrow> 'l::len word \<Rightarrow> 'l word" where
  "xorshift r x = x XOR drop_bit r x"

definition m32 :: u32 where "m32 = 0x5bd1e995"
definition m64 :: u64 where "m64 = 0xc6a4a7935bd1e995"

text \<open>A little-endian load, written with shifts in the 32-bit function.\<close>

definition load32 :: "u8 \<Rightarrow> u8 \<Rightarrow> u8 \<Rightarrow> u8 \<Rightarrow> u32" where
  "load32 a b c d = ucast a OR push_bit 8 (ucast b) OR push_bit 16 (ucast c) OR push_bit 24 (ucast d)"

definition load64 :: "bytes \<Rightarrow> u64" where
  "load64 bs = le_word bs"

text \<open>One round of the block loops.\<close>

definition mix32 :: "u32 \<Rightarrow> u32 \<Rightarrow> u32" where
  "mix32 h k = (h * m32) XOR (xorshift 24 (k * m32) * m32)"

definition mix64 :: "u64 \<Rightarrow> u64 \<Rightarrow> u64" where
  "mix64 h k = (h XOR (xorshift 47 (k * m64) * m64)) * m64"

text \<open>
  The loop \<open>while (len >= 4)\<close>: the rest of the key, the remaining length and the hash. The
  length is a signed 32-bit integer and is not tied to the bytes that are there.
\<close>

function loop32 :: "bytes \<Rightarrow> int \<Rightarrow> u32 \<Rightarrow> (bytes \<times> int \<times> u32) option" where
  "loop32 data len h =
     (if len \<ge> 4 then
        (case data of
           a # b # c # d # rest \<Rightarrow> loop32 rest (len - 4) (mix32 h (load32 a b c d))
         | _ \<Rightarrow> None)
      else Some (data, len, h))"
  by pat_completeness auto
termination by (relation "measure (\<lambda>(data, len, h). nat len)") auto

declare loop32.simps [simp del]

text \<open>The \<open>switch\<close> on the last bytes, which falls through; \<open>data[i] << 8 * i\<close> is on \<open>int\<close>.\<close>

definition tail32 :: "bytes \<Rightarrow> int \<Rightarrow> u32 \<Rightarrow> u32 option" where
  "tail32 data len h =
     (let x = (\<lambda>i. map_option (\<lambda>b. push_bit (8 * i) (ucast b)) (byte_at data i))
      in if len = 3 then
           (case (x 2, x 1, x 0) of (Some p, Some q, Some r) \<Rightarrow> Some ((h XOR p XOR q XOR r) * m32)
            | _ \<Rightarrow> None)
         else if len = 2 then
           (case (x 1, x 0) of (Some q, Some r) \<Rightarrow> Some ((h XOR q XOR r) * m32) | _ \<Rightarrow> None)
         else if len = 1 then (case x 0 of Some r \<Rightarrow> Some ((h XOR r) * m32) | None \<Rightarrow> None)
         else Some h)"

definition final32 :: "u32 \<Rightarrow> u32" where
  "final32 h = xorshift 15 (xorshift 13 h * m32)"

definition murmurhash32 :: "bytes \<Rightarrow> int \<Rightarrow> u32 \<Rightarrow> u32 option" where
  "murmurhash32 key len seed =
     (case loop32 key len (seed XOR of_int len) of
        None \<Rightarrow> None
      | Some (data, rest, h) \<Rightarrow> map_option final32 (tail32 data rest h))"

text \<open>
  The 64-bit function: \<open>len / 8\<close> blocks, then the \<open>len & 7\<close> bytes that are left. For a
  negative length the pointer \<open>end\<close> lies before \<open>data\<close> and the loop runs off the key.
\<close>

primrec loop64 :: "nat \<Rightarrow> bytes \<Rightarrow> u64 \<Rightarrow> (bytes \<times> u64) option" where
  "loop64 0 data h = Some (data, h)"
| "loop64 (Suc n) data h =
     (if length data < 8 then None else loop64 n (drop 8 data) (mix64 h (load64 (take 8 data))))"

definition tail64 :: "nat \<Rightarrow> bytes \<Rightarrow> u64 \<Rightarrow> u64 option" where
  "tail64 n data h =
     (if n = 0 then Some h
      else if length data < n then None
      else Some (fold (\<lambda>i h. h XOR push_bit (8 * i) (ucast (data ! i))) (rev [0..<n]) h * m64))"

definition final64 :: "u64 \<Rightarrow> u64" where
  "final64 h = xorshift 47 (xorshift 47 h * m64)"

definition murmurhash64A :: "bytes \<Rightarrow> int \<Rightarrow> u64 \<Rightarrow> u64 option" where
  "murmurhash64A key len seed =
     (if len < 0 then None
      else case loop64 (nat len div 8) key (seed XOR (of_int len * m64)) of
        None \<Rightarrow> None
      | Some (data2, h) \<Rightarrow> map_option final64 (tail64 (nat len mod 8) data2 h))"

text \<open>
  \<open>fnv_hash2\<close> computes on signed 32-bit integers and signed characters: a byte is sign
  extended and \<open>>>\<close> is an arithmetic shift. The products and sums wrap.
\<close>

definition sar_xor :: "nat \<Rightarrow> u32 \<Rightarrow> u32" where
  "sar_xor r x = x XOR signed_drop_bit r x"

definition fnv_step :: "u32 \<Rightarrow> u8 \<Rightarrow> u32" where
  "fnv_step h b = (h XOR scast b) * 16777619"

definition shl_add :: "nat \<Rightarrow> u32 \<Rightarrow> u32" where
  "shl_add r x = x + push_bit r x"

definition fnv_final :: "u32 \<Rightarrow> u32 \<Rightarrow> u32" where
  "fnv_final h seed = shl_add 5 (sar_xor 17 (shl_add 3 (sar_xor 7 (shl_add 13 h)))) XOR seed"

definition fnv_hash2 :: "bytes \<Rightarrow> int \<Rightarrow> u32 \<Rightarrow> u32 option" where
  "fnv_hash2 key len seed =
     (if nat len \<le> length key
      then Some (fnv_final (foldl fnv_step 2166136261 (take (nat len) key)) seed)
      else None)"

section \<open>The function objects of murmur_hash.h\<close>

text \<open>A \<open>std::string\<close>, a pointer and length, and a C string up to its NUL byte.\<close>

definition to_int32 :: "nat \<Rightarrow> int" where
  "to_int32 n = sint (of_nat n :: u32)"

definition MurmurHash32_string :: "bytes \<Rightarrow> u32 option" where
  "MurmurHash32_string s = murmurhash32 (s @ [0]) (to_int32 (length s)) 0"

definition MurmurHash32_len :: "bytes \<Rightarrow> int \<Rightarrow> u32 option" where
  "MurmurHash32_len start len = murmurhash32 start len 0"

definition MurmurHash32_seed :: "bytes \<Rightarrow> int \<Rightarrow> u32 \<Rightarrow> u32 option" where
  "MurmurHash32_seed start len seed = murmurhash32 start len seed"

definition MurmurHash32_cstr :: "bytes \<Rightarrow> u32 option" where
  "MurmurHash32_cstr s =
     (case c_string s of None \<Rightarrow> None | Some t \<Rightarrow> murmurhash32 s (to_int32 (length t)) 0)"

definition MurmurHash64A_string :: "bytes \<Rightarrow> u64 option" where
  "MurmurHash64A_string s = murmurhash64A (s @ [0]) (to_int32 (length s)) 0"

definition MurmurHash64A_len :: "bytes \<Rightarrow> int \<Rightarrow> u64 option" where
  "MurmurHash64A_len start len = murmurhash64A start len 0"

definition MurmurHash64A_seed :: "bytes \<Rightarrow> int \<Rightarrow> u64 \<Rightarrow> u64 option" where
  "MurmurHash64A_seed start len seed = murmurhash64A start len seed"

definition MurmurHash64A_cstr :: "bytes \<Rightarrow> u64 option" where
  "MurmurHash64A_cstr s =
     (case c_string s of None \<Rightarrow> None | Some t \<Rightarrow> murmurhash64A s (to_int32 (length t)) 0)"

section \<open>Steps that can be undone\<close>

lemma drop_bit_fixpoint:
  fixes z :: "'l::len word"
  assumes "0 < r" and "z = drop_bit r z"
  shows "z = 0"
proof -
  have "z = drop_bit (k * r) z" for k
  proof (induction k)
    case (Suc k)
    then have "z = drop_bit (k * r) (drop_bit r z)"
      using assms(2) by simp
    then show ?case
      by (simp add: drop_bit_drop_bit add.commute)
  qed simp
  from this [of "LENGTH('l)"] have "z = drop_bit (LENGTH('l) * r) z" .
  also have "\<dots> = 0"
    using assms(1) by (intro drop_bit_word_beyond) simp
  finally show ?thesis .
qed

lemma xorshift_inj:
  assumes "0 < r"
  shows "inj (xorshift r :: 'l::len word \<Rightarrow> 'l word)"
proof (rule injI)
  fix x y :: "'l word"
  assume "xorshift r x = xorshift r y"
  then have "x XOR y = drop_bit r x XOR drop_bit r y"
    unfolding xorshift_def by (metis xor.assoc xor.left_commute xor.right_neutral xor_self_eq)
  then have "x XOR y = drop_bit r (x XOR y)"
    unfolding drop_bit_xor .
  with assms have "x XOR y = 0"
    by (rule drop_bit_fixpoint)
  then show "x = y"
    by (metis xor_right_cancel xor_self_eq)
qed

lemma mult_inj:
  fixes m :: "'l::len word"
  assumes "m * iv = 1"
  shows "inj (\<lambda>x. x * m)"
proof (rule injI)
  fix x y :: "'l word"
  assume "x * m = y * m"
  then have "x * (m * iv) = y * (m * iv)"
    by (simp add: mult.assoc [symmetric])
  with assms show "x = y"
    by simp
qed

lemma m32_inj: "inj (\<lambda>x. x * m32)"
  by (rule mult_inj [of m32 3852147133]) (simp add: m32_def)

lemma m64_inj: "inj (\<lambda>x. x * m64)"
  by (rule mult_inj [of m64 6879827495036328381]) (simp add: m64_def)

lemma xor_inj: "inj (\<lambda>x :: 'l::len word. x XOR y)" "inj (\<lambda>x :: 'l::len word. y XOR x)"
  by (auto intro: injI)

lemma mix32_inj: "inj (\<lambda>h. mix32 h k)" "inj (mix32 h)"
  unfolding mix32_def
  using inj_compose [OF xor_inj(1) m32_inj]
    inj_compose [OF xor_inj(2) inj_compose [OF m32_inj inj_compose [OF xorshift_inj m32_inj]]]
  by (simp_all add: o_def)

lemma mix64_inj: "inj (\<lambda>h. mix64 h k)" "inj (mix64 h)"
  unfolding mix64_def
  using inj_compose [OF m64_inj xor_inj(1)]
    inj_compose [OF m64_inj inj_compose [OF xor_inj(2)
      inj_compose [OF m64_inj inj_compose [OF xorshift_inj m64_inj]]]]
  by (simp_all add: o_def)

lemma final_inj: "inj final32" "inj final64"
  unfolding final32_def [abs_def] final64_def [abs_def]
  using inj_compose [OF xorshift_inj inj_compose [OF m32_inj xorshift_inj]]
    inj_compose [OF xorshift_inj inj_compose [OF m64_inj xorshift_inj]]
  by (simp_all add: o_def)

section \<open>The blocks are little-endian words\<close>

lemma load32_le_word: "load32 a b c d = le_word [a, b, c, d]"
  by (simp add: load32_def push_bit_or)

section \<open>The shape the two Murmur hashes share\<close>

text \<open>
  The reference: the key as a list of words of \<open>w\<close> bytes, mixed one after the other into the
  state, the rest of the key as one shorter word, then the final mix.
\<close>

definition murmur_ref ::
  "nat \<Rightarrow> ('l::len word \<Rightarrow> 'l word \<Rightarrow> 'l word) \<Rightarrow> ('l word \<Rightarrow> 'l word) \<Rightarrow> ('l word \<Rightarrow> 'l word) \<Rightarrow>
   'l word \<Rightarrow> bytes \<Rightarrow> 'l word" where
  "murmur_ref w mix mul fin h key =
     (let n = length key div w;
          h1 = foldl mix h (map (\<lambda>i. le_word (take w (drop (w * i) key))) [0..<n]);
          rest = drop (w * n) key
      in fin (if rest = [] then h1 else mul (h1 XOR le_word rest)))"

text \<open>Two keys that differ inside one aligned word only.\<close>

definition differ_in_word :: "nat \<Rightarrow> nat \<Rightarrow> bytes \<Rightarrow> bytes \<Rightarrow> bool" where
  "differ_in_word w i xs ys \<longleftrightarrow> length xs = length ys \<and>
     (\<forall>j < length xs. j div w \<noteq> i \<longrightarrow> xs ! j = ys ! j)"

lemma differ_in_wordI:
  assumes "length p = w * i" "length x = length y" "length x \<le> w"
  shows "differ_in_word w i (p @ x @ q) (p @ y @ q)"
proof -
  have "j < w * i \<or> w * i + length x \<le> j" if "j div w \<noteq> i" for j
  proof (rule ccontr)
    assume "\<not> ?thesis"
    then have "w * i \<le> j" "j < w * Suc i"
      using assms(3) by auto
    then have "j div w = i"
      by (rule div_nat_eqI)
    with that show False ..
  qed
  then show ?thesis
    using assms by (fastforce simp: differ_in_word_def nth_append)
qed

locale murmur_shape =
  fixes w :: nat and mix :: "'l::len word \<Rightarrow> 'l word \<Rightarrow> 'l word"
    and mul fin :: "'l word \<Rightarrow> 'l word"
  assumes w_pos: "0 < w" and w_len: "8 * w \<le> LENGTH('l)"
    and mix_state: "inj (\<lambda>h. mix h k)" and mix_block: "inj (mix h)"
    and mul_inj: "inj mul" and fin_inj: "inj fin"
begin

lemma mix_eq: "mix g k = mix h k \<longleftrightarrow> g = h" "mix h k = mix h l \<longleftrightarrow> k = l"
  using mix_state mix_block by (auto dest: injD)

lemma foldl_state: "foldl mix g ks = foldl mix h ks \<longleftrightarrow> g = h"
  by (induction ks arbitrary: g h) (simp_all add: mix_eq)

lemma foldl_block:
  assumes "i < length ks" "length ks = length ls" "\<And>j. j < length ks \<Longrightarrow> j \<noteq> i \<Longrightarrow> ks ! j = ls ! j"
  shows "foldl mix h ks = foldl mix h ls \<longleftrightarrow> ks ! i = ls ! i"
proof -
  have "drop (Suc i) ks = drop (Suc i) ls"
    using assms by (auto intro: nth_equalityI)
  moreover have "take i ks = take i ls"
    using assms by (auto intro: nth_equalityI)
  ultimately have "ks = take i ls @ ks ! i # drop (Suc i) ls" "ls = take i ls @ ls ! i # drop (Suc i) ls"
    using assms(1,2) id_take_nth_drop [of i ks] id_take_nth_drop [of i ls] by simp_all
  then have "foldl mix h ks = foldl mix (mix (foldl mix h (take i ls)) (ks ! i)) (drop (Suc i) ls)"
    "foldl mix h ls = foldl mix (mix (foldl mix h (take i ls)) (ls ! i)) (drop (Suc i) ls)"
    by (metis foldl_Cons foldl_append)+
  then show ?thesis
    by (simp add: foldl_state mix_eq)
qed

lemma ref_state: "murmur_ref w mix mul fin g key = murmur_ref w mix mul fin h key \<longleftrightarrow> g = h"
  using fin_inj mul_inj by (auto simp: murmur_ref_def Let_def inj_eq foldl_state)

lemma window:
  assumes "differ_in_word w i xs ys" "j \<noteq> i"
  shows "take w (drop (w * j) xs) = take w (drop (w * j) ys)"
proof (rule nth_equalityI)
  show "length (take w (drop (w * j) xs)) = length (take w (drop (w * j) ys))"
    using assms by (simp add: differ_in_word_def)
next
  fix k assume "k < length (take w (drop (w * j) xs))"
  moreover from this have "(w * j + k) div w = j"
    using w_pos by simp
  ultimately show "take w (drop (w * j) xs) ! k = take w (drop (w * j) ys) ! k"
    using assms by (auto simp: differ_in_word_def)
qed

lemma rest_window: "drop (w * (length xs div w)) xs = take w (drop (w * (length xs div w)) xs)"
  using w_pos by (simp add: minus_mult_div_eq_mod order.strict_implies_order)

lemma keys_eq:
  assumes "differ_in_word w i xs ys"
    and "take w (drop (w * i) xs) = take w (drop (w * i) ys)"
  shows "xs = ys"
proof (rule nth_equalityI)
  show "length xs = length ys"
    using assms by (simp add: differ_in_word_def)
next
  fix j assume j: "j < length xs"
  show "xs ! j = ys ! j"
  proof (cases "j div w = i")
    case True
    then have k: "w * i + j mod w = j" "j mod w < w"
      using w_pos by auto
    then have "take w (drop (w * i) xs) ! (j mod w) = xs ! j"
      "take w (drop (w * i) ys) ! (j mod w) = ys ! j"
      using j assms(1) by (simp_all add: differ_in_word_def)
    with assms(2) show ?thesis by simp
  next
    case False
    with assms(1) j show ?thesis by (simp add: differ_in_word_def)
  qed
qed

lemma ref_word:
  assumes d: "differ_in_word w i xs ys"
    and eq: "murmur_ref w mix mul fin h xs = murmur_ref w mix mul fin h ys"
  shows "xs = ys"
proof (rule keys_eq [OF d])
  let ?n = "length xs div w"
  let ?ks = "\<lambda>zs. map (\<lambda>j. le_word (take w (drop (w * j) zs)) :: 'l word) [0..<?n]"
  let ?r = "\<lambda>zs. drop (w * ?n) zs"
  have len: "length ys = length xs"
    using d by (simp add: differ_in_word_def)
  have empty: "?r xs = [] \<longleftrightarrow> ?r ys = []"
    by (simp add: len)
  have eq': "(if ?r xs = [] then foldl mix h (?ks xs) else mul (foldl mix h (?ks xs) XOR le_word (?r xs)))
      = (if ?r xs = [] then foldl mix h (?ks ys) else mul (foldl mix h (?ks ys) XOR le_word (?r ys)))"
    using eq fin_inj empty by (simp add: murmur_ref_def Let_def inj_eq len split del: if_split)
  show "take w (drop (w * i) xs) = take w (drop (w * i) ys)"
  proof (cases "i < ?n")
    case True
    have "?r xs = ?r ys"
      using window [OF d, of ?n] True rest_window [of xs] rest_window [of ys] len by simp
    then have "foldl mix h (?ks xs) = foldl mix h (?ks ys)"
      using eq' mul_inj by (auto simp: inj_eq split: if_splits)
    then have "(le_word (take w (drop (w * i) xs)) :: 'l word) = le_word (take w (drop (w * i) ys))"
      using True window [OF d] foldl_block [of i "?ks xs" "?ks ys" h] by simp
    then show ?thesis
      using w_len len by (intro le_word_inj [where 'l = 'l]) auto
  next
    case False
    then have "?ks xs = ?ks ys"
      using window [OF d] by auto
    then have f: "foldl mix h (?ks xs) = foldl mix h (?ks ys)"
      by (rule arg_cong)
    have "?r xs = [] \<or> (le_word (?r xs) :: 'l word) = le_word (?r ys)"
      using eq' mul_inj unfolding f by (auto simp: inj_eq split: if_splits)
    moreover have "8 * length (?r xs) \<le> LENGTH('l)"
      using w_len w_pos arg_cong [OF rest_window [of xs], of length]
      by (metis (no_types, lifting) length_take min.cobounded1 mult_le_mono2 order.trans min.commute)
    ultimately have r: "?r xs = ?r ys"
      using empty le_word_inj [of "?r xs" "?r ys", where 'l = 'l] len by auto
    show ?thesis
    proof (cases "i = ?n")
      case True
      with r show ?thesis by simp
    next
      case F: False
      then have "length xs \<le> w * i"
        using False w_pos by (metis div_less_iff_less_mult leI less_or_eq_imp_le linorder_neqE_nat mult.commute not_less)
      then show ?thesis
        by (simp add: len)
    qed
  qed
qed

end

interpretation murmur32: murmur_shape 4 mix32 "\<lambda>x. x * m32" final32
  by unfold_locales (simp_all add: mix32_inj m32_inj final_inj)

interpretation murmur64: murmur_shape 8 mix64 "\<lambda>x. x * m64" final64
  by unfold_locales (simp_all add: mix64_inj m64_inj final_inj)

section \<open>The functions compute the reference\<close>

lemma drop_4_plus: "drop (4 + k) (a # b # c # d # xs) = drop k xs"
  by (simp add: numeral_eq_Suc)

lemma loop32_blocks:
  assumes "n \<le> length data"
  shows "loop32 data (int n) h = Some (drop (4 * (n div 4)) data, int (n mod 4),
    foldl mix32 h (map (\<lambda>i. le_word (take 4 (drop (4 * i) data))) [0..<n div 4]))"
  using assms
proof (induction "n div 4" arbitrary: n data h)
  case 0
  then show ?case
    by (subst loop32.simps) auto
next
  case (Suc k)
  then have n: "4 \<le> n" "(n - 4) div 4 = k" "(n - 4) mod 4 = n mod 4"
    by (auto simp: le_div_geq le_mod_geq)
  obtain a b c d rest where data: "data = a # b # c # d # rest"
    using order.trans [OF n(1) Suc.prems] by (auto simp: numeral_eq_Suc Suc_le_length_iff)
  have "loop32 data (int n) h = loop32 rest (int (n - 4)) (mix32 h (le_word [a, b, c, d]))"
    using n(1) by (subst loop32.simps) (simp add: data load32_le_word of_nat_diff)
  also have "\<dots> = Some (drop (4 * k) rest, int (n mod 4), foldl mix32 (mix32 h (le_word [a, b, c, d]))
      (map (\<lambda>i. le_word (take 4 (drop (4 * i) rest))) [0..<k]))"
    using Suc.hyps(1) [of "n - 4" rest] n Suc.prems data by simp
  also have "[0..<n div 4] = 0 # map Suc [0..<k]"
    using Suc.hyps(2) by (metis map_Suc_upt upt_conv_Cons zero_less_Suc)
  then have "map (\<lambda>i. le_word (take 4 (drop (4 * i) data)) :: u32) [0..<n div 4] =
      le_word [a, b, c, d] # map (\<lambda>i. le_word (take 4 (drop (4 * i) rest))) [0..<k]"
    by (simp add: data o_def drop_4_plus)
  moreover have "drop (4 * (n div 4)) data = drop (4 * k) rest"
    unfolding Suc.hyps(2) [symmetric] data by (simp add: drop_4_plus)
  ultimately show ?case
    by simp
qed

lemma tail32_rest:
  assumes "n < 4" "n \<le> length data"
  shows "tail32 data (int n) h =
    Some (if n = 0 then h else (h XOR le_word (take n data)) * m32)"
proof -
  consider "n = 0" | "n = 1" | "n = 2" | "n = 3"
    using assms(1) by linarith
  then show ?thesis
  proof cases
    case 2
    with assms obtain a rest where "data = a # rest"
      by (cases data) auto
    with 2 show ?thesis
      by (simp add: tail32_def byte_at_def)
  next
    case 3
    with assms obtain a b rest where "data = [a] @ [b] @ rest"
      by (auto simp: numeral_eq_Suc Suc_le_length_iff)
    with 3 show ?thesis
      using le_word_snoc [of "[a]" b, where 'l = 32]
      by (simp add: tail32_def byte_at_def numeral_eq_Suc ac_simps le_word_single del: le_word.simps)
  next
    case 4
    with assms obtain a b c rest where "data = [a] @ [b] @ [c] @ rest"
      by (auto simp: numeral_eq_Suc Suc_le_length_iff)
    with 4 show ?thesis
      using le_word_snoc [of "[a]" b, where 'l = 32] le_word_snoc [of "[a, b]" c, where 'l = 32]
      by (simp add: tail32_def byte_at_def numeral_eq_Suc ac_simps le_word_single del: le_word.simps)
  qed (simp add: tail32_def)
qed

lemma murmur_ref_take:
  assumes "0 < w" "n \<le> length key"
  shows "murmur_ref w mix mul fin h (take n key) =
    (let h1 = foldl mix h (map (\<lambda>i. le_word (take w (drop (w * i) key))) [0..<n div w])
     in fin (if n mod w = 0 then h1
        else mul (h1 XOR le_word (take (n mod w) (drop (w * (n div w)) key)))))"
proof -
  have "take w (drop (w * i) (take n key)) = take w (drop (w * i) key)" if "i < n div w" for i
  proof -
    have "w * Suc i \<le> w * (n div w)"
      using that by (intro mult_le_mono2) simp
    also have "\<dots> \<le> n"
      by simp
    finally show ?thesis
      by (simp add: take_drop min_def add.commute)
  qed
  then have bl: "map (\<lambda>i. le_word (take w (drop (w * i) (take n key))) :: 'a word) [0..<n div w] =
      map (\<lambda>i. le_word (take w (drop (w * i) key))) [0..<n div w]"
    by simp
  have rest: "drop (w * (n div w)) (take n key) = take (n mod w) (drop (w * (n div w)) key)"
    by (simp add: drop_take minus_mult_div_eq_mod)
  have nil: "drop (w * (n div w)) (take n key) = [] \<longleftrightarrow> n mod w = 0"
    using assms(2) by (simp add: min_absorb2) (metis diff_is_0_eq minus_mult_div_eq_mod)
  have len: "length (take n key) = n"
    using assms(2) by simp
  show ?thesis
    unfolding murmur_ref_def Let_def len bl nil unfolding rest ..
qed

lemma rest_length:
  "n \<le> length key \<Longrightarrow> n mod w \<le> length (drop (w * (n div w)) key)"
  by (metis diff_le_mono length_drop minus_mult_div_eq_mod)

lemma murmurhash32_ref:
  assumes "n \<le> length key"
  shows "murmurhash32 key (int n) seed =
    Some (murmur_ref 4 mix32 (\<lambda>x. x * m32) final32 (seed XOR of_nat n) (take n key))"
  unfolding murmurhash32_def loop32_blocks [OF assms] murmur_ref_take [OF _ assms, of 4, simplified]
  by (simp add: tail32_rest [OF _ rest_length [OF assms]] Let_def)

lemma loop64_blocks:
  assumes "8 * n \<le> length data"
  shows "loop64 n data h = Some (drop (8 * n) data,
    foldl mix64 h (map (\<lambda>i. le_word (take 8 (drop (8 * i) data))) [0..<n]))"
  using assms
proof (induction n arbitrary: data h)
  case (Suc n)
  have "[0..<Suc n] = 0 # map Suc [0..<n]"
    by (metis map_Suc_upt upt_conv_Cons zero_less_Suc)
  with Suc show ?case
    by (simp add: load64_def o_def add.commute)
qed simp

lemma tail64_fold:
  "n \<le> length data \<Longrightarrow>
   fold (\<lambda>i h. h XOR push_bit (8 * i) (ucast (data ! i))) (rev [0..<n]) (h :: u64) =
   h XOR le_word (take n data)"
proof (induction n arbitrary: h)
  case (Suc n)
  then show ?case
    by (simp add: take_Suc_conv_app_nth le_word_snoc ac_simps)
qed simp

lemma tail64_rest:
  "n \<le> length data \<Longrightarrow>
   tail64 n data h = Some (if n = 0 then h else (h XOR le_word (take n data)) * m64)"
  by (simp add: tail64_def tail64_fold)

lemma murmurhash64A_ref:
  assumes "n \<le> length key"
  shows "murmurhash64A key (int n) seed =
    Some (murmur_ref 8 mix64 (\<lambda>x. x * m64) final64 (seed XOR (of_nat n * m64)) (take n key))"
proof -
  have le: "8 * (n div 8) \<le> length key"
    using assms by (auto intro: order.trans [rotated])
  show ?thesis
    unfolding murmur_ref_take [OF _ assms, of 8, simplified]
    by (simp add: murmurhash64A_def loop64_blocks [OF le] tail64_rest [OF rest_length [OF assms]]
        Let_def)
qed

section \<open>Properties\<close>



text \<open>
  C14: two keys of the same length that differ inside one aligned word (four bytes for the 32-bit
  hash, eight for the 64-bit one; the bytes after the last full word count as one) never collide,
  for any seed.
\<close>

theorem murmurhash_no_collision_in_one_word:
  assumes "differ_in_word 4 i xs ys" "differ_in_word 8 j xs' ys'"
  shows "(murmurhash32 xs (int (length xs)) seed32 = murmurhash32 ys (int (length ys)) seed32
      \<longrightarrow> xs = ys) \<and>
    (murmurhash64A xs' (int (length xs')) seed64 = murmurhash64A ys' (int (length ys')) seed64
      \<longrightarrow> xs' = ys')"
proof -
  have "length xs = length ys" "length xs' = length ys'"
    using assms by (auto simp: differ_in_word_def)
  then show ?thesis
    using murmur32.ref_word [OF assms(1)] murmur64.ref_word [OF assms(2)]
    by (auto simp: murmurhash32_ref murmurhash64A_ref)
qed

theorem murmurhash_no_collision_in_one_word_witness:
  "murmurhash32 [1, 2, 3, 4, 5] 5 0 \<noteq> murmurhash32 [1, 2, 3, 4, 6] 5 0"
proof -
  have d: "differ_in_word 4 1 [1, 2, 3, 4, 5] [1, 2, 3, 4, 6]" "differ_in_word 8 0 [] []"
    using differ_in_wordI [of "[1, 2, 3, 4]" 4 1 "[5]" "[6]" "[]"]
      differ_in_wordI [of "[]" 8 0 "[]" "[]" "[]"] by simp_all
  have "[1, 2, 3, 4, 5] \<noteq> [1, 2, 3, 4, 6 :: u8]"
    by simp
  moreover have "int (length [1, 2, 3, 4, 5 :: u8]) = 5" "int (length [1, 2, 3, 4, 6 :: u8]) = 5"
    by simp_all
  ultimately show ?thesis
    using murmurhash_no_collision_in_one_word [OF d, of 0 0] by metis
qed

text \<open>For a fixed key, different seeds give different hashes.\<close>

theorem murmurhash_seed_injective:
  assumes "n \<le> length key"
  shows "(murmurhash32 key (int n) s = murmurhash32 key (int n) s' \<longleftrightarrow> s = s') \<and>
    (murmurhash64A key (int n) t = murmurhash64A key (int n) t' \<longleftrightarrow> t = t')"
  using assms by (simp add: murmurhash32_ref murmurhash64A_ref murmur32.ref_state murmur64.ref_state)

theorem murmurhash_seed_injective_witness:
  "murmurhash32 [9] (int 1) 3 \<noteq> murmurhash32 [9] (int 1) 4"
proof -
  have "1 \<le> length [9 :: u8]" by simp
  from murmurhash_seed_injective [OF this, of 3 4] show ?thesis by simp
qed

lemma shl_add_13: "shl_add 13 x = x * 8193"
  by (simp add: shl_add_def push_bit_eq_mult algebra_simps)

lemma sar_xor_not: "sar_xor r (NOT x) = sar_xor r x"
proof (rule bit_word_eqI)
  fix n assume "n < LENGTH(32)"
  then show "bit (sar_xor r (NOT x)) n = bit (sar_xor r x) n"
    by (auto simp: sar_xor_def bit_simps min_def)
qed

text \<open>
  C37: \<open>fnv_hash2\<close> folds its states two to one: because \<open>>>\<close> is arithmetic on its signed
  state, every state before the final mix has a different partner that gives the same hash for
  every seed.
\<close>

theorem fnv_hash2_two_to_one: "\<exists>h'. h' \<noteq> h \<and> (\<forall>seed. fnv_final h' seed = fnv_final h seed)"
proof -
  have "(67100673 :: u32) * 8193 = 1"
    by simp
  then have inv: "(x :: u32) * 67100673 * 8193 = x" for x
    by (simp only: mult.assoc mult_1_right)
  let ?h = "NOT (h * 8193) * 67100673"
  have "shl_add 13 ?h = NOT (shl_add 13 h)"
    by (simp add: shl_add_13 inv)
  then have "fnv_final ?h seed = fnv_final h seed" for seed
    by (simp add: fnv_final_def sar_xor_not)
  moreover have "?h \<noteq> h"
  proof
    assume "?h = h"
    then have "NOT (h * 8193) = h * 8193"
      by (metis inv)
    then have "bit (NOT (h * 8193)) 0 = bit (h * 8193) 0"
      by simp
    then show False
      by (simp add: bit_simps)
  qed
  ultimately show ?thesis
    by blast
qed

end
