(* ===== verification/Rc_Env.thy ===== *)
theory Rc_Env
  imports Byte_Order "HOL-Library.Multiset"
begin

text \<open>
  What src/rdma/rc_example.c works on: its configuration, the connection data and the resources
  it holds, and the calls it makes. The operating system, the C library's allocator and
  libibverbs are outside the repository: they are the records \<open>os\<close> and \<open>verbs\<close> of functions on a
  world of any type, parameters of every definition that calls them. Each call is recorded in the trace
  of the process, which is what the theorems about resources and call order speak of.
\<close>

section \<open>Data of rc_example.c\<close>

record config_t =
  dev_name :: "string option"
  server_name :: "string option"
  tcp_port :: u32
  ib_port :: int
  gid_idx :: int

definition config_init :: config_t where
  "config_init = \<lparr>dev_name = None, server_name = None, tcp_port = 19875, ib_port = 1, gid_idx = - 1\<rparr>"

record cm_con_data_t =
  addr :: u64
  rkey :: u32
  qp_num :: u32
  lid :: u16
  gid :: bytes

definition zero_con_data :: cm_con_data_t where
  "zero_con_data = \<lparr>addr = 0, rkey = 0, qp_num = 0, lid = 0, gid = replicate 16 0\<rparr>"

text \<open>
  \<open>struct resources\<close>: pointers are addresses, \<open>NULL\<close> is 0. The fields of the objects behind
  \<open>mr\<close> and \<open>qp\<close> that the program reads are kept beside the pointers.
\<close>

record resources =
  port_lid :: u16
  remote_props :: cm_con_data_t
  ib_ctx :: u64
  pd :: u64
  cq :: u64
  qp :: u64
  my_qp_num :: u32
  mr :: u64
  mr_lkey :: u32
  mr_rkey :: u32
  buf :: u64
  sock :: int

definition MSG_SIZE :: nat where "MSG_SIZE = 64"
definition MAX_POLL_CQ_TIMEOUT :: u64 where "MAX_POLL_CQ_TIMEOUT = 2000"

definition MSG :: bytes where "MSG = chars ''SEND operation'' @ [9]"
definition RDMAMSGR :: bytes where "RDMAMSGR = chars ''RDMA read operation''"
definition RDMAMSGW :: bytes where "RDMAMSGW = chars ''RDMA write opertion''"

section \<open>Requests to libibverbs\<close>

datatype ibv_qp_state = QPS_RESET | QPS_INIT | QPS_RTR | QPS_RTS
datatype ibv_access = ACCESS_LOCAL_WRITE | ACCESS_REMOTE_READ | ACCESS_REMOTE_WRITE
datatype ibv_opcode = WR_SEND | WR_RDMA_READ | WR_RDMA_WRITE
datatype ibv_qp_mask =
    QP_STATE | QP_PKEY_INDEX | QP_PORT | QP_ACCESS_FLAGS
  | QP_AV | QP_PATH_MTU | QP_DEST_QPN | QP_RQ_PSN | QP_MAX_DEST_RD_ATOMIC | QP_MIN_RNR_TIMER
  | QP_TIMEOUT | QP_RETRY_CNT | QP_RNR_RETRY | QP_SQ_PSN | QP_MAX_QP_RD_ATOMIC

record ibv_global_route =
  dgid :: bytes
  flow_label :: nat
  hop_limit :: nat
  sgid_index :: u8
  traffic_class :: nat

record ibv_ah_attr =
  grh :: ibv_global_route
  is_global :: bool
  dlid :: u16
  sl :: nat
  src_path_bits :: nat
  ah_port_num :: u8

record ibv_qp_attr =
  qp_state :: ibv_qp_state
  port_num :: u8
  pkey_index :: nat
  qp_access_flags :: "ibv_access set"
  path_mtu :: nat
  dest_qp_num :: u32
  rq_psn :: nat
  max_dest_rd_atomic :: nat
  min_rnr_timer :: nat
  ah_attr :: ibv_ah_attr
  timeout :: nat
  retry_cnt :: nat
  rnr_retry :: nat
  sq_psn :: nat
  max_rd_atomic :: nat

text \<open>\<open>memset(&attr, 0, sizeof(attr))\<close>.\<close>

definition zero_grh :: ibv_global_route where
  "zero_grh = \<lparr>dgid = replicate 16 0, flow_label = 0, hop_limit = 0, sgid_index = 0, traffic_class = 0\<rparr>"

definition zero_ah_attr :: ibv_ah_attr where
  "zero_ah_attr = \<lparr>grh = zero_grh, is_global = False, dlid = 0, sl = 0, src_path_bits = 0, ah_port_num = 0\<rparr>"

definition zero_attr :: ibv_qp_attr where
  "zero_attr = \<lparr>qp_state = QPS_RESET, port_num = 0, pkey_index = 0, qp_access_flags = {},
     path_mtu = 0, dest_qp_num = 0, rq_psn = 0, max_dest_rd_atomic = 0, min_rnr_timer = 0,
     ah_attr = zero_ah_attr, timeout = 0, retry_cnt = 0, rnr_retry = 0, sq_psn = 0,
     max_rd_atomic = 0\<rparr>"

record ibv_send_wr =
  sr_addr :: u64
  sr_length :: nat
  sr_lkey :: u32
  sr_opcode :: ibv_opcode
  sr_signaled :: bool
  sr_remote_addr :: u64
  sr_rkey :: u32

record ibv_recv_wr =
  rr_addr :: u64
  rr_length :: nat
  rr_lkey :: u32

record ibv_qp_init_attr =
  sq_sig_all :: bool
  send_cq :: u64
  recv_cq :: u64
  max_send_wr :: nat
  max_recv_wr :: nat
  max_send_sge :: nat
  max_recv_sge :: nat

section \<open>The outside world\<close>

text \<open>
  One field per external function, with the results the program looks at. \<open>read\<close> delivers the
  bytes it stores next to its return value. The message buffer is memory the network card writes
  too, so its contents belong to the world. \<open>ibv_get_device_list\<close> returns the list with the names
  of its devices.
\<close>

record 'w os =
  e_socket :: "'w \<Rightarrow> int \<times> 'w"
  e_connect :: "int \<Rightarrow> string \<Rightarrow> u16 \<Rightarrow> 'w \<Rightarrow> int \<times> 'w"
  e_bind :: "int \<Rightarrow> u16 \<Rightarrow> 'w \<Rightarrow> int \<times> 'w"
  e_listen :: "int \<Rightarrow> int \<Rightarrow> 'w \<Rightarrow> int \<times> 'w"
  e_accept :: "int \<Rightarrow> 'w \<Rightarrow> int \<times> 'w"
  e_close :: "int \<Rightarrow> 'w \<Rightarrow> int \<times> 'w"
  e_write :: "int \<Rightarrow> bytes \<Rightarrow> 'w \<Rightarrow> int \<times> 'w"
  e_read :: "int \<Rightarrow> nat \<Rightarrow> 'w \<Rightarrow> (int \<times> bytes) \<times> 'w"
  e_gettimeofday :: "'w \<Rightarrow> (int \<times> int) \<times> 'w"
  e_malloc :: "nat \<Rightarrow> 'w \<Rightarrow> u64 \<times> 'w"
  e_free :: "u64 \<Rightarrow> 'w \<Rightarrow> unit \<times> 'w"
  e_store :: "u64 \<Rightarrow> bytes \<Rightarrow> 'w \<Rightarrow> unit \<times> 'w"
  e_load :: "u64 \<Rightarrow> nat \<Rightarrow> 'w \<Rightarrow> bytes \<times> 'w"

record 'w verbs =
  v_get_device_list :: "'w \<Rightarrow> (u64 \<times> string list) \<times> 'w"
  v_free_device_list :: "u64 \<Rightarrow> 'w \<Rightarrow> unit \<times> 'w"
  v_open_device :: "u64 \<Rightarrow> nat \<Rightarrow> 'w \<Rightarrow> u64 \<times> 'w"
  v_close_device :: "u64 \<Rightarrow> 'w \<Rightarrow> int \<times> 'w"
  v_query_port :: "u64 \<Rightarrow> u8 \<Rightarrow> 'w \<Rightarrow> (int \<times> u16) \<times> 'w"
  v_query_gid :: "u64 \<Rightarrow> u8 \<Rightarrow> int \<Rightarrow> 'w \<Rightarrow> (int \<times> bytes) \<times> 'w"
  v_alloc_pd :: "u64 \<Rightarrow> 'w \<Rightarrow> u64 \<times> 'w"
  v_dealloc_pd :: "u64 \<Rightarrow> 'w \<Rightarrow> int \<times> 'w"
  v_create_cq :: "u64 \<Rightarrow> int \<Rightarrow> 'w \<Rightarrow> u64 \<times> 'w"
  v_destroy_cq :: "u64 \<Rightarrow> 'w \<Rightarrow> int \<times> 'w"
  v_reg_mr :: "u64 \<Rightarrow> u64 \<Rightarrow> nat \<Rightarrow> ibv_access set \<Rightarrow> 'w \<Rightarrow> (u64 \<times> u32 \<times> u32) \<times> 'w"
  v_dereg_mr :: "u64 \<Rightarrow> 'w \<Rightarrow> int \<times> 'w"
  v_create_qp :: "u64 \<Rightarrow> ibv_qp_init_attr \<Rightarrow> 'w \<Rightarrow> (u64 \<times> u32) \<times> 'w"
  v_destroy_qp :: "u64 \<Rightarrow> 'w \<Rightarrow> int \<times> 'w"
  v_modify_qp :: "u64 \<Rightarrow> ibv_qp_attr \<Rightarrow> ibv_qp_mask set \<Rightarrow> 'w \<Rightarrow> int \<times> 'w"
  v_post_send :: "u64 \<Rightarrow> ibv_send_wr \<Rightarrow> 'w \<Rightarrow> int \<times> 'w"
  v_post_recv :: "u64 \<Rightarrow> ibv_recv_wr \<Rightarrow> 'w \<Rightarrow> int \<times> 'w"
  v_poll_cq :: "u64 \<Rightarrow> 'w \<Rightarrow> (int \<times> nat) \<times> 'w"

section \<open>The process and its trace\<close>

datatype resource =
    Fd int | DevList u64 | Ctx u64 | Pd u64 | Cq u64 | Buf u64 | Mr u64 | Qp u64

datatype event =
    Acquire resource
  | Release resource
  | ModifyQp ibv_qp_attr "ibv_qp_mask set" int
  | PostSend ibv_send_wr int
  | PostRecv ibv_recv_wr int
  | PollCq int nat
  | SockWrite bytes int
  | SockRead int
  | BufStore bytes
  | Show bytes

record 'w host =
  world :: 'w
  trace :: "event list"

text \<open>A call: run the external function on the world and record it.\<close>

definition ext :: "('w \<Rightarrow> 'r \<times> 'w) \<Rightarrow> ('r \<Rightarrow> event list) \<Rightarrow> 'w host \<Rightarrow> 'r \<times> 'w host" where
  "ext f ev h = (let (r, w) = f (world h) in (r, h\<lparr>world := w, trace := trace h @ ev r\<rparr>))"

definition acquire_fd :: "int \<Rightarrow> event list" where
  "acquire_fd fd = (if fd \<ge> 0 then [Acquire (Fd fd)] else [])"

definition acquire_ptr :: "(u64 \<Rightarrow> resource) \<Rightarrow> u64 \<Rightarrow> event list" where
  "acquire_ptr k p = (if p \<noteq> 0 then [Acquire (k p)] else [])"

text \<open>\<open>close\<close> of a negative descriptor does nothing.\<close>

definition sys_close :: "'w os \<Rightarrow> int \<Rightarrow> 'w host \<Rightarrow> int \<times> 'w host" where
  "sys_close OS fd = ext (e_close OS fd) (\<lambda>_. if fd \<ge> 0 then [Release (Fd fd)] else [])"

section \<open>Accounting\<close>

fun acquired :: "event list \<Rightarrow> resource multiset" where
  "acquired [] = {#}"
| "acquired (Acquire r # es) = add_mset r (acquired es)"
| "acquired (_ # es) = acquired es"

fun released :: "event list \<Rightarrow> resource multiset" where
  "released [] = {#}"
| "released (Release r # es) = add_mset r (released es)"
| "released (_ # es) = released es"

lemma acquired_append [simp]: "acquired (xs @ ys) = acquired xs + acquired ys"
  by (induction xs rule: acquired.induct) auto

lemma released_append [simp]: "released (xs @ ys) = released xs + released ys"
  by (induction xs rule: released.induct) auto

text \<open>A call that neither acquires nor releases.\<close>

definition neutral :: "event list \<Rightarrow> bool" where
  "neutral es \<longleftrightarrow> acquired es = {#} \<and> released es = {#}"

lemma ext_eq [call_simps]:
  "ext f ev h = (fst (f (world h)), h\<lparr>world := snd (f (world h)), trace := trace h @ ev (fst (f (world h)))\<rparr>)"
  by (simp add: ext_def split_def Let_def)

lemma acquired_fd [simp]: "acquired (acquire_fd fd) = (if fd \<ge> 0 then {#Fd fd#} else {#})"
  and released_acquire_fd [simp]: "released (acquire_fd fd) = {#}"
  by (simp_all add: acquire_fd_def)

lemma acquired_ptr [simp]: "acquired (acquire_ptr k p) = (if p \<noteq> 0 then {#k p#} else {#})"
  and released_acquire_ptr [simp]: "released (acquire_ptr k p) = {#}"
  by (simp_all add: acquire_ptr_def)

end
