(* ===== verification/Rc_Sock.thy ===== *)
theory Rc_Sock
  imports Rc_Env
begin

text \<open>
  The socket functions of rc_example.c: \<open>sock_connect\<close>, and \<open>sock_sync_data\<close>, with which the two
  sides exchange their connection data and meet before and after the RDMA operations.
\<close>

section \<open>Byte order of addresses\<close>

text \<open>
  The test \<open>#if _BYTE_ORDER == __LITLE_ENDIAN\<close> compares two names that are not defined, so it
  holds on every host and \<open>htonll\<close> is \<open>bswap_64\<close> everywhere.
\<close>

definition htonll :: "u64 \<Rightarrow> u64" where "htonll x = bswap x"
definition ntohll :: "u64 \<Rightarrow> u64" where "ntohll x = bswap x"

section \<open>The layout of cm_con_data_t\<close>

text \<open>
  On x86-64 the struct has 40 bytes: the fields at offsets 0, 8, 12, 16 and 18, and six bytes of
  padding that are sent as they are.
\<close>

definition sizeof_con_data :: nat where "sizeof_con_data = 40"

definition put_con_data :: "endian \<Rightarrow> bytes \<Rightarrow> cm_con_data_t \<Rightarrow> bytes" where
  "put_con_data e pad d =
     store e (addr d) @ store e (rkey d) @ store e (qp_num d) @ store e (lid d) @ gid d @ pad"

definition get_con_data :: "endian \<Rightarrow> bytes \<Rightarrow> cm_con_data_t" where
  "get_con_data e bs =
     \<lparr>addr = load e (take 8 bs), rkey = load e (take 4 (drop 8 bs)),
      qp_num = load e (take 4 (drop 12 bs)), lid = load e (take 2 (drop 16 bs)),
      gid = take 16 (drop 18 bs)\<rparr>"

text \<open>The conversions before sending and after receiving in \<open>connect_qp\<close>.\<close>

definition con_data_hton :: "endian \<Rightarrow> cm_con_data_t \<Rightarrow> cm_con_data_t" where
  "con_data_hton e d = d\<lparr>addr := htonll (addr d), rkey := hton e (rkey d),
     qp_num := hton e (qp_num d), lid := hton e (lid d)\<rparr>"

definition con_data_ntoh :: "endian \<Rightarrow> cm_con_data_t \<Rightarrow> cm_con_data_t" where
  "con_data_ntoh e d = d\<lparr>addr := ntohll (addr d), rkey := ntoh e (rkey d),
     qp_num := ntoh e (qp_num d), lid := ntoh e (lid d)\<rparr>"

section \<open>sock_connect\<close>

text \<open>
  Client mode with a server name, else server mode; \<open>close(listenfd)\<close> at the end also runs in
  client mode, where \<open>listenfd\<close> is still 0.
\<close>

definition sock_connect :: "'w os \<Rightarrow> string option \<Rightarrow> u32 \<Rightarrow> 'w host \<Rightarrow> (int \<times> 'w host) outcome" where
  "sock_connect OS servername port h =
     (case servername of
        Some name \<Rightarrow>
          (let listenfd = 0;
               (sockfd, h) = ext (e_socket OS) acquire_fd h;
               (tmp, h) = ext (e_connect OS sockfd name (ucast port)) (\<lambda>_. []) h;
               (sockfd, h) = (if tmp < 0 then (let (_, h) = sys_close OS sockfd h in (- 1, h))
                              else (sockfd, h));
               (_, h) = sys_close OS listenfd h
           in Returned (sockfd, h))
      | None \<Rightarrow>
          (let (listenfd, h) = ext (e_socket OS) acquire_fd h
           in if \<not> listenfd > 0 then AssertFailed
              else (let (_, h) = ext (e_bind OS listenfd (ucast port)) (\<lambda>_. []) h;
                        (_, h) = ext (e_listen OS listenfd 1) (\<lambda>_. []) h;
                        (sockfd, h) = ext (e_accept OS listenfd) acquire_fd h;
                        (_, h) = sys_close OS listenfd h
                    in Returned (sockfd, h))))"

section \<open>sock_sync_data\<close>

text \<open>\<open>read\<close> stores at the start of the buffer, and at most the requested number of bytes.\<close>

definition sys_read :: "'w os \<Rightarrow> int \<Rightarrow> nat \<Rightarrow> 'w host \<Rightarrow> (int \<times> bytes) \<times> 'w host" where
  "sys_read OS fd n = ext (e_read OS fd n) (\<lambda>(r, _). [SockRead r])"

text \<open>The loop \<open>while (!rc && total_read_bytes < xfer_size)\<close>.\<close>

partial_function (option) sync_loop ::
  "'w os \<Rightarrow> int \<Rightarrow> int \<Rightarrow> int \<Rightarrow> int \<Rightarrow> bytes \<Rightarrow> 'w host \<Rightarrow> (int \<times> bytes \<times> 'w host) option" where
  "sync_loop OS sk xfer rc got remote h =
     (if rc = 0 \<and> got < xfer then
        (let ((r, data), h) = sys_read OS sk (nat xfer) h
         in if r > 0 then sync_loop OS sk xfer rc (got + r) (blit data remote) h
            else sync_loop OS sk xfer r got remote h)
      else Some (rc, remote, h))"

definition sock_sync_data ::
  "'w os \<Rightarrow> int \<Rightarrow> bytes \<Rightarrow> bytes \<Rightarrow> 'w host \<Rightarrow> (int \<times> bytes \<times> 'w host) outcome" where
  "sock_sync_data OS sk local_data remote_data h =
     (let xfer = int (length local_data);
          (rc, h) = ext (e_write OS sk local_data) (\<lambda>r. [SockWrite local_data r]) h
      in if rc \<noteq> xfer then AssertFailed
         else of_loop (map_option Returned (sync_loop OS sk xfer 0 0 remote_data h)))"

section \<open>Facts about the exchange\<close>

lemma sync_loop_stop: "\<not> (rc = 0 \<and> got < xfer) \<Longrightarrow> sync_loop OS sk xfer rc got remote h = Some (rc, remote, h)"
  by (subst sync_loop.simps) auto

lemma sync_loop_step:
  assumes "sys_read OS sk (nat xfer) h = ((r, data), h')" "got < xfer"
  shows "sync_loop OS sk xfer 0 got remote h =
    (if r > 0 then sync_loop OS sk xfer 0 (got + r) (blit data remote) h'
     else sync_loop OS sk xfer r got remote h')"
  using assms by (subst sync_loop.simps) simp

lemma sys_read_trace: "trace (snd (sys_read OS sk n h)) = trace h @ [SockRead (fst (fst (sys_read OS sk n h)))]"
  by (simp add: sys_read_def call_simps split_def)

text \<open>The loop only reads: it keeps the size of the buffer, and the trace grows by reads.\<close>

definition sync_keeps :: "bytes \<Rightarrow> 'w host \<Rightarrow> int \<times> bytes \<times> 'w host \<Rightarrow> bool" where
  "sync_keeps remote h res \<longleftrightarrow> length (fst (snd res)) = length remote \<and>
     (\<exists>rs. trace (snd (snd res)) = trace h @ map SockRead rs)"

lemma sync_keeps_step:
  assumes "sync_keeps remote' (snd (sys_read OS sk n h)) res" "length remote' = length remote"
  shows "sync_keeps remote h res"
proof -
  obtain rs where "trace (snd (snd res)) = trace h @ map SockRead (fst (fst (sys_read OS sk n h)) # rs)"
    using assms(1) by (auto simp: sync_keeps_def sys_read_trace)
  then show ?thesis
    using assms by (auto simp: sync_keeps_def simp del: list.map)
qed

lemma sync_loop_keeps:
  assumes "sync_loop OS sk xfer rc got remote h = Some res"
  shows "sync_keeps remote h res"
proof (rule sync_loop.raw_induct [where P = "\<lambda>OS sk xfer rc got remote h res. sync_keeps remote h res",
    OF _ assms])
  fix f OS sk xfer rc got remote h res
  assume IH: "\<And>OS sk xfer rc got remote h res. f OS sk xfer rc got remote h = Some res \<Longrightarrow>
      sync_keeps remote h res"
    and eq: "(if rc = 0 \<and> got < xfer then
        (let ((r, data), h) = sys_read OS sk (nat xfer) h
         in if r > 0 then f OS sk xfer rc (got + r) (blit data remote) h
            else f OS sk xfer r got remote h)
      else Some (rc, remote, h)) = Some res"
  show "sync_keeps remote h res"
  proof (cases "rc = 0 \<and> got < xfer")
    case False
    with eq have "res = (rc, remote, h)" by auto
    then show ?thesis by (auto simp: sync_keeps_def intro: exI [of _ "[]"])
  next
    case True
    then obtain rc' got' remote' where
      "f OS sk xfer rc' got' remote' (snd (sys_read OS sk (nat xfer) h)) = Some res"
      "length remote' = length remote"
      using eq length_blit by (simp add: split_def Let_def split: if_splits)
    with IH show ?thesis
      by (blast intro: sync_keeps_step)
  qed
qed

lemma neutral_reads [simp]: "neutral (map SockRead rs)"
  by (induction rs) (auto simp: neutral_def)

lemma sock_sync_data_keeps:
  assumes "sock_sync_data OS sk l remote h = Returned (rc, remote', h')"
  shows "length remote' = length remote \<and>
    (\<exists>rs. trace h' = trace h @ SockWrite l (int (length l)) # map SockRead rs)"
  using assms
  by (fastforce simp: sock_sync_data_def call_simps Let_def split_def of_loop_def sync_keeps_def
      split: if_splits option.splits dest!: sync_loop_keeps)

section \<open>Properties\<close>

lemma length_put_con_data:
  "length (gid d) = 16 \<Longrightarrow> length pad = 6 \<Longrightarrow> length (put_con_data e pad d) = sizeof_con_data"
  by (simp add: put_con_data_def sizeof_con_data_def)

lemma get_put_con_data:
  assumes "length (gid d) = 16"
  shows "get_con_data e' (put_con_data e pad d) =
    \<lparr>addr = load e' (store e (addr d)), rkey = load e' (store e (rkey d)),
     qp_num = load e' (store e (qp_num d)), lid = load e' (store e (lid d)), gid = gid d\<rparr>"
  using assms by (simp add: get_con_data_def put_con_data_def)

lemma load_other_order:
  "e \<noteq> e' \<Longrightarrow> 8 dvd LENGTH('l) \<Longrightarrow> load e' (store e x) = bswap (x :: 'l::len word)"
  by (cases e; cases e') (simp_all add: bswap_def)

lemma ntoh_exchange:
  "8 dvd LENGTH('l) \<Longrightarrow> ntoh e' (load e' (store e (hton e x))) = (x :: 'l::len word)"
  using ntoh_load_network [of e' x] store_hton [of e x] by simp

lemma con_data_arrives:
  assumes "length (gid d) = 16"
  shows "con_data_ntoh e' (get_con_data e' (put_con_data e pad (con_data_hton e d))) =
    (if e = e' then d else d\<lparr>addr := bswap (addr d)\<rparr>)"
proof -
  have "ntohll (load e' (store e (htonll (addr d)))) = (if e = e' then addr d else bswap (addr d))"
    by (auto simp: ntohll_def htonll_def load_other_order wire_simps)
  then show ?thesis
    using assms by (cases d) (simp add: con_data_ntoh_def get_put_con_data con_data_hton_def ntoh_exchange)
qed

text \<open>
  C17: between hosts of the same byte order the connection data arrive as they were sent,
  whatever the padding holds; the struct takes 40 bytes on the wire, with \<open>rkey\<close>, \<open>qp_num\<close> and
  \<open>lid\<close> in network order. Between hosts of different byte order the three still arrive, but the
  address does not: it arrives byte-swapped.
\<close>

theorem con_data_exchange:
  assumes "length (gid d) = 16" "length pad = 6"
  shows "length (put_con_data e pad (con_data_hton e d)) = sizeof_con_data \<and>
    con_data_ntoh e' (get_con_data e' (put_con_data e pad (con_data_hton e d))) =
      (if e = e' then d else d\<lparr>addr := bswap (addr d)\<rparr>)"
  using assms length_put_con_data [of "con_data_hton e d" pad e] con_data_arrives
  by (simp add: con_data_hton_def)

theorem con_data_exchange_witness:
  "con_data_ntoh LittleEndian (get_con_data LittleEndian
     (put_con_data LittleEndian [1, 2, 3, 4, 5, 6] (con_data_hton LittleEndian
       \<lparr>addr = 0x7f0011223344, rkey = 77, qp_num = 300, lid = 5, gid = replicate 16 9\<rparr>))) =
   \<lparr>addr = 0x7f0011223344, rkey = 77, qp_num = 300, lid = 5, gid = replicate 16 9\<rparr>"
proof -
  have "length (gid \<lparr>addr = 0x7f0011223344, rkey = 77, qp_num = 300, lid = 5, gid = replicate 16 9\<rparr>) = 16"
    "length [1 :: u8, 2, 3, 4, 5, 6] = 6"
    by simp_all
  from con_data_exchange [OF this] show ?thesis
    by simp
qed

lemma sync_one_read:
  assumes "fst (e_write OS sk l (world h)) = int (length l)" "l \<noteq> []"
    and "fst (e_read OS sk (length l) (snd (e_write OS sk l (world h)))) = (int (length l), data)"
  shows "\<exists>h'. sock_sync_data OS sk l remote h = Returned (0, blit data remote, h') \<and>
    trace h' = trace h @ [SockWrite l (int (length l)), SockRead (int (length l))]"
proof -
  let ?w = "snd (e_write OS sk l (world h))"
  let ?h = "h\<lparr>world := ?w, trace := trace h @ [SockWrite l (int (length l))]\<rparr>"
  let ?h' = "?h\<lparr>world := snd (e_read OS sk (length l) ?w), trace := trace ?h @ [SockRead (int (length l))]\<rparr>"
  have "sys_read OS sk (nat (int (length l))) ?h = ((int (length l), data), ?h')"
    using assms(3) by (simp add: sys_read_def call_simps)
  from sync_loop_step [OF this, of 0 remote]
  have "sync_loop OS sk (int (length l)) 0 0 remote ?h = Some (0, blit data remote, ?h')"
    using assms(2) by (simp add: sync_loop_stop)
  then show ?thesis
    using assms by (simp add: sock_sync_data_def call_simps Let_def)
qed

text \<open>
  When the write takes everything and one \<open>read\<close> delivers the whole transfer,
  \<open>sock_sync_data\<close> returns 0 and the buffer holds exactly what the peer sent.
\<close>

lemma sock_sync_data_one_read:
  assumes "fst (e_write OS sk l (world h)) = int (length l)" "l \<noteq> []"
    and "fst (e_read OS sk (length l) (snd (e_write OS sk l (world h)))) = (int (length l), data)"
    and "length data = length l" "length remote = length l"
  shows "\<exists>h'. sock_sync_data OS sk l remote h = Returned (0, data, h') \<and>
    trace h' = trace h @ [SockWrite l (int (length l)), SockRead (int (length l))]"
  using sync_one_read [OF assms(1-3), of remote] assms(4,5) by (simp add: blit_def)

text \<open>
  A socket driven by a script: it takes every write, and each \<open>read\<close> hands over the next chunk,
  nothing once the script is over (the peer has closed).
\<close>

definition scripted :: "bytes list os" where
  "scripted = \<lparr>e_socket = (\<lambda>w. (3, w)), e_connect = (\<lambda>_ _ _ w. (0, w)), e_bind = (\<lambda>_ _ w. (0, w)),
     e_listen = (\<lambda>_ _ w. (0, w)), e_accept = (\<lambda>_ w. (4, w)), e_close = (\<lambda>_ w. (0, w)),
     e_write = (\<lambda>_ bs w. (int (length bs), w)),
     e_read = (\<lambda>_ n w. case w of [] \<Rightarrow> ((0, []), []) | c # cs \<Rightarrow> ((int (length c), c), cs)),
     e_gettimeofday = (\<lambda>w. ((0, 0), w)), e_malloc = (\<lambda>_ w. (4096, w)), e_free = (\<lambda>_ w. ((), w)),
     e_store = (\<lambda>_ _ w. ((), w)), e_load = (\<lambda>_ n w. (replicate n 0, w))\<rparr>"

text \<open>
  C26: a short read corrupts the exchange. If the transfer arrives in two parts, every part is
  stored at the start of the buffer, so what ends up there is the second part followed by the
  rest of the first, not their concatenation; \<open>sock_sync_data\<close> still reports success.
\<close>

theorem sock_sync_data_short_read:
  assumes "0 < length c" "0 < length c'" "length c + length c' = length l" "length remote = length l"
  shows "\<exists>h'. sock_sync_data scripted sk l remote \<lparr>world = [c, c'], trace = []\<rparr> =
    Returned (0, blit c' (blit c remote), h')"
proof -
  let ?s = "\<lambda>w es. \<lparr>world = w, trace = SockWrite l (int (length l)) # es\<rparr>"
  have r1: "sys_read scripted sk (nat (int (length l))) (?s [c, c'] []) =
      ((int (length c), c), ?s [c'] [SockRead (int (length c))])"
    and r2: "sys_read scripted sk (nat (int (length l))) (?s [c'] [SockRead (int (length c))]) =
      ((int (length c'), c'), ?s [] [SockRead (int (length c)), SockRead (int (length c'))])"
    by (simp_all add: sys_read_def call_simps scripted_def)
  have lt: "0 < int (length l)" "int (length c) < int (length l)"
    and len: "0 < length c" "0 < length c'" "int (length c) + int (length c') = int (length l)"
    using assms by linarith+
  have "sync_loop scripted sk (int (length l)) 0 0 remote (?s [c, c'] []) =
      Some (0, blit c' (blit c remote), ?s [] [SockRead (int (length c)), SockRead (int (length c'))])"
    using lt len sync_loop_step [OF r1 lt(1), of remote] sync_loop_step [OF r2 lt(2), of "blit c remote"]
    by (simp add: sync_loop_stop)
  then show ?thesis
    by (simp add: sock_sync_data_def call_simps Let_def scripted_def)
qed

theorem sock_sync_data_short_read_witness:
  "\<exists>h'. sock_sync_data scripted 3 [0, 0, 0, 0] [0, 0, 0, 0] \<lparr>world = [[1, 2, 3], [4]], trace = []\<rparr> =
     Returned (0, [4, 2, 3, 0], h')"
proof -
  have "0 < length [1 :: u8, 2, 3]" "0 < length [4 :: u8]"
    "length [1 :: u8, 2, 3] + length [4 :: u8] = length [0 :: u8, 0, 0, 0]"
    "length [0 :: u8, 0, 0, 0] = length [0 :: u8, 0, 0, 0]"
    by simp_all
  from sock_sync_data_short_read [OF this] show ?thesis
    by (simp add: blit_def)
qed

lemma sync_loop_eof:
  assumes eof: "\<And>w. fst (fst (e_read OS sk (nat xfer) w)) = 0" and got: "got < xfer"
  shows "sync_loop OS sk xfer 0 got remote h = None"
proof (rule ccontr)
  assume "sync_loop OS sk xfer 0 got remote h \<noteq> None"
  then obtain res where "sync_loop OS sk xfer 0 got remote h = Some res"
    by blast
  then have "\<not> (OS = OS \<and> sk = sk \<and> xfer = xfer \<and> (0::int) = 0 \<and> got = got)"
  proof (rule sync_loop.raw_induct [where P = "\<lambda>OS' sk' xfer' rc' got' remote' h' res.
      \<not> (OS' = OS \<and> sk' = sk \<and> xfer' = xfer \<and> rc' = 0 \<and> got' = got)", rotated])
    fix f OS' sk' xfer' rc' got' remote' h' res
    assume IH: "\<And>OS' sk' xfer' rc' got' remote' h' res. f OS' sk' xfer' rc' got' remote' h' = Some res \<Longrightarrow>
        \<not> (OS' = OS \<and> sk' = sk \<and> xfer' = xfer \<and> rc' = 0 \<and> got' = got)"
      and eq: "(if rc' = 0 \<and> got' < xfer' then
        (let ((r, data), h) = sys_read OS' sk' (nat xfer') h'
         in if r > 0 then f OS' sk' xfer' rc' (got' + r) (blit data remote') h
            else f OS' sk' xfer' r got' remote' h)
      else Some (rc', remote', h')) = Some res"
    show "\<not> (OS' = OS \<and> sk' = sk \<and> xfer' = xfer \<and> rc' = 0 \<and> got' = got)"
    proof
      assume same: "OS' = OS \<and> sk' = sk \<and> xfer' = xfer \<and> rc' = 0 \<and> got' = got"
      then have "fst (fst (sys_read OS' sk' (nat xfer') h')) = 0"
        using eof by (simp add: sys_read_def call_simps)
      with eq same got have "f OS sk xfer 0 got remote' (snd (sys_read OS' sk' (nat xfer') h')) = Some res"
        by (simp add: split_def Let_def)
      with IH show False
        by blast
    qed
  qed
  then show False
    by simp
qed

text \<open>
  C27: when the peer closes the connection before it has sent anything, every \<open>read\<close> returns 0;
  the loop takes that for \<open>rc = 0\<close> and \<open>sock_sync_data\<close> never returns.
\<close>

theorem sock_sync_data_eof:
  assumes "\<forall>w. fst (fst (e_read OS sk (length l) w)) = 0" "l \<noteq> []"
    and "fst (e_write OS sk l (world h)) = int (length l)"
  shows "sock_sync_data OS sk l remote h = NeverReturns"
  using assms by (simp add: sock_sync_data_def call_simps Let_def sync_loop_eof)

definition closed_peer :: "bytes list os" where
  "closed_peer = scripted\<lparr>e_read := (\<lambda>_ _ w. ((0, []), w))\<rparr>"

theorem sock_sync_data_eof_witness:
  "sock_sync_data closed_peer 3 [82] [0] \<lparr>world = [], trace = []\<rparr> = NeverReturns"
proof -
  have "\<forall>w. fst (fst (e_read closed_peer 3 (length [82 :: u8]) w)) = 0" "[82 :: u8] \<noteq> []"
    "fst (e_write closed_peer 3 [82] (world \<lparr>world = [], trace = []\<rparr>)) = int (length [82 :: u8])"
    by (simp_all add: closed_peer_def scripted_def)
  from sock_sync_data_eof [OF this] show ?thesis .
qed

text \<open>
  C25: a call of \<open>sock_connect\<close> that returns accounts for every descriptor: what it opened is closed
  again, except the socket it returns; in client mode it also closes descriptor 0, which it never
  opened (the process's standard input).
\<close>

theorem sock_connect_descriptors:
  assumes "sock_connect OS servername port h = Returned (fd, h')"
  shows "\<exists>es. trace h' = trace h @ es \<and>
    acquired es + (if servername = None then {#} else {#Fd 0#}) =
    released es + (if fd \<ge> 0 then {#Fd fd#} else {#})"
proof (cases servername)
  case None
  with assms show ?thesis
    by (auto simp: sock_connect_def sys_close_def call_simps Let_def split_def split: if_splits)
next
  case (Some name)
  with assms show ?thesis
    by (auto simp: sock_connect_def sys_close_def call_simps Let_def split_def split: if_splits)
qed

theorem sock_connect_descriptors_witness:
  "\<exists>h'. sock_connect scripted (Some ''10.0.0.1'') 19875 \<lparr>world = [], trace = []\<rparr> = Returned (3, h') \<and>
     acquired (trace h') = {#Fd 3#} \<and> released (trace h') = {#Fd 0#}"
proof -
  let ?h = "\<lparr>world = [], trace = [Acquire (Fd 3), Release (Fd 0)]\<rparr>"
  have r: "sock_connect scripted (Some ''10.0.0.1'') 19875 \<lparr>world = [], trace = []\<rparr> = Returned (3, ?h)"
    by (simp add: sock_connect_def scripted_def sys_close_def call_simps acquire_fd_def)
  with sock_connect_descriptors [OF r] show ?thesis
    by simp
qed

end
