(* ===== verification/Rc_Verbs.thy ===== *)
theory Rc_Verbs
  imports Rc_Env
begin

text \<open>
  The functions of rc_example.c that drive the queue pair: waiting for a completion, posting send
  and receive requests, and the three state changes of the queue pair.
\<close>

section \<open>poll_completion\<close>

text \<open>
  \<open>(tv_sec * 1000) + (tv_usec / 1000)\<close> as an \<open>unsigned long\<close>; \<open>tv_usec\<close> is never negative.
\<close>

definition msec :: "int \<times> int \<Rightarrow> u64" where
  "msec tv = of_int (fst tv * 1000 + snd tv div 1000)"

definition sys_poll :: "'w verbs \<Rightarrow> u64 \<Rightarrow> 'w host \<Rightarrow> (int \<times> nat) \<times> 'w host" where
  "sys_poll V c = ext (v_poll_cq V c) (\<lambda>(r, st). [PollCq r st])"

definition sys_clock :: "'w os \<Rightarrow> 'w host \<Rightarrow> (int \<times> int) \<times> 'w host" where
  "sys_clock OS = ext (e_gettimeofday OS) (\<lambda>_. [])"

text \<open>The body of the \<open>do\<close> loop: poll, then look at the clock.\<close>

definition poll_once :: "'w os \<Rightarrow> 'w verbs \<Rightarrow> u64 \<Rightarrow> 'w host \<Rightarrow> (int \<times> nat) \<times> u64 \<times> 'w host" where
  "poll_once OS V c h =
     (let (wc, h) = sys_poll V c h; (tv, h) = sys_clock OS h in (wc, msec tv, h))"

partial_function (option) poll_loop ::
  "'w os \<Rightarrow> 'w verbs \<Rightarrow> u64 \<Rightarrow> u64 \<Rightarrow> 'w host \<Rightarrow> ((int \<times> nat) \<times> 'w host) option" where
  "poll_loop OS V c start h =
     (let (wc, cur, h) = poll_once OS V c h
      in if fst wc = 0 \<and> cur - start < MAX_POLL_CQ_TIMEOUT then poll_loop OS V c start h
         else Some (wc, h))"

text \<open>\<open>IBV_WC_SUCCESS\<close> is 0.\<close>

definition poll_rc :: "int \<times> nat \<Rightarrow> int" where
  "poll_rc wc = (if fst wc < 0 then 1 else if fst wc = 0 then 1 else if snd wc \<noteq> 0 then 1 else 0)"

definition poll_completion :: "'w os \<Rightarrow> 'w verbs \<Rightarrow> resources \<Rightarrow> 'w host \<Rightarrow> (int \<times> 'w host) outcome" where
  "poll_completion OS V res h =
     (let (tv, h) = sys_clock OS h
      in of_loop (map_option (\<lambda>(wc, h). Returned (poll_rc wc, h)) (poll_loop OS V (cq res) (msec tv) h)))"

section \<open>Posting requests\<close>

definition post_send :: "'w verbs \<Rightarrow> resources \<Rightarrow> ibv_opcode \<Rightarrow> 'w host \<Rightarrow> int \<times> 'w host" where
  "post_send V res opcode h =
     (let sr = \<lparr>sr_addr = buf res, sr_length = MSG_SIZE, sr_lkey = mr_lkey res, sr_opcode = opcode,
                sr_signaled = True, sr_remote_addr = 0, sr_rkey = 0\<rparr>;
          sr = (if opcode \<noteq> WR_SEND
                then sr\<lparr>sr_remote_addr := addr (remote_props res), sr_rkey := rkey (remote_props res)\<rparr>
                else sr)
      in ext (v_post_send V (qp res) sr) (\<lambda>rc. [PostSend sr rc]) h)"

definition post_recv :: "'w verbs \<Rightarrow> resources \<Rightarrow> 'w host \<Rightarrow> int \<times> 'w host" where
  "post_recv V res h =
     (let rr = \<lparr>rr_addr = buf res, rr_length = MSG_SIZE, rr_lkey = mr_lkey res\<rparr>
      in ext (v_post_recv V (qp res) rr) (\<lambda>rc. [PostRecv rr rc]) h)"

section \<open>State changes of the queue pair\<close>

definition sys_modify_qp ::
  "'w verbs \<Rightarrow> u64 \<Rightarrow> ibv_qp_attr \<Rightarrow> ibv_qp_mask set \<Rightarrow> 'w host \<Rightarrow> int \<times> 'w host" where
  "sys_modify_qp V q attr flags = ext (v_modify_qp V q attr flags) (\<lambda>rc. [ModifyQp attr flags rc])"

definition rdma_access :: "ibv_access set" where
  "rdma_access = {ACCESS_LOCAL_WRITE, ACCESS_REMOTE_READ, ACCESS_REMOTE_WRITE}"

definition init_attr :: "config_t \<Rightarrow> ibv_qp_attr" where
  "init_attr cfg = zero_attr\<lparr>qp_state := QPS_INIT, port_num := of_int (ib_port cfg), pkey_index := 0,
     qp_access_flags := rdma_access\<rparr>"

definition modify_qp_to_init :: "'w verbs \<Rightarrow> config_t \<Rightarrow> u64 \<Rightarrow> 'w host \<Rightarrow> int \<times> 'w host" where
  "modify_qp_to_init V cfg q h =
     sys_modify_qp V q (init_attr cfg) {QP_STATE, QP_PKEY_INDEX, QP_PORT, QP_ACCESS_FLAGS} h"

text \<open>\<open>IBV_MTU_256\<close> is 1.\<close>

definition rtr_ah_attr :: "config_t \<Rightarrow> u16 \<Rightarrow> bytes \<Rightarrow> ibv_ah_attr" where
  "rtr_ah_attr cfg dl dg =
     (let ah = zero_ah_attr\<lparr>is_global := False, dlid := dl, sl := 0, src_path_bits := 0,
                 ah_port_num := of_int (ib_port cfg)\<rparr>
      in if gid_idx cfg \<ge> 0
         then ah\<lparr>is_global := True, ah_port_num := 1,
                 grh := \<lparr>dgid = dg, flow_label = 0, hop_limit = 1, sgid_index = of_int (gid_idx cfg),
                         traffic_class = 0\<rparr>\<rparr>
         else ah)"

definition rtr_attr :: "config_t \<Rightarrow> u32 \<Rightarrow> u16 \<Rightarrow> bytes \<Rightarrow> ibv_qp_attr" where
  "rtr_attr cfg remote_qpn dl dg = zero_attr\<lparr>qp_state := QPS_RTR, path_mtu := 1,
     dest_qp_num := remote_qpn, rq_psn := 0, max_dest_rd_atomic := 1, min_rnr_timer := 0x12,
     ah_attr := rtr_ah_attr cfg dl dg\<rparr>"

definition modify_qp_rtr ::
  "'w verbs \<Rightarrow> config_t \<Rightarrow> u64 \<Rightarrow> u32 \<Rightarrow> u16 \<Rightarrow> bytes \<Rightarrow> 'w host \<Rightarrow> int \<times> 'w host" where
  "modify_qp_rtr V cfg q remote_qpn dl dg h =
     sys_modify_qp V q (rtr_attr cfg remote_qpn dl dg)
       {QP_STATE, QP_AV, QP_PATH_MTU, QP_DEST_QPN, QP_RQ_PSN, QP_MAX_DEST_RD_ATOMIC,
        QP_MIN_RNR_TIMER} h"

definition rts_attr :: ibv_qp_attr where
  "rts_attr = zero_attr\<lparr>qp_state := QPS_RTS, timeout := 0x12, retry_cnt := 6, rnr_retry := 0,
     sq_psn := 0, max_rd_atomic := 1\<rparr>"

definition modify_qp_rts :: "'w verbs \<Rightarrow> u64 \<Rightarrow> 'w host \<Rightarrow> int \<times> 'w host" where
  "modify_qp_rts V q h =
     sys_modify_qp V q rts_attr
       {QP_STATE, QP_TIMEOUT, QP_RETRY_CNT, QP_RNR_RETRY, QP_SQ_PSN, QP_MAX_QP_RD_ATOMIC} h"

lemmas verbs_calls = post_send_def post_recv_def modify_qp_to_init_def modify_qp_rtr_def
  modify_qp_rts_def sys_modify_qp_def sys_poll_def sys_clock_def

section \<open>The polling loop\<close>

text \<open>The host after \<open>k\<close> rounds of the loop, and whether round \<open>k\<close> ends it.\<close>

primrec poll_rounds :: "'w os \<Rightarrow> 'w verbs \<Rightarrow> u64 \<Rightarrow> nat \<Rightarrow> 'w host \<Rightarrow> 'w host" where
  "poll_rounds OS V c 0 h = h"
| "poll_rounds OS V c (Suc k) h = poll_rounds OS V c k (snd (snd (poll_once OS V c h)))"

definition poll_stops :: "'w os \<Rightarrow> 'w verbs \<Rightarrow> u64 \<Rightarrow> u64 \<Rightarrow> 'w host \<Rightarrow> bool" where
  "poll_stops OS V c start h \<longleftrightarrow> fst (fst (poll_once OS V c h)) \<noteq> 0 \<or>
     fst (snd (poll_once OS V c h)) - start \<ge> MAX_POLL_CQ_TIMEOUT"

lemma poll_loop_eq:
  "poll_loop OS V c start h =
     (if poll_stops OS V c start h
      then Some (fst (poll_once OS V c h), snd (snd (poll_once OS V c h)))
      else poll_loop OS V c start (snd (snd (poll_once OS V c h))))"
  by (subst poll_loop.simps) (auto simp: poll_stops_def split_def Let_def not_less)

lemma poll_loop_first_stop:
  assumes "poll_stops OS V c start (poll_rounds OS V c k h)"
    and "\<And>i. i < k \<Longrightarrow> \<not> poll_stops OS V c start (poll_rounds OS V c i h)"
  shows "poll_loop OS V c start h =
    Some (fst (poll_once OS V c (poll_rounds OS V c k h)), poll_rounds OS V c (Suc k) h)"
  using assms
proof (induction k arbitrary: h)
  case 0
  then show ?case
    by (subst poll_loop_eq) simp
next
  case (Suc k)
  have "\<not> poll_stops OS V c start h"
    using Suc.prems(2) [of 0] by simp
  moreover have "\<not> poll_stops OS V c start (poll_rounds OS V c i (snd (snd (poll_once OS V c h))))"
    if "i < k" for i
    using Suc.prems(2) [of "Suc i"] that by simp
  ultimately show ?case
    using Suc.IH [of "snd (snd (poll_once OS V c h))"] Suc.prems(1)
    by (subst poll_loop_eq) simp
qed

lemma poll_loop_returns:
  assumes "poll_loop OS V c start h = Some r"
  shows "\<exists>k. poll_stops OS V c start (poll_rounds OS V c k h)"
proof (rule poll_loop.raw_induct [where P = "\<lambda>OS V c start h r.
    \<exists>k. poll_stops OS V c start (poll_rounds OS V c k h)", OF _ assms])
  fix f OS V c start h r
  assume IH: "\<And>OS V c start h r. f OS V c start h = Some r \<Longrightarrow>
      \<exists>k. poll_stops OS V c start (poll_rounds OS V c k h)"
    and eq: "(let (wc, cur, h) = poll_once OS V c h
      in if fst wc = 0 \<and> cur - start < MAX_POLL_CQ_TIMEOUT then f OS V c start h
         else Some (wc, h)) = Some r"
  show "\<exists>k. poll_stops OS V c start (poll_rounds OS V c k h)"
  proof (cases "poll_stops OS V c start h")
    case True
    then show ?thesis by (intro exI [of _ 0]) simp
  next
    case False
    with eq have "f OS V c start (snd (snd (poll_once OS V c h))) = Some r"
      by (auto simp: poll_stops_def split_def Let_def not_le)
    from IH [OF this] obtain k where
      "poll_stops OS V c start (poll_rounds OS V c k (snd (snd (poll_once OS V c h))))" ..
    then show ?thesis by (intro exI [of _ "Suc k"]) simp
  qed
qed

lemma poll_rounds_trace:
  "\<exists>ps. trace (poll_rounds OS V c k h) = trace h @ map (\<lambda>(r, st). PollCq r st) ps"
proof (induction k arbitrary: h)
  case 0
  then show ?case by (intro exI [of _ "[]"]) simp
next
  case (Suc k)
  obtain ps where "trace (poll_rounds OS V c k (snd (snd (poll_once OS V c h)))) =
      trace (snd (snd (poll_once OS V c h))) @ map (\<lambda>(r, st). PollCq r st) ps"
    using Suc by blast
  then show ?case
    by (intro exI [of _ "fst (poll_once OS V c h) # ps"])
      (simp add: poll_once_def verbs_calls call_simps Let_def split_def)
qed

lemma poll_loop_shape:
  assumes "poll_loop OS V c start h = Some (wc, h')"
  shows "\<exists>k. h' = poll_rounds OS V c (Suc k) h \<and> wc = fst (poll_once OS V c (poll_rounds OS V c k h))"
proof -
  let ?P = "\<lambda>k. poll_stops OS V c start (poll_rounds OS V c k h)"
  have "?P (LEAST k. ?P k)"
    using poll_loop_returns [OF assms] by (rule LeastI_ex)
  from poll_loop_first_stop [OF this] not_less_Least [of _ ?P] assms show ?thesis
    by auto
qed

lemma neutral_polls [simp]: "neutral (map (\<lambda>(r, st). PollCq r st) ps)"
  by (induction ps) (auto simp: Rc_Env.neutral_def)

lemma poll_completion_trace:
  assumes "poll_completion OS V res h = Returned (rc, h')"
  shows "\<exists>ps. trace h' = trace h @ map (\<lambda>(r, st). PollCq r st) ps"
proof -
  obtain wc where "poll_loop OS V (cq res) (msec (fst (sys_clock OS h))) (snd (sys_clock OS h)) = Some (wc, h')"
    using assms by (auto simp: poll_completion_def split_def Let_def of_loop_def split: option.splits)
  from poll_loop_shape [OF this] obtain k where
    "h' = poll_rounds OS V (cq res) (Suc k) (snd (sys_clock OS h))"
    by blast
  moreover obtain ps where "trace (poll_rounds OS V (cq res) (Suc k) (snd (sys_clock OS h))) =
      trace (snd (sys_clock OS h)) @ map (\<lambda>(r, st). PollCq r st) ps"
    using poll_rounds_trace by blast
  ultimately show ?thesis
    by (auto simp: verbs_calls call_simps)
qed

text \<open>Every poll but the last finds the queue empty.\<close>

lemma poll_loop_trace:
  assumes "poll_loop OS V c start h = Some r"
  shows "\<exists>sts. trace (snd r) = trace h @ map (PollCq 0) sts @ [PollCq (fst (fst r)) (snd (fst r))]"
proof (rule poll_loop.raw_induct [where P = "\<lambda>OS V c start h r.
    \<exists>sts. trace (snd r) = trace h @ map (PollCq 0) sts @ [PollCq (fst (fst r)) (snd (fst r))]", OF _ assms])
  fix f OS V c start h r
  assume IH: "\<And>OS V c start h r. f OS V c start h = Some r \<Longrightarrow>
      \<exists>sts. trace (snd r) = trace h @ map (PollCq 0) sts @ [PollCq (fst (fst r)) (snd (fst r))]"
    and eq: "(let (wc, cur, h) = poll_once OS V c h
      in if fst wc = 0 \<and> cur - start < MAX_POLL_CQ_TIMEOUT then f OS V c start h
         else Some (wc, h)) = Some r"
  obtain n st cur h1 where p: "poll_once OS V c h = ((n, st), cur, h1)"
    by (metis prod.exhaust)
  then have t: "trace h1 = trace h @ [PollCq n st]"
    by (auto simp: poll_once_def verbs_calls call_simps Let_def split_def)
  show "\<exists>sts. trace (snd r) = trace h @ map (PollCq 0) sts @ [PollCq (fst (fst r)) (snd (fst r))]"
  proof (cases "n = 0 \<and> cur - start < MAX_POLL_CQ_TIMEOUT")
    case True
    with eq p have "f OS V c start h1 = Some r" by simp
    from IH [OF this] obtain sts where
      "trace (snd r) = trace h1 @ map (PollCq 0) sts @ [PollCq (fst (fst r)) (snd (fst r))]" ..
    with t True show ?thesis by (intro exI [of _ "st # sts"]) simp
  next
    case False
    with eq p have "r = ((n, st), h1)" by auto
    with t show ?thesis by (intro exI [of _ "[]"]) simp
  qed
qed

lemma poll_completion_found:
  assumes "poll_completion OS V res h = Returned (0, h')"
  shows "\<exists>sts n. n > 0 \<and> trace h' = trace h @ map (PollCq 0) sts @ [PollCq n 0]"
proof -
  obtain n st where
    l: "poll_loop OS V (cq res) (msec (fst (sys_clock OS h))) (snd (sys_clock OS h)) = Some ((n, st), h')"
    and rc: "poll_rc (n, st) = 0"
    using assms by (auto simp: poll_completion_def split_def Let_def of_loop_def split: option.splits)
  from rc have "n > 0" "st = 0"
    by (auto simp: poll_rc_def split: if_splits)
  with poll_loop_trace [OF l] show ?thesis
    by (auto simp: verbs_calls call_simps)
qed

section \<open>Properties\<close>

lemma poll_loop_None:
  assumes "\<nexists>k. poll_stops OS V c start (poll_rounds OS V c k h)"
  shows "poll_loop OS V c start h = None"
  using assms poll_loop_returns by (cases "poll_loop OS V c start h") blast+

text \<open>
  C18: \<open>poll_completion\<close> returns if and only if some round of its loop finds a completion, an error
  or a clock 2000 ms past the start (with the wrap-around of unsigned subtraction), and its result
  is 0 exactly when the first such round got a completion with status success.
\<close>

theorem poll_completion_result:
  "poll_completion OS V res h =
     (let h0 = snd (sys_clock OS h);
          stops = (\<lambda>k. poll_stops OS V (cq res) (msec (fst (sys_clock OS h))) (poll_rounds OS V (cq res) k h0));
          k = (LEAST k. stops k);
          (n, status) = fst (poll_once OS V (cq res) (poll_rounds OS V (cq res) k h0))
      in if \<exists>k. stops k
         then Returned (if n > 0 \<and> status = 0 then 0 else 1, poll_rounds OS V (cq res) (Suc k) h0)
         else NeverReturns)"
proof -
  let ?P = "\<lambda>k. poll_stops OS V (cq res) (msec (fst (sys_clock OS h)))
          (poll_rounds OS V (cq res) k (snd (sys_clock OS h)))"
  show ?thesis
  proof (cases "\<exists>k. ?P k")
    case True
    then have "?P (LEAST k. ?P k)"
      by (rule LeastI_ex)
    from poll_loop_first_stop [OF this] not_less_Least [of _ ?P] True show ?thesis
      by (auto simp: poll_completion_def poll_rc_def split_def Let_def)
  next
    case False
    then show ?thesis
      by (simp add: poll_completion_def poll_loop_None split_def Let_def)
  qed
qed

end
