(* ===== verification/Rc_Resources.thy ===== *)
theory Rc_Resources
  imports Rc_Sock Rc_Verbs
begin

text \<open>
  \<open>resources_init\<close>, \<open>resources_create\<close> and \<open>resources_destroy\<close> of rc_example.c, and the accounting of
  what they acquire and release. A function of the program that can jump to its exit label is a
  chain of stages: a stage returns \<open>rc\<close>, and a value other than 0 skips the stages that follow.
\<close>

section \<open>The process and its stages\<close>

text \<open>
  The global \<open>config\<close>, the \<open>struct resources\<close> of \<open>main\<close>, the local \<open>dev_list\<close> of \<open>resources_create\<close>
  (\<open>NULL\<close> outside it), and the host.
\<close>

record 'w proc =
  config :: config_t
  rsrc :: resources
  dev_list :: u64
  host :: "'w host"

type_synonym 'w stage = "'w proc \<Rightarrow> (int \<times> 'w proc) outcome"

definition call :: "('w \<Rightarrow> 'r \<times> 'w) \<Rightarrow> ('r \<Rightarrow> event list) \<Rightarrow> 'w proc \<Rightarrow> 'r \<times> 'w proc" where
  "call f ev s = (let (r, h) = ext f ev (host s) in (r, s\<lparr>host := h\<rparr>))"

definition then_rc :: "'w stage \<Rightarrow> 'w stage \<Rightarrow> 'w stage" where
  "then_rc f g s = on_return (f s) (\<lambda>(rc, s). if rc \<noteq> 0 then Returned (rc, s) else g s)"

definition is_client :: "'w proc \<Rightarrow> bool" where
  "is_client s \<longleftrightarrow> server_name (config s) \<noteq> None"

section \<open>resources_init\<close>

definition resources_init :: resources where
  "resources_init = \<lparr>port_lid = 0, remote_props = zero_con_data, ib_ctx = 0, pd = 0, cq = 0, qp = 0,
     my_qp_num = 0, mr = 0, mr_lkey = 0, mr_rkey = 0, buf = 0, sock = - 1\<rparr>"

section \<open>resources_create\<close>

definition create_sock :: "'w os \<Rightarrow> 'w stage" where
  "create_sock OS s =
     on_return (sock_connect OS (server_name (config s)) (tcp_port (config s)) (host s)) (\<lambda>(fd, h).
       Returned (if fd < 0 then - 1 else 0, s\<lparr>rsrc := (rsrc s)\<lparr>sock := fd\<rparr>, host := h\<rparr>))"

text \<open>
  The loop over the devices: the first device becomes \<open>config.dev_name\<close> when none is configured;
  the result is the new \<open>config.dev_name\<close> and the index of the device found.
\<close>

fun find_device :: "string option \<Rightarrow> string list \<Rightarrow> nat \<Rightarrow> string option \<times> nat option" where
  "find_device dn [] i = (dn, None)"
| "find_device dn (name # names) i =
     (let d = (case dn of None \<Rightarrow> name | Some d \<Rightarrow> d)
      in if name = d then (Some d, Some i) else find_device (Some d) names (Suc i))"

definition create_device :: "'w verbs \<Rightarrow> 'w stage" where
  "create_device V s =
     (let ((list, names), s) = call (v_get_device_list V) (\<lambda>(l, _). acquire_ptr DevList l) s;
          s = s\<lparr>dev_list := list\<rparr>
      in if list = 0 \<or> names = [] then Returned (1, s)
         else
           (let (dn, found) = find_device (dev_name (config s)) names 0;
                s = s\<lparr>config := (config s)\<lparr>dev_name := dn\<rparr>\<rparr>
            in case found of
                 None \<Rightarrow> Returned (1, s)
               | Some i \<Rightarrow>
                   (let (ctx, s) = call (v_open_device V list i) (acquire_ptr Ctx) s;
                        s = s\<lparr>rsrc := (rsrc s)\<lparr>ib_ctx := ctx\<rparr>\<rparr>
                    in if ctx = 0 then Returned (1, s)
                       else
                         (let (_, s) = call (v_free_device_list V list) (\<lambda>_. [Release (DevList list)]) s
                          in Returned (0, s\<lparr>dev_list := 0\<rparr>)))))"

definition create_port :: "'w verbs \<Rightarrow> 'w stage" where
  "create_port V s =
     (let ((rc, l), s) = call (v_query_port V (ib_ctx (rsrc s)) (of_int (ib_port (config s)))) (\<lambda>_. []) s
      in Returned (if rc \<noteq> 0 then 1 else 0, s\<lparr>rsrc := (rsrc s)\<lparr>port_lid := l\<rparr>\<rparr>))"

definition create_pd :: "'w verbs \<Rightarrow> 'w stage" where
  "create_pd V s =
     (let (p, s) = call (v_alloc_pd V (ib_ctx (rsrc s))) (acquire_ptr Pd) s
      in Returned (if p = 0 then 1 else 0, s\<lparr>rsrc := (rsrc s)\<lparr>pd := p\<rparr>\<rparr>))"

definition create_cq :: "'w verbs \<Rightarrow> 'w stage" where
  "create_cq V s =
     (let (p, s) = call (v_create_cq V (ib_ctx (rsrc s)) 1) (acquire_ptr Cq) s
      in Returned (if p = 0 then 1 else 0, s\<lparr>rsrc := (rsrc s)\<lparr>cq := p\<rparr>\<rparr>))"

text \<open>Writing and printing the message buffer; \<open>strcpy\<close> also copies the terminating 0.\<close>

definition buf_store :: "'w os \<Rightarrow> bytes \<Rightarrow> 'w proc \<Rightarrow> 'w proc" where
  "buf_store OS bs s = snd (call (e_store OS (buf (rsrc s)) bs) (\<lambda>_. [BufStore bs]) s)"

definition buf_show :: "'w os \<Rightarrow> 'w proc \<Rightarrow> 'w proc" where
  "buf_show OS s =
     snd (call (e_load OS (buf (rsrc s)) MSG_SIZE) (\<lambda>bs. [Show (takeWhile (\<lambda>b. b \<noteq> 0) bs)]) s)"

definition create_buf :: "'w os \<Rightarrow> 'w stage" where
  "create_buf OS s =
     (let (p, s) = call (e_malloc OS MSG_SIZE) (acquire_ptr Buf) s;
          s = s\<lparr>rsrc := (rsrc s)\<lparr>buf := p\<rparr>\<rparr>
      in if p = 0 then Returned (1, s)
         else
           (let s = buf_store OS (replicate MSG_SIZE 0) s
            in Returned (0,
                 if \<not> is_client s
                 then buf_show OS (buf_store OS (MSG @ [0]) (buf_store OS (MSG @ [0]) s))
                 else buf_store OS (replicate MSG_SIZE 0) s)))"

definition create_mr :: "'w verbs \<Rightarrow> 'w stage" where
  "create_mr V s =
     (let ((p, lk, rk), s) = call (v_reg_mr V (pd (rsrc s)) (buf (rsrc s)) MSG_SIZE rdma_access)
            (\<lambda>(p, _, _). acquire_ptr Mr p) s
      in Returned (if p = 0 then 1 else 0,
           s\<lparr>rsrc := (rsrc s)\<lparr>mr := p, mr_lkey := lk, mr_rkey := rk\<rparr>\<rparr>))"

definition create_qp :: "'w verbs \<Rightarrow> 'w stage" where
  "create_qp V s =
     (let a = \<lparr>sq_sig_all = True, send_cq = cq (rsrc s), recv_cq = cq (rsrc s), max_send_wr = 1,
               max_recv_wr = 1, max_send_sge = 1, max_recv_sge = 1\<rparr>;
          ((p, n), s) = call (v_create_qp V (pd (rsrc s)) a) (\<lambda>(p, _). acquire_ptr Qp p) s
      in Returned (if p = 0 then 1 else 0, s\<lparr>rsrc := (rsrc s)\<lparr>qp := p, my_qp_num := n\<rparr>\<rparr>))"

text \<open>The release of each resource, if it is held, with the result of the call.\<close>

definition release_ptr ::
  "(resources \<Rightarrow> u64) \<Rightarrow> (u64 \<Rightarrow> resource) \<Rightarrow> (u64 \<Rightarrow> 'w \<Rightarrow> int \<times> 'w) \<Rightarrow> 'w proc \<Rightarrow> int \<times> 'w proc" where
  "release_ptr field k f s =
     (if field (rsrc s) \<noteq> 0 then call (f (field (rsrc s))) (\<lambda>_. [Release (k (field (rsrc s)))]) s
      else (0, s))"

definition release_qp :: "'w verbs \<Rightarrow> 'w proc \<Rightarrow> int \<times> 'w proc" where
  "release_qp V = release_ptr qp Qp (v_destroy_qp V)"
definition release_mr :: "'w verbs \<Rightarrow> 'w proc \<Rightarrow> int \<times> 'w proc" where
  "release_mr V = release_ptr mr Mr (v_dereg_mr V)"
definition release_buf :: "'w os \<Rightarrow> 'w proc \<Rightarrow> int \<times> 'w proc" where
  "release_buf OS = release_ptr buf Buf (\<lambda>p w. (0, snd (e_free OS p w)))"
definition release_cq :: "'w verbs \<Rightarrow> 'w proc \<Rightarrow> int \<times> 'w proc" where
  "release_cq V = release_ptr cq Cq (v_destroy_cq V)"
definition release_pd :: "'w verbs \<Rightarrow> 'w proc \<Rightarrow> int \<times> 'w proc" where
  "release_pd V = release_ptr pd Pd (v_dealloc_pd V)"
definition release_ctx :: "'w verbs \<Rightarrow> 'w proc \<Rightarrow> int \<times> 'w proc" where
  "release_ctx V = release_ptr ib_ctx Ctx (v_close_device V)"

definition release_sock :: "'w os \<Rightarrow> 'w proc \<Rightarrow> int \<times> 'w proc" where
  "release_sock OS s =
     (if sock (rsrc s) \<ge> 0
      then (let (r, h) = sys_close OS (sock (rsrc s)) (host s) in (r, s\<lparr>host := h\<rparr>))
      else (0, s))"

definition release_dev_list :: "'w verbs \<Rightarrow> 'w proc \<Rightarrow> 'w proc" where
  "release_dev_list V s =
     (if dev_list s \<noteq> 0
      then (snd (call (v_free_device_list V (dev_list s)) (\<lambda>_. [Release (DevList (dev_list s))]) s))
             \<lparr>dev_list := 0\<rparr>
      else s)"

text \<open>The code after \<open>resources_create_exit\<close>: it keeps \<open>ib_ctx\<close> open.\<close>

definition create_exit :: "'w os \<Rightarrow> 'w verbs \<Rightarrow> int \<Rightarrow> 'w proc \<Rightarrow> int \<times> 'w proc" where
  "create_exit OS V rc s =
     (if rc \<noteq> 0 then
        (let (_, s) = release_qp V s; s = s\<lparr>rsrc := (rsrc s)\<lparr>qp := 0\<rparr>\<rparr>;
             (_, s) = release_mr V s; s = s\<lparr>rsrc := (rsrc s)\<lparr>mr := 0\<rparr>\<rparr>;
             (_, s) = release_buf OS s; s = s\<lparr>rsrc := (rsrc s)\<lparr>buf := 0\<rparr>\<rparr>;
             (_, s) = release_cq V s; s = s\<lparr>rsrc := (rsrc s)\<lparr>cq := 0\<rparr>\<rparr>;
             (_, s) = release_pd V s; s = s\<lparr>rsrc := (rsrc s)\<lparr>pd := 0\<rparr>\<rparr>;
             s = release_dev_list V s;
             (_, s) = release_sock OS s;
             s = (if sock (rsrc s) \<ge> 0 then s\<lparr>rsrc := (rsrc s)\<lparr>sock := - 1\<rparr>\<rparr> else s)
         in (rc, s))
      else (rc, s))"

definition create_stages :: "'w os \<Rightarrow> 'w verbs \<Rightarrow> 'w stage" where
  "create_stages OS V =
     then_rc (create_sock OS) (then_rc (create_device V) (then_rc (create_port V)
       (then_rc (create_pd V) (then_rc (create_cq V) (then_rc (create_buf OS)
         (then_rc (create_mr V) (create_qp V)))))))"

definition resources_create :: "'w os \<Rightarrow> 'w verbs \<Rightarrow> 'w stage" where
  "resources_create OS V s =
     on_return (create_stages OS V (s\<lparr>dev_list := 0\<rparr>)) (\<lambda>(rc, s). Returned (create_exit OS V rc s))"

section \<open>resources_destroy\<close>

definition resources_destroy :: "'w os \<Rightarrow> 'w verbs \<Rightarrow> 'w proc \<Rightarrow> int \<times> 'w proc" where
  "resources_destroy OS V s =
     (let (r1, s) = release_qp V s; (r2, s) = release_mr V s; (_, s) = release_buf OS s;
          (r3, s) = release_cq V s; (r4, s) = release_pd V s; (r5, s) = release_ctx V s;
          (r6, s) = release_sock OS s
      in (if r1 \<noteq> 0 \<or> r2 \<noteq> 0 \<or> r3 \<noteq> 0 \<or> r4 \<noteq> 0 \<or> r5 \<noteq> 0 \<or> r6 \<noteq> 0 then 1 else 0, s))"

section \<open>Triples for stages\<close>

text \<open>
  Partial correctness of a stage: the second assertion also sees \<open>rc\<close>. That the calls come back is
  a property of the outside world; where the program itself can fail to return, theorems say so.
\<close>

definition triple :: "('w proc \<Rightarrow> bool) \<Rightarrow> 'w stage \<Rightarrow> (int \<Rightarrow> 'w proc \<Rightarrow> bool) \<Rightarrow> bool" where
  "triple P f Q \<longleftrightarrow> (\<forall>s rc s'. P s \<longrightarrow> f s = Returned (rc, s') \<longrightarrow> Q rc s')"

lemma tripleI: "(\<And>s rc s'. P s \<Longrightarrow> f s = Returned (rc, s') \<Longrightarrow> Q rc s') \<Longrightarrow> triple P f Q"
  by (simp add: triple_def)

lemma tripleD: "triple P f Q \<Longrightarrow> P s \<Longrightarrow> f s = Returned (rc, s') \<Longrightarrow> Q rc s'"
  by (simp add: triple_def)

lemma triple_then:
  assumes "triple P f Q" "triple (Q 0) g R" "\<And>rc s. rc \<noteq> 0 \<Longrightarrow> Q rc s \<Longrightarrow> R rc s"
  shows "triple P (then_rc f g) R"
  using assms by (fastforce simp: triple_def then_rc_def split: if_splits)

lemma triple_weaken:
  "triple P f Q \<Longrightarrow> (\<And>s. P' s \<Longrightarrow> P s) \<Longrightarrow> (\<And>rc s. Q rc s \<Longrightarrow> Q' rc s) \<Longrightarrow> triple P' f Q'"
  by (fastforce simp: triple_def)

lemma call_eq [call_simps]:
  "call f ev s = (fst (f (world (host s))),
     s\<lparr>host := \<lparr>world = snd (f (world (host s))), trace = trace (host s) @ ev (fst (f (world (host s))))\<rparr>\<rparr>)"
  by (simp add: call_def ext_eq)

section \<open>Accounting\<close>

text \<open>What the process holds, and the state of the books: every acquisition is released or held.\<close>

definition held :: "(u64 \<Rightarrow> resource) \<Rightarrow> u64 \<Rightarrow> resource multiset" where
  "held k p = (if p \<noteq> 0 then {#k p#} else {#})"

definition held_fd :: "int \<Rightarrow> resource multiset" where
  "held_fd fd = (if fd \<ge> 0 then {#Fd fd#} else {#})"

definition owned :: "resources \<Rightarrow> resource multiset" where
  "owned r = held_fd (sock r) + held Ctx (ib_ctx r) + held Pd (pd r) + held Cq (cq r) +
     held Buf (buf r) + held Mr (mr r) + held Qp (qp r)"

text \<open>The standard input of the process, which \<open>sock_connect\<close> closes in client mode.\<close>

definition stdin_of :: "config_t \<Rightarrow> resource multiset" where
  "stdin_of cfg = (if server_name cfg = None then {#} else {#Fd 0#})"

definition books :: "resource multiset \<Rightarrow> 'w proc \<Rightarrow> bool" where
  "books C s \<longleftrightarrow> acquired (trace (host s)) + C =
     released (trace (host s)) + owned (rsrc s) + held DevList (dev_list s)"

lemma held_simps [simp]: "held k 0 = {#}" "p \<noteq> 0 \<Longrightarrow> held k p = {#k p#}"
  "held_fd (- 1) = {#}" "fd \<ge> 0 \<Longrightarrow> held_fd fd = {#Fd fd#}" "fd < 0 \<Longrightarrow> held_fd fd = {#}"
  by (simp_all add: held_def held_fd_def)

lemma acquired_is_held [simp]: "acquired (acquire_ptr k p) = held k p" "acquired (acquire_fd fd) = held_fd fd"
  by (simp_all add: held_def held_fd_def)

text \<open>The pointers that are still null when a stage starts, from the \<open>k\<close>-th on.\<close>

definition fresh :: "nat \<Rightarrow> 'w proc \<Rightarrow> bool" where
  "fresh k s \<longleftrightarrow> (\<forall>p \<in> set (drop k [ib_ctx (rsrc s), pd (rsrc s), cq (rsrc s), buf (rsrc s), mr (rsrc s),
     qp (rsrc s)]). p = 0)"

definition books_stage :: "resource multiset \<Rightarrow> nat \<Rightarrow> nat \<Rightarrow> 'w stage \<Rightarrow> bool" where
  "books_stage C k k' f \<longleftrightarrow>
     triple (\<lambda>s. books C s \<and> fresh k s \<and> dev_list s = 0) f
       (\<lambda>rc s. books C s \<and> (rc = 0 \<longrightarrow> fresh k' s \<and> dev_list s = 0))"

lemmas books_defs = books_stage_def books_def fresh_def owned_def

lemma books_stage_then:
  "books_stage C k k' f \<Longrightarrow> books_stage C k' k'' g \<Longrightarrow> books_stage C k k'' (then_rc f g)"
  unfolding books_stage_def by (erule triple_then) auto

lemma buf_store_eq [call_simps]:
  "buf_store OS bs s = s\<lparr>host := \<lparr>world = snd (e_store OS (buf (rsrc s)) bs (world (host s))),
     trace = trace (host s) @ [BufStore bs]\<rparr>\<rparr>"
  by (simp add: buf_store_def call_eq)

lemma buf_show_eq [call_simps]:
  "buf_show OS s = s\<lparr>host := \<lparr>world = snd (e_load OS (buf (rsrc s)) MSG_SIZE (world (host s))),
     trace = trace (host s) @ [Show (takeWhile (\<lambda>b. b \<noteq> 0) (fst (e_load OS (buf (rsrc s)) MSG_SIZE (world (host s)))))]\<rparr>\<rparr>"
  by (simp add: buf_show_def call_eq)

lemma books_port: "books_stage C 1 1 (create_port V)"
  unfolding books_stage_def
  by (rule tripleI) (auto simp: create_port_def call_simps books_defs split_def Let_def)

lemma books_pd: "books_stage C 1 2 (create_pd V)"
  unfolding books_stage_def
  by (rule tripleI) (auto simp: create_pd_def call_simps books_defs split_def Let_def numeral_eq_Suc)

lemma books_cq: "books_stage C 2 3 (create_cq V)"
  unfolding books_stage_def
  by (rule tripleI) (auto simp: create_cq_def call_simps books_defs split_def Let_def numeral_eq_Suc)

lemma books_buf: "books_stage C 3 4 (create_buf OS)"
  unfolding books_stage_def
  by (rule tripleI)
    (auto simp: create_buf_def call_simps books_defs split_def Let_def numeral_eq_Suc split: if_splits)

lemma books_mr: "books_stage C 4 5 (create_mr V)"
  unfolding books_stage_def
  by (rule tripleI) (auto simp: create_mr_def call_simps books_defs split_def Let_def numeral_eq_Suc)

lemma books_qp: "books_stage C 5 6 (create_qp V)"
  unfolding books_stage_def
  by (rule tripleI) (auto simp: create_qp_def call_simps books_defs split_def Let_def numeral_eq_Suc)

lemma books_device: "books_stage C 0 1 (create_device V)"
  unfolding books_stage_def
  by (rule tripleI)
    (auto simp: create_device_def call_simps books_defs split_def Let_def numeral_eq_Suc
      split: if_splits option.splits)

lemma sock_connect_books:
  assumes "sock_connect OS name port h = Returned (fd, h')"
  shows "acquired (trace h') + released (trace h) + (if name = None then {#} else {#Fd 0#}) =
    released (trace h') + acquired (trace h) + held_fd fd"
  using assms
  by (cases name)
    (auto simp: sock_connect_def sys_close_def call_simps Let_def split_def held_fd_def split: if_splits)

lemma sock_books:
  "triple (\<lambda>s. books {#} s \<and> fresh 0 s \<and> dev_list s = 0 \<and> sock (rsrc s) = - 1 \<and> stdin_of (config s) = C)
     (create_sock OS) (\<lambda>rc s. books C s \<and> (rc = 0 \<longrightarrow> fresh 0 s \<and> dev_list s = 0))"
proof (rule tripleI)
  fix s rc s'
  assume P: "books {#} s \<and> fresh 0 s \<and> dev_list s = 0 \<and> sock (rsrc s) = - 1 \<and> stdin_of (config s) = C"
    and "create_sock OS s = Returned (rc, s')"
  then obtain fd h where
    c: "sock_connect OS (server_name (config s)) (tcp_port (config s)) (host s) = Returned (fd, h)"
    and s': "s' = s\<lparr>rsrc := (rsrc s)\<lparr>sock := fd\<rparr>, host := h\<rparr>"
    by (auto simp: create_sock_def)
  from P sock_connect_books [OF c] show "books C s' \<and> (rc = 0 \<longrightarrow> fresh 0 s' \<and> dev_list s' = 0)"
    by (auto simp: s' books_defs stdin_of_def)
qed

lemma create_stages_books:
  "triple (\<lambda>s. books {#} s \<and> fresh 0 s \<and> dev_list s = 0 \<and> sock (rsrc s) = - 1 \<and> stdin_of (config s) = C)
     (create_stages OS V) (\<lambda>rc s. books C s \<and> (rc = 0 \<longrightarrow> dev_list s = 0))"
proof -
  have "books_stage C 0 6 (then_rc (create_device V) (then_rc (create_port V)
       (then_rc (create_pd V) (then_rc (create_cq V) (then_rc (create_buf OS)
         (then_rc (create_mr V) (create_qp V)))))))"
    by (intro books_stage_then)
      (rule books_device books_port books_pd books_cq books_buf books_mr books_qp)+
  then show ?thesis
    unfolding create_stages_def books_stage_def
    by (intro triple_then [OF sock_books]) (auto elim: triple_weaken)
qed

text \<open>What releasing does to the process, for each of the releases.\<close>

lemma release_ptr_effect [call_simps]:
  "rsrc (snd (release_ptr field k f s)) = rsrc s"
  "config (snd (release_ptr field k f s)) = config s"
  "dev_list (snd (release_ptr field k f s)) = dev_list s"
  "trace (host (snd (release_ptr field k f s))) =
     trace (host s) @ (if field (rsrc s) = 0 then [] else [Release (k (field (rsrc s)))])"
  by (simp_all add: release_ptr_def call_eq)

lemma release_sock_effect [call_simps]:
  "rsrc (snd (release_sock OS s)) = rsrc s"
  "config (snd (release_sock OS s)) = config s"
  "dev_list (snd (release_sock OS s)) = dev_list s"
  "trace (host (snd (release_sock OS s))) =
     trace (host s) @ (if sock (rsrc s) < 0 then [] else [Release (Fd (sock (rsrc s)))])"
  by (simp_all add: release_sock_def sys_close_def ext_eq)

lemma release_dev_list_effect [call_simps]:
  "rsrc (release_dev_list V s) = rsrc s"
  "config (release_dev_list V s) = config s"
  "dev_list (release_dev_list V s) = 0"
  "trace (host (release_dev_list V s)) =
     trace (host s) @ (if dev_list s = 0 then [] else [Release (DevList (dev_list s))])"
  by (simp_all add: release_dev_list_def call_eq)

lemmas release_defs = release_qp_def release_mr_def release_buf_def release_cq_def release_pd_def
  release_ctx_def

lemma released_if [simp]:
  "released (if p = 0 then [] else [Release (k p)]) = held k p"
  "acquired (if b then [] else [Release r]) = {#}"
  "released (if fd < 0 then [] else [Release (Fd fd)]) = held_fd fd"
  by (simp_all add: held_def held_fd_def)

lemma create_exit_books:
  assumes "books C s" "rc = 0 \<longrightarrow> dev_list s = 0"
  shows "fst (create_exit OS V rc s) = rc \<and> books C (snd (create_exit OS V rc s)) \<and>
    dev_list (snd (create_exit OS V rc s)) = 0 \<and> config (snd (create_exit OS V rc s)) = config s"
  using assms
  by (cases "sock (rsrc s) \<ge> 0") (simp_all add: create_exit_def books_def owned_def release_defs call_simps split_def Let_def)

lemma resources_create_books:
  "triple (\<lambda>s. books {#} (s\<lparr>dev_list := 0\<rparr>) \<and> fresh 0 s \<and> sock (rsrc s) = - 1 \<and> stdin_of (config s) = C)
     (resources_create OS V) (\<lambda>rc s. books C s \<and> dev_list s = 0)"
proof (rule tripleI)
  fix s rc s'
  assume P: "books {#} (s\<lparr>dev_list := 0\<rparr>) \<and> fresh 0 s \<and> sock (rsrc s) = - 1 \<and> stdin_of (config s) = C"
    and "resources_create OS V s = Returned (rc, s')"
  then obtain rc1 s1 where c: "create_stages OS V (s\<lparr>dev_list := 0\<rparr>) = Returned (rc1, s1)"
    and s': "(rc, s') = create_exit OS V rc1 s1"
    by (auto simp: resources_create_def)
  have "books C s1" "rc1 = 0 \<longrightarrow> dev_list s1 = 0"
    using tripleD [OF create_stages_books _ c, of C] P by (auto simp: fresh_def)
  from create_exit_books [OF this] show "books C s' \<and> dev_list s' = 0"
    by (metis s' snd_conv)
qed

lemma resources_destroy_releases:
  assumes "books C s" "dev_list s = 0"
  shows "released (trace (host (snd (resources_destroy OS V s)))) =
    acquired (trace (host (snd (resources_destroy OS V s)))) + C"
  using assms
  by (simp add: resources_destroy_def books_def owned_def release_defs call_simps split_def Let_def)

end
