(* ===== verification/C_Numbers.thy ===== *)
theory C_Numbers
  imports CS_Prelude
begin

text \<open>
  Numbers on a command line: the parts of \<open>strtoul\<close>, \<open>strtol\<close> and \<open>strtoll\<close> of the C library that the programs
  share, on a 64-bit machine, and decimal notation to state what they do.
\<close>

section \<open>Characters, signs and digits\<close>

definition is_space :: "char \<Rightarrow> bool" where
  "is_space c \<longleftrightarrow> c = CHR '' '' \<or> (9 \<le> (of_char c :: nat) \<and> (of_char c :: nat) \<le> 13)"

definition digit_val :: "char \<Rightarrow> nat option" where
  "digit_val c =
     (let n = of_char c :: nat
      in if 48 \<le> n \<and> n \<le> 57 then Some (n - 48)
         else if 97 \<le> n \<and> n \<le> 122 then Some (n - 87)
         else if 65 \<le> n \<and> n \<le> 90 then Some (n - 55)
         else None)"

definition is_digit :: "nat \<Rightarrow> char \<Rightarrow> bool" where
  "is_digit b c = (case digit_val c of Some d \<Rightarrow> d < b | None \<Rightarrow> False)"

definition digits_val :: "nat \<Rightarrow> string \<Rightarrow> nat" where
  "digits_val b ds = foldl (\<lambda>n c. n * b + the (digit_val c)) 0 ds"

definition number_sign :: "string \<Rightarrow> bool \<times> string" where
  "number_sign s =
     (case s of
        c # cs \<Rightarrow> if c = CHR ''-'' then (True, cs) else if c = CHR ''+'' then (False, cs) else (False, s)
      | [] \<Rightarrow> (False, s))"

text \<open>\<open>strtol(s, NULL, 10)\<close> and \<open>strtoll(s, NULL, 10)\<close>: white space, a sign and digits, saturated.\<close>

definition strtol10 :: "string \<Rightarrow> int" where
  "strtol10 s =
     (let (neg, s) = number_sign (dropWhile is_space s);
          n = int (digits_val 10 (takeWhile (is_digit 10) s))
      in max (- (2 ^ 63)) (min (2 ^ 63 - 1) (if neg then - n else n)))"

text \<open>The conversion of a \<open>long\<close> or \<open>long long\<close> to \<open>int\<close>.\<close>

definition long_to_int :: "int \<Rightarrow> int" where
  "long_to_int x = sint (word_of_int x :: u32)"

section \<open>Decimal notation\<close>

fun decimal :: "nat \<Rightarrow> string" where
  "decimal n = (if n < 10 then [char_of (48 + n)] else decimal (n div 10) @ [char_of (48 + n mod 10)])"

declare decimal.simps [simp del]

lemma digit_val_char: "d < 10 \<Longrightarrow> digit_val (char_of (48 + d)) = Some d"
  by (simp add: digit_val_def Let_def)

lemma decimal_digits: "\<forall>c \<in> set (decimal n). is_digit 10 c"
  by (induction n rule: decimal.induct) (subst decimal.simps, auto simp: is_digit_def digit_val_char)

lemma digits_val_decimal: "digits_val 10 (decimal n) = n"
  by (induction n rule: decimal.induct)
    (subst decimal.simps, auto simp: digits_val_def digit_val_char)

lemma hd_decimal: "n > 0 \<Longrightarrow> \<exists>(d :: nat) cs. decimal n = char_of (48 + d) # cs \<and> 0 < d \<and> d < 10"
proof (induction n rule: decimal.induct)
  case (1 n)
  show ?case
  proof (cases "n < 10")
    case True
    with 1 show ?thesis
      by (subst decimal.simps) (intro exI [of _ n] exI [of _ "[]"], simp)
  next
    case False
    with 1 obtain d :: nat and cs where "decimal (n div 10) = char_of (48 + d) # cs" "0 < d" "d < 10"
      by (auto simp: div_greater_zero_iff)
    with False show ?thesis
      by (subst decimal.simps) (rule exI [of _ d], simp)
  qed
qed

lemma takeWhile_decimal: "takeWhile (is_digit 10) (decimal n) = decimal n"
  using decimal_digits by (simp add: takeWhile_eq_all_conv)

lemma decimal_head:
  obtains c cs where "decimal n = c # cs" "\<not> is_space c" "c \<noteq> CHR ''-''" "c \<noteq> CHR ''+''"
proof -
  obtain d :: nat and cs where d: "decimal n = char_of (48 + d) # cs" "d < 10"
    using hd_decimal [of n] by (cases "n = 0") (auto simp: decimal.simps [of 0] intro: that [of 0])
  define c :: char where "c = char_of (48 + d)"
  have "of_char c = 48 + d"
    using d(2) by (simp add: c_def)
  then have "\<not> is_space c \<and> c \<noteq> CHR ''-'' \<and> c \<noteq> CHR ''+''"
    by (auto simp: is_space_def)
  then show thesis
    using that [of c cs] d(1) by (simp add: c_def)
qed

lemma strtol10_decimal: "strtol10 (decimal n) = min (2 ^ 63 - 1) (int n)"
proof -
  obtain c cs where c: "decimal n = c # cs" "\<not> is_space c" "c \<noteq> CHR ''-''" "c \<noteq> CHR ''+''"
    by (rule decimal_head)
  then have "number_sign (dropWhile is_space (decimal n)) = (False, decimal n)"
    by (simp add: number_sign_def)
  then show ?thesis
    by (simp add: strtol10_def takeWhile_decimal digits_val_decimal)
qed

section \<open>Truncation to 32 bits\<close>

lemma ucast_of_nat_u32: "(ucast (of_nat n :: u64) :: u32) = of_nat n"
  by transfer simp

lemma of_nat_take_bit_u32: "(of_nat (take_bit 32 n) :: u32) = of_nat n"
  by transfer (simp add: of_nat_take_bit)

lemma signed_take_bit_minus_pow: "signed_take_bit 31 (k - 2 ^ 32 :: int) = signed_take_bit 31 k"
  by (rule signed_take_bit_eq_iff_take_bit_eq [THEN iffD2]) (simp add: take_bit_eq_mod)

lemma sint_u32_of_nat:
  "sint (of_nat n :: u32) = (if n mod 2 ^ 32 < 2 ^ 31 then int (n mod 2 ^ 32) else int (n mod 2 ^ 32) - 2 ^ 32)"
proof -
  define m where "m = n mod 2 ^ 32"
  have m: "m < 2 ^ 32" by (simp add: m_def)
  have "(of_nat n :: u32) = of_nat m"
    using of_nat_take_bit_u32 [of n] by (simp only: m_def take_bit_eq_mod)
  then have s: "sint (of_nat n :: u32) = signed_take_bit 31 (int m)"
    by (simp add: signed_of_nat)
  show ?thesis
  proof (cases "m < 2 ^ 31")
    case True
    then have "signed_take_bit 31 (int m) = int m"
      by (simp add: signed_take_bit_int_eq_self)
    with True s show ?thesis by (simp add: m_def)
  next
    case False
    then have "signed_take_bit 31 (int m) = int m - 2 ^ 32"
      using m signed_take_bit_int_eq_self [of 31 "int m - 2 ^ 32"] signed_take_bit_minus_pow [of "int m"] by simp
    with False s show ?thesis by (simp add: m_def)
  qed
qed

end
