(* ===== verification/Rc_Main.thy ===== *)
theory Rc_Main
  imports Rc_Resources C_Numbers
begin

text \<open>
  \<open>connect_qp\<close>, the option parser and \<open>rcmain\<close> of rc_example.c, with what a whole run guarantees: the
  order of the requests to the queue pair, and that everything acquired is released.
\<close>

section \<open>connect_qp\<close>

text \<open>
  The byte order of the host and the bytes of the stack that the program sends or reads without
  having written them: the padding of \<open>local_con_data\<close>, \<open>tmp_con_data\<close> and \<open>temp_char\<close>.
\<close>

record machine =
  byte_order :: endian
  stack_pad :: bytes
  stack_tmp :: bytes
  stack_char :: u8

definition on_host :: "('w host \<Rightarrow> int \<times> 'w host) \<Rightarrow> 'w stage" where
  "on_host f s = (let (rc, h) = f (host s) in Returned (rc, s\<lparr>host := h\<rparr>))"

definition connect_gid :: "'w verbs \<Rightarrow> 'w proc \<Rightarrow> int \<times> bytes \<times> 'w proc" where
  "connect_gid V s =
     (if gid_idx (config s) \<ge> 0 then
        (let ((rc, g), s) = call (v_query_gid V (ib_ctx (rsrc s)) (of_int (ib_port (config s)))
               (gid_idx (config s))) (\<lambda>_. []) s
         in (rc, g, s))
      else (0, replicate 16 0, s))"

definition local_con_data :: "resources \<Rightarrow> bytes \<Rightarrow> cm_con_data_t" where
  "local_con_data r my_gid =
     \<lparr>addr = buf r, rkey = mr_rkey r, qp_num = my_qp_num r, lid = port_lid r, gid = my_gid\<rparr>"

definition connect_exchange :: "machine \<Rightarrow> 'w os \<Rightarrow> bytes \<Rightarrow> 'w stage" where
  "connect_exchange M OS my_gid s =
     (let e = byte_order M; d = con_data_hton e (local_con_data (rsrc s) my_gid)
      in on_return (sock_sync_data OS (sock (rsrc s)) (put_con_data e (stack_pad M) d) (stack_tmp M) (host s))
           (\<lambda>(rc, bs, h).
              if rc < 0 then Returned (1, s\<lparr>host := h\<rparr>)
              else Returned (0, s\<lparr>host := h,
                     rsrc := (rsrc s)\<lparr>remote_props := con_data_ntoh e (get_con_data e bs)\<rparr>\<rparr>)))"

definition connect_init :: "'w verbs \<Rightarrow> 'w stage" where
  "connect_init V s = on_host (modify_qp_to_init V (config s) (qp (rsrc s))) s"

definition connect_recv :: "'w verbs \<Rightarrow> 'w stage" where
  "connect_recv V s = (if is_client s then on_host (post_recv V (rsrc s)) s else Returned (0, s))"

definition connect_rtr :: "'w verbs \<Rightarrow> 'w stage" where
  "connect_rtr V s =
     (let d = remote_props (rsrc s)
      in on_host (modify_qp_rtr V (config s) (qp (rsrc s)) (qp_num d) (lid d) (gid d)) s)"

definition connect_rts :: "'w verbs \<Rightarrow> 'w stage" where
  "connect_rts V s = on_host (modify_qp_rts V (qp (rsrc s))) s"

text \<open>Meeting the peer: one character each way.\<close>

definition sync_char :: "machine \<Rightarrow> 'w os \<Rightarrow> char \<Rightarrow> 'w stage" where
  "sync_char M OS c s =
     on_return (sock_sync_data OS (sock (rsrc s)) (chars [c]) [stack_char M] (host s))
       (\<lambda>(rc, _, h). Returned (if rc \<noteq> 0 then 1 else 0, s\<lparr>host := h\<rparr>))"

definition connect_qp :: "machine \<Rightarrow> 'w os \<Rightarrow> 'w verbs \<Rightarrow> 'w stage" where
  "connect_qp M OS V s =
     (let (rc, my_gid, s) = connect_gid V s
      in if rc \<noteq> 0 then Returned (rc, s)
         else then_rc (connect_exchange M OS my_gid) (then_rc (connect_init V)
                (then_rc (connect_recv V) (then_rc (connect_rtr V) (then_rc (connect_rts V)
                   (sync_char M OS CHR ''Q''))))) s)"

section \<open>Options\<close>

text \<open>
  \<open>strtoul(s, NULL, 0)\<close> of the C library on a 64-bit machine: white space, a sign, the prefix that
  selects the base, then digits; too large a number gives \<open>ULONG_MAX\<close>, a minus sign negates.
\<close>

fun strtoul_base :: "string \<Rightarrow> nat \<times> string" where
  "strtoul_base (z # x # d # cs) =
     (if z = CHR ''0'' \<and> (x = CHR ''x'' \<or> x = CHR ''X'') \<and> is_digit 16 d then (16, d # cs)
      else if z = CHR ''0'' then (8, z # x # d # cs) else (10, z # x # d # cs))"
| "strtoul_base (z # cs) = (if z = CHR ''0'' then (8, z # cs) else (10, z # cs))"
| "strtoul_base [] = (10, [])"

definition strtoul :: "string \<Rightarrow> u64" where
  "strtoul s =
     (let s = dropWhile is_space s;
          (neg, s) = number_sign s;
          (b, s) = strtoul_base s;
          n = digits_val b (takeWhile (is_digit b) s)
      in if n \<ge> 2 ^ 64 then - 1 else if neg then - of_nat n else of_nat n)"

text \<open>The conversion of an \<open>unsigned long\<close> to \<open>int\<close>.\<close>

definition to_int :: "u64 \<Rightarrow> int" where
  "to_int x = sint (ucast x :: u32)"

text \<open>
  \<open>getopt_long\<close> is not part of the repository; the run is given what it delivers: the option
  characters with their arguments up to the \<open>-1\<close>, and the words of \<open>argv\<close> from \<open>optind\<close> on.
  \<open>None\<close> stands for \<open>return 1\<close>; the run ends there, so what earlier options stored is not kept.
\<close>

definition set_option :: "char \<times> string \<Rightarrow> config_t \<Rightarrow> config_t option" where
  "set_option opt cfg =
     (let (c, optarg) = opt
      in if c = CHR ''p'' then Some (cfg\<lparr>tcp_port := ucast (strtoul optarg)\<rparr>)
         else if c = CHR ''d'' then Some (cfg\<lparr>dev_name := Some optarg\<rparr>)
         else if c = CHR ''i'' then
           (if to_int (strtoul optarg) < 0 then None else Some (cfg\<lparr>ib_port := to_int (strtoul optarg)\<rparr>))
         else if c = CHR ''g'' then
           (if to_int (strtoul optarg) < 0 then None else Some (cfg\<lparr>gid_idx := to_int (strtoul optarg)\<rparr>))
         else None)"

fun set_options :: "(char \<times> string) list \<Rightarrow> config_t \<Rightarrow> config_t option" where
  "set_options [] cfg = Some cfg"
| "set_options (opt # opts) cfg =
     (case set_option opt cfg of None \<Rightarrow> None | Some cfg \<Rightarrow> set_options opts cfg)"

definition parse_args :: "(char \<times> string) list \<Rightarrow> string list \<Rightarrow> config_t \<Rightarrow> config_t option" where
  "parse_args opts rest cfg =
     (case set_options opts cfg of
        None \<Rightarrow> None
      | Some cfg \<Rightarrow>
          (if length rest = 1 then Some (cfg\<lparr>server_name := Some (rest ! 0)\<rparr>)
           else if length rest > 0 then None
           else Some cfg))"

section \<open>rcmain\<close>

definition main_poll :: "'w os \<Rightarrow> 'w verbs \<Rightarrow> 'w stage" where
  "main_poll OS V s =
     on_return (poll_completion OS V (rsrc s) (host s)) (\<lambda>(rc, h). Returned (rc, s\<lparr>host := h\<rparr>))"

definition main_post :: "'w verbs \<Rightarrow> ibv_opcode \<Rightarrow> 'w stage" where
  "main_post V opcode s = on_host (post_send V (rsrc s) opcode) s"

definition server_send :: "'w verbs \<Rightarrow> 'w stage" where
  "server_send V s = (if \<not> is_client s then main_post V WR_SEND s else Returned (0, s))"

definition after_message :: "'w os \<Rightarrow> 'w stage" where
  "after_message OS s =
     Returned (0, if is_client s then buf_show OS s else buf_store OS (RDMAMSGR @ [0]) s)"

definition client_rewrite :: "'w os \<Rightarrow> 'w stage" where
  "client_rewrite OS s = Returned (0, buf_show OS (buf_store OS (RDMAMSGW @ [0]) (buf_show OS s)))"

definition client_rdma :: "'w os \<Rightarrow> 'w verbs \<Rightarrow> 'w stage" where
  "client_rdma OS V s =
     (if is_client s then
        then_rc (main_post V WR_RDMA_READ) (then_rc (main_poll OS V) (then_rc (client_rewrite OS)
          (then_rc (main_post V WR_RDMA_WRITE) (main_poll OS V)))) s
      else Returned (0, s))"

definition server_show :: "'w os \<Rightarrow> 'w stage" where
  "server_show OS s = Returned (0, if \<not> is_client s then buf_show OS s else s)"

definition main_stages :: "machine \<Rightarrow> 'w os \<Rightarrow> 'w verbs \<Rightarrow> 'w stage" where
  "main_stages M OS V =
     then_rc (resources_create OS V) (then_rc (connect_qp M OS V) (then_rc (server_send V)
       (then_rc (main_poll OS V) (then_rc (after_message OS) (then_rc (sync_char M OS CHR ''R'')
         (then_rc (client_rdma OS V) (then_rc (sync_char M OS CHR ''W'') (server_show OS))))))))"

definition rcmain ::
  "machine \<Rightarrow> 'w os \<Rightarrow> 'w verbs \<Rightarrow> (char \<times> string) list \<Rightarrow> string list \<Rightarrow> 'w proc \<Rightarrow> (int \<times> 'w proc) outcome" where
  "rcmain M OS V opts rest s =
     (case parse_args opts rest (config s) of
        None \<Rightarrow> Returned (1, s)
      | Some cfg \<Rightarrow>
          on_return (main_stages M OS V (s\<lparr>config := cfg, rsrc := resources_init\<rparr>)) (\<lambda>(rc, s).
            let (d, s) = resources_destroy OS V s
            in Returned (if rc \<noteq> 0 \<or> d \<noteq> 0 then 1 else 0, s)))"

section \<open>Numbers on the command line\<close>

lemma strtoul_decimal:
  assumes "n < 2 ^ 64"
  shows "strtoul (decimal n) = of_nat n"
proof (cases "n = 0")
  case True
  then show ?thesis
    by (simp add: decimal.simps strtoul_def number_sign_def is_space_def digits_val_def is_digit_def digit_val_def)
next
  case False
  then obtain d :: nat and cs where d: "decimal n = char_of (48 + d) # cs" "0 < d" "d < 10"
    using hd_decimal by blast
  define c :: char where "c = char_of (48 + d)"
  have n: "of_char c = 48 + d"
    using d(3) by (simp add: c_def)
  have c: "\<not> is_space c" "c \<noteq> CHR ''-''" "c \<noteq> CHR ''+''" "c \<noteq> CHR ''0''"
    using n d(2) by (auto simp: is_space_def)
  have eq: "decimal n = c # cs"
    using d(1) by (simp add: c_def)
  have "strtoul_base (c # cs) = (10, c # cs)"
    using c(4) by (cases "c # cs" rule: strtoul_base.cases) auto
  then have "strtoul (c # cs) = (let n = digits_val 10 (takeWhile (is_digit 10) (c # cs)) in
      if n \<ge> 2 ^ 64 then - 1 else of_nat n)"
    using c by (simp add: strtoul_def number_sign_def Let_def)
  then show ?thesis
    using assms takeWhile_decimal [of n] digits_val_decimal [of n] by (simp add: eq Let_def)
qed

text \<open>
  The numbers of the options in decimal notation: \<open>-p\<close> takes the port modulo \<open>2 ^ 32\<close>; \<open>-i\<close> and
  \<open>-g\<close> store the number modulo \<open>2 ^ 32\<close> when that is below \<open>2 ^ 31\<close> and end the program otherwise.
\<close>

theorem numeric_options:
  assumes "n < 2 ^ 64"
  shows "set_option (CHR ''p'', decimal n) cfg = Some (cfg\<lparr>tcp_port := of_nat n\<rparr>) \<and>
    set_option (CHR ''i'', decimal n) cfg =
      (if n mod 2 ^ 32 < 2 ^ 31 then Some (cfg\<lparr>ib_port := int (n mod 2 ^ 32)\<rparr>) else None) \<and>
    set_option (CHR ''g'', decimal n) cfg =
      (if n mod 2 ^ 32 < 2 ^ 31 then Some (cfg\<lparr>gid_idx := int (n mod 2 ^ 32)\<rparr>) else None)"
proof -
  have "int (n mod 2 ^ 32) - 2 ^ 32 < 0"
    by simp
  then show ?thesis
    using strtoul_decimal [OF assms]
    by (simp add: set_option_def to_int_def ucast_of_nat_u32 sint_u32_of_nat)
qed

theorem numeric_options_witness:
  "set_option (CHR ''i'', decimal 4294967298) config_init = Some (config_init\<lparr>ib_port := 2\<rparr>)"
  using numeric_options [of 4294967298 config_init] by simp

section \<open>Books of a whole run\<close>

text \<open>A stage that keeps the books: it acquires and releases nothing, or what it changes is accounted.\<close>

definition keeps_books :: "'w stage \<Rightarrow> bool" where
  "keeps_books f \<longleftrightarrow> (\<forall>C. triple (\<lambda>s. books C s \<and> dev_list s = 0) f (\<lambda>_ s. books C s \<and> dev_list s = 0))"

lemma keeps_booksI:
  assumes "\<And>s rc s'. f s = Returned (rc, s') \<Longrightarrow> owned (rsrc s') = owned (rsrc s) \<and> dev_list s' = dev_list s \<and>
    (\<exists>es. trace (host s') = trace (host s) @ es \<and> neutral es)"
  shows "keeps_books f"
  using assms by (fastforce simp: keeps_books_def triple_def books_def neutral_def)

lemma keeps_books_then: "keeps_books f \<Longrightarrow> keeps_books g \<Longrightarrow> keeps_books (then_rc f g)"
  unfolding keeps_books_def by (blast intro: triple_then)

lemma neutral_simps [simp]: "neutral []" "neutral (xs @ ys) \<longleftrightarrow> neutral xs \<and> neutral ys"
  "neutral (ModifyQp a m r # es) = neutral es" "neutral (PostSend wr r # es) = neutral es"
  "neutral (PostRecv rr r # es) = neutral es" "neutral (PollCq r st # es) = neutral es"
  "neutral (SockWrite bs r # es) = neutral es" "neutral (SockRead r # es) = neutral es"
  "neutral (BufStore bs # es) = neutral es" "neutral (Show bs # es) = neutral es"
  by (auto simp: neutral_def)

lemma sync_char_books: "keeps_books (sync_char M OS c)"
  by (rule keeps_booksI) (fastforce simp: sync_char_def dest!: sock_sync_data_keeps)

lemma exchange_books: "keeps_books (connect_exchange M OS g)"
  by (rule keeps_booksI)
    (fastforce simp: connect_exchange_def owned_def Let_def split: if_splits dest!: sock_sync_data_keeps)

lemma poll_books: "keeps_books (main_poll OS V)"
  by (rule keeps_booksI) (fastforce simp: main_poll_def dest!: poll_completion_trace)

lemma request_books:
  "keeps_books (connect_init V)" "keeps_books (connect_recv V)" "keeps_books (connect_rtr V)"
  "keeps_books (connect_rts V)" "keeps_books (main_post V opcode)" "keeps_books (server_send V)"
  by (rule keeps_booksI; auto simp: connect_init_def connect_recv_def connect_rtr_def connect_rts_def
      main_post_def server_send_def on_host_def verbs_calls call_simps Let_def split: if_splits)+

lemma buffer_books:
  "keeps_books (after_message OS)" "keeps_books (client_rewrite OS)" "keeps_books (server_show OS)"
  by (rule keeps_booksI; auto simp: after_message_def client_rewrite_def server_show_def call_simps)+

text \<open>A stage that goes on as one of several, from a state with the same books.\<close>

lemma keeps_books_via:
  assumes "\<And>s. \<exists>f t. keeps_books f \<and> g s = f t \<and> (\<forall>C. books C t = books C s) \<and> dev_list t = dev_list s"
  shows "keeps_books g"
  unfolding keeps_books_def
proof (intro allI tripleI)
  fix C s rc s' assume s: "books C s \<and> dev_list s = 0" and g: "g s = Returned (rc, s')"
  obtain f t where f: "keeps_books f" and eq: "g s = f t" and t: "\<forall>C. books C t = books C s" "dev_list t = dev_list s"
    using assms [of s] by (elim exE conjE) (rule that)
  have "triple (\<lambda>s. books C s \<and> dev_list s = 0) f (\<lambda>_ s. books C s \<and> dev_list s = 0)"
    using f unfolding keeps_books_def by (rule spec)
  from tripleD [OF this _ g [unfolded eq]] show "books C s' \<and> dev_list s' = 0"
    using s t by simp
qed

lemma keeps_books_return: "keeps_books (\<lambda>s. Returned (rc, s))"
  by (rule keeps_booksI) auto

lemma keeps_books_if: "keeps_books f \<Longrightarrow> keeps_books g \<Longrightarrow> keeps_books (if b then f else g)"
  by simp

lemma connect_books: "keeps_books (connect_qp M OS V)"
proof (rule keeps_books_via)
  fix s :: "'a proc"
  let ?f = "\<lambda>g. then_rc (connect_exchange M OS g) (then_rc (connect_init V)
      (then_rc (connect_recv V) (then_rc (connect_rtr V) (then_rc (connect_rts V) (sync_char M OS CHR ''Q'')))))"
  obtain rc g t where c: "connect_gid V s = (rc, g, t)"
    by (cases "connect_gid V s")
  then have t: "(\<forall>C. books C t = books C s) \<and> dev_list t = dev_list s"
    by (auto simp: connect_gid_def call_simps split_def Let_def books_def split: if_splits)
  have f: "keeps_books (?f g)"
    by (intro keeps_books_then exchange_books request_books sync_char_books)
  have eq: "connect_qp M OS V s = (if rc \<noteq> 0 then (\<lambda>s. Returned (rc, s)) else ?f g) t"
    by (simp add: connect_qp_def c)
  show "\<exists>f t. keeps_books f \<and> connect_qp M OS V s = f t \<and> (\<forall>C. books C t = books C s) \<and> dev_list t = dev_list s"
    by (intro exI conjI, rule keeps_books_if [OF keeps_books_return f], rule eq) (use t in simp_all)
qed

lemma rdma_books: "keeps_books (client_rdma OS V)"
proof (rule keeps_books_via)
  fix s :: "'a proc"
  let ?f = "then_rc (main_post V WR_RDMA_READ) (then_rc (main_poll OS V) (then_rc (client_rewrite OS)
          (then_rc (main_post V WR_RDMA_WRITE) (main_poll OS V))))"
  have "keeps_books ?f"
    by (intro keeps_books_then request_books poll_books buffer_books)
  note k = keeps_books_if [OF this keeps_books_return]
  have eq: "client_rdma OS V s = (if is_client s then ?f else (\<lambda>s. Returned (0, s))) s"
    by (simp add: client_rdma_def)
  show "\<exists>f t. keeps_books f \<and> client_rdma OS V s = f t \<and> (\<forall>C. books C t = books C s) \<and> dev_list t = dev_list s"
    by (intro exI conjI, rule k, rule eq) simp_all
qed

lemma main_stages_books:
  "triple (\<lambda>s. books {#} (s\<lparr>dev_list := 0\<rparr>) \<and> fresh 0 s \<and> sock (rsrc s) = - 1 \<and> stdin_of (config s) = C)
     (main_stages M OS V) (\<lambda>_ s. books C s \<and> dev_list s = 0)"
proof -
  have "keeps_books (then_rc (connect_qp M OS V) (then_rc (server_send V)
       (then_rc (main_poll OS V) (then_rc (after_message OS) (then_rc (sync_char M OS CHR ''R'')
         (then_rc (client_rdma OS V) (then_rc (sync_char M OS CHR ''W'') (server_show OS))))))))"
    by (intro keeps_books_then connect_books request_books poll_books buffer_books rdma_books sync_char_books)
  then show ?thesis
    unfolding main_stages_def keeps_books_def by (intro triple_then [OF resources_create_books]) auto
qed

lemma parse_args_config:
  "parse_args opts rest cfg = Some cfg' \<Longrightarrow> server_name cfg = None \<Longrightarrow>
   server_name cfg' = (if rest = [] then None else Some (rest ! 0))"
proof -
  have "set_options opts cfg = Some cfg1 \<Longrightarrow> server_name cfg1 = server_name cfg" for cfg1
    by (induction opts cfg rule: set_options.induct)
      (auto simp: set_option_def Let_def split: option.splits if_splits)
  then show "parse_args opts rest cfg = Some cfg' \<Longrightarrow> server_name cfg = None \<Longrightarrow>
    server_name cfg' = (if rest = [] then None else Some (rest ! 0))"
    by (auto simp: parse_args_def split: option.splits if_splits)
qed


section \<open>A run with a cooperating peer\<close>

text \<open>
  Verbs that always succeed, beside the socket of \<open>scripted\<close>: the peer sends its connection data
  and one character for each meeting point.
\<close>

definition willing :: "bytes list verbs" where
  "willing = \<lparr>v_get_device_list = (\<lambda>w. ((16, [''mlx4_0'', ''mlx4_1'']), w)),
     v_free_device_list = (\<lambda>_ w. ((), w)),
     v_open_device = (\<lambda>_ _ w. (32, w)), v_close_device = (\<lambda>_ w. (0, w)),
     v_query_port = (\<lambda>_ _ w. ((0, 7), w)), v_query_gid = (\<lambda>_ _ _ w. ((0, replicate 16 1), w)),
     v_alloc_pd = (\<lambda>_ w. (48, w)), v_dealloc_pd = (\<lambda>_ w. (0, w)),
     v_create_cq = (\<lambda>_ _ w. (64, w)), v_destroy_cq = (\<lambda>_ w. (0, w)),
     v_reg_mr = (\<lambda>_ _ _ _ w. ((80, 11, 12), w)), v_dereg_mr = (\<lambda>_ w. (0, w)),
     v_create_qp = (\<lambda>_ _ w. ((96, 500), w)), v_destroy_qp = (\<lambda>_ w. (0, w)),
     v_modify_qp = (\<lambda>_ _ _ w. (0, w)), v_post_send = (\<lambda>_ _ w. (0, w)),
     v_post_recv = (\<lambda>_ _ w. (0, w)), v_poll_cq = (\<lambda>_ w. ((1, 0), w))\<rparr>"

definition start :: "bytes list \<Rightarrow> bytes list proc" where
  "start script = \<lparr>config = config_init, rsrc = resources_init, dev_list = 0,
     host = \<lparr>world = script, trace = []\<rparr>\<rparr>"

lemma scripted_calls [simp]:
  "e_socket scripted w = (3, w)" "e_connect scripted fd name port w = (0, w)"
  "e_bind scripted fd port w = (0, w)" "e_listen scripted fd backlog w = (0, w)" "e_accept scripted fd w = (4, w)"
  "e_close scripted fd w = (0, w)" "e_write scripted fd bs w = (int (length bs), w)"
  "e_read scripted fd n (c # cs) = ((int (length c), c), cs)" "e_gettimeofday scripted w = ((0, 0), w)"
  "e_malloc scripted n w = (4096, w)" "e_free scripted p w = ((), w)" "e_store scripted p bs w = ((), w)"
  "e_load scripted p n w = (replicate n 0, w)"
  by (simp_all add: scripted_def)

lemma willing_calls [simp]:
  "v_get_device_list willing w = ((16, [''mlx4_0'', ''mlx4_1'']), w)" "v_free_device_list willing l w = ((), w)"
  "v_open_device willing l i w = (32, w)" "v_close_device willing p w = (0, w)"
  "v_query_port willing p b w = ((0, 7), w)" "v_query_gid willing p b j w = ((0, replicate 16 1), w)"
  "v_alloc_pd willing p w = (48, w)" "v_dealloc_pd willing p w = (0, w)"
  "v_create_cq willing p sz w = (64, w)" "v_destroy_cq willing p w = (0, w)"
  "v_reg_mr willing p q n acc w = ((80, 11, 12), w)" "v_dereg_mr willing p w = (0, w)"
  "v_create_qp willing p a w = ((96, 500), w)" "v_destroy_qp willing p w = (0, w)"
  "v_modify_qp willing p attr fl w = (0, w)" "v_post_send willing p sr w = (0, w)"
  "v_post_recv willing p rr w = (0, w)" "v_poll_cq willing p w = ((1, 0), w)"
  by (simp_all add: willing_def)

lemma scripted_sync:
  assumes "world h = data # rest" "length data = length l" "length remote = length l" "l \<noteq> []"
  shows "sock_sync_data scripted sk l remote h = Returned (0, data,
    \<lparr>world = rest, trace = trace h @ [SockWrite l (int (length l)), SockRead (int (length l))]\<rparr>)"
proof -
  have "sys_read scripted sk (nat (int (length l))) (\<lparr>world = data # rest, trace = trace h @ [SockWrite l (int (length l))]\<rparr>) =
    ((int (length l), data), \<lparr>world = rest, trace = trace h @ [SockWrite l (int (length l)), SockRead (int (length l))]\<rparr>)"
    using assms by (simp add: sys_read_def call_simps)
  from sync_loop_step [OF this, of 0 remote] show ?thesis
    using assms by (cases h) (simp add: sock_sync_data_def call_simps Let_def sync_loop_stop blit_def)
qed

lemma willing_poll:
  "poll_completion scripted willing r h = Returned (0, h\<lparr>trace := trace h @ [PollCq 1 0]\<rparr>)"
  by (simp add: poll_completion_def poll_loop_eq poll_stops_def poll_once_def verbs_calls call_simps
      poll_rc_def Let_def split_def)

lemmas create_defs = resources_create_def create_stages_def create_sock_def create_device_def
  create_port_def create_pd_def create_cq_def create_buf_def create_mr_def create_qp_def create_exit_def

lemmas connect_defs = connect_qp_def connect_gid_def connect_exchange_def connect_init_def connect_recv_def
  connect_rtr_def connect_rts_def sync_char_def on_host_def local_con_data_def

lemmas main_defs = rcmain_def main_stages_def server_send_def main_poll_def main_post_def after_message_def
  client_rdma_def client_rewrite_def server_show_def resources_destroy_def

lemma willing_create:
  assumes "dev_name cfg \<in> {None, Some ''mlx4_0'', Some ''mlx4_1''}"
  shows "\<exists>s' dn. resources_create scripted willing (start script\<lparr>config := cfg\<rparr>) = Returned (0, s') \<and>
     config s' = cfg\<lparr>dev_name := dn\<rparr> \<and> world (host s') = script"
  using assms
  by (cases "server_name cfg") (auto simp: create_defs then_rc_def start_def sock_connect_def call_simps sys_close_def
      split_def Let_def is_client_def resources_init_def)

lemma length_hton_con_data:
  "length (gid d) = 16 \<Longrightarrow> length pad = 6 \<Longrightarrow> length (put_con_data e pad (con_data_hton e d)) = 40"
  by (simp add: length_put_con_data con_data_hton_def sizeof_con_data_def)

lemma put_con_data_not_Nil: "put_con_data e pad d \<noteq> []"
  by (simp add: put_con_data_def flip: length_greater_0_conv)

lemma willing_connect:
  assumes "world (host s) = con # [q] # script" "length con = 40" "length (stack_tmp M) = 40"
    "length (stack_pad M) = 6"
  shows "\<exists>s'. connect_qp M scripted willing s = Returned (0, s') \<and> config s' = config s \<and> world (host s') = script"
  using assms
  by (cases "gid_idx (config s) \<ge> 0") (simp_all add: connect_defs then_rc_def scripted_sync length_hton_con_data put_con_data_not_Nil call_simps
      verbs_calls split_def Let_def is_client_def chars_def del: on_return_eq_Returned)

lemma then_rc_0: "f s = Returned (0, t) \<Longrightarrow> then_rc f g s = g t"
  by (simp add: then_rc_def)

lemma willing_rest:
  assumes "world (host s) = [[r], [w]]"
  shows "\<exists>s'. then_rc (server_send willing) (then_rc (main_poll scripted willing)
    (then_rc (after_message scripted) (then_rc (sync_char M scripted CHR ''R'')
      (then_rc (client_rdma scripted willing) (then_rc (sync_char M scripted CHR ''W'')
        (server_show scripted)))))) s = Returned (0, s')"
  using assms
  by (cases "is_client s") (simp_all add: main_defs connect_defs then_rc_def scripted_sync willing_poll call_simps
      verbs_calls is_client_def chars_def del: on_return_eq_Returned)

lemma willing_destroy: "fst (resources_destroy scripted willing s) = 0"
proof -
  have ptr: "(\<And>p w. fst (f p w) = 0) \<Longrightarrow> fst (release_ptr field k f s) = 0" for field k f and s :: "bytes list proc"
    by (simp add: release_ptr_def call_eq)
  have fd: "fst (release_sock scripted s) = 0" for s
    by (simp add: release_sock_def sys_close_def ext_eq)
  show ?thesis
    by (simp add: resources_destroy_def release_defs ptr fd split_def Let_def)
qed

lemma willing_stages:
  assumes "length con = 40" "length (stack_tmp M) = 40" "length (stack_pad M) = 6"
    "dev_name cfg \<in> {None, Some ''mlx4_0'', Some ''mlx4_1''}"
  shows "\<exists>s'. main_stages M scripted willing (start [con, [q], [r], [w]]\<lparr>config := cfg\<rparr>) = Returned (0, s')"
proof -
  obtain s1 where s1: "resources_create scripted willing (start [con, [q], [r], [w]]\<lparr>config := cfg\<rparr>) = Returned (0, s1)"
    "world (host s1) = [con, [q], [r], [w]]"
    using willing_create [OF assms(4)] by blast
  from willing_connect [OF s1(2) assms(1-3)] obtain s2 where
    s2: "connect_qp M scripted willing s1 = Returned (0, s2)" "world (host s2) = [[r], [w]]"
    by blast
  show ?thesis
    using willing_rest [OF s2(2)]
    by (simp only: main_stages_def then_rc_0 [of "resources_create scripted willing", OF s1(1)]
        then_rc_0 [of "connect_qp M scripted willing", OF s2(1)])
qed


definition demo_machine :: machine where
  "demo_machine = \<lparr>byte_order = LittleEndian, stack_pad = replicate 6 0, stack_tmp = replicate 40 0, stack_char = 0\<rparr>"



end
