(* ===== verification/Rc_Protocol.thy ===== *)
theory Rc_Protocol
  imports Rc_Main
begin

text \<open>
  The order of the requests a run of \<open>rcmain\<close> makes to the queue pair. The state machine of a
  reliable connection is an automaton on the events of the trace; a run never makes a request that
  the automaton does not accept, and a run that returns 0 has made exactly the requests of its role.
\<close>

section \<open>The queue pair as an automaton\<close>

text \<open>
  A state: the queue pair state and the number of work requests whose completion has not been
  polled. The queue pair moves RESET, INIT, RTR, RTS; a receive request needs at least INIT, a send
  request needs RTS; with one entry in the send queue, the receive queue and the completion queue,
  a request is only accepted when none is outstanding.
\<close>

type_synonym link = "ibv_qp_state \<times> nat"

fun qp_next :: "ibv_qp_state \<Rightarrow> ibv_qp_state option" where
  "qp_next QPS_RESET = Some QPS_INIT"
| "qp_next QPS_INIT = Some QPS_RTR"
| "qp_next QPS_RTR = Some QPS_RTS"
| "qp_next QPS_RTS = None"

text \<open>The attributes that the verbs interface requires for a transition.\<close>

fun required :: "ibv_qp_state \<Rightarrow> ibv_qp_mask set" where
  "required QPS_RESET = {QP_STATE}"
| "required QPS_INIT = {QP_STATE, QP_PKEY_INDEX, QP_PORT, QP_ACCESS_FLAGS}"
| "required QPS_RTR = {QP_STATE, QP_AV, QP_PATH_MTU, QP_DEST_QPN, QP_RQ_PSN, QP_MAX_DEST_RD_ATOMIC,
     QP_MIN_RNR_TIMER}"
| "required QPS_RTS = {QP_STATE, QP_TIMEOUT, QP_RETRY_CNT, QP_RNR_RETRY, QP_SQ_PSN, QP_MAX_QP_RD_ATOMIC}"

inductive link_step :: "link \<Rightarrow> event \<Rightarrow> link \<Rightarrow> bool" where
  modified: "qp_next st = Some (qp_state a) \<Longrightarrow> required (qp_state a) \<subseteq> m \<Longrightarrow>
    link_step (st, n) (ModifyQp a m 0) (qp_state a, n)"
| not_modified: "qp_next st = Some (qp_state a) \<Longrightarrow> required (qp_state a) \<subseteq> m \<Longrightarrow> rc \<noteq> 0 \<Longrightarrow>
    link_step (st, n) (ModifyQp a m rc) (st, n)"
| recv_posted: "st \<noteq> QPS_RESET \<Longrightarrow> link_step (st, 0) (PostRecv rr 0) (st, Suc 0)"
| recv_refused: "st \<noteq> QPS_RESET \<Longrightarrow> rc \<noteq> 0 \<Longrightarrow> link_step (st, 0) (PostRecv rr rc) (st, 0)"
| send_posted: "link_step (QPS_RTS, 0) (PostSend sr 0) (QPS_RTS, Suc 0)"
| send_refused: "rc \<noteq> 0 \<Longrightarrow> link_step (QPS_RTS, 0) (PostSend sr rc) (QPS_RTS, 0)"
| completion: "r > 0 \<Longrightarrow> link_step (st, n) (PollCq r status) (st, n - 1)"
| no_completion: "r \<le> 0 \<Longrightarrow> link_step (st, n) (PollCq r status) (st, n)"
| acquire: "link_step l (Acquire x) l"
| release: "link_step l (Release x) l"
| sock_write: "link_step l (SockWrite bs r) l"
| sock_read: "link_step l (SockRead r) l"
| buf_store: "link_step l (BufStore bs) l"
| shown: "link_step l (Show bs) l"

inductive accepts :: "link \<Rightarrow> event list \<Rightarrow> link \<Rightarrow> bool" where
  accepts_nil: "accepts l [] l"
| accepts_snoc: "accepts l es l' \<Longrightarrow> link_step l' e l'' \<Longrightarrow> accepts l (es @ [e]) l''"

inductive_simps accepts_snoc_simps [simp]: "accepts l (es @ [e]) l''"

lemmas accepts_intros [intro] = accepts.intros link_step.intros

lemma accepts_trans: "accepts l es l' \<Longrightarrow> accepts l' fs l'' \<Longrightarrow> accepts l (es @ fs) l''"
proof (induction fs arbitrary: l'' rule: rev_induct)
  case Nil
  then show ?case by (auto elim: accepts.cases)
next
  case (snoc f fs)
  then show ?case by (auto simp flip: append_assoc)
qed

lemma accepts_one: "link_step l e l' \<Longrightarrow> accepts l [e] l'"
  by (metis accepts_snoc accepts_nil append_Nil)

lemma accepts_many: "(\<And>e. e \<in> set es \<Longrightarrow> link_step l e l) \<Longrightarrow> accepts l es l"
  by (induction es rule: rev_induct) (force intro: accepts_snoc simp del: accepts_snoc_simps)+

text \<open>Polling takes at most one completion away.\<close>

lemma accepts_polls: "\<exists>k \<le> n. accepts (st, n) (map (\<lambda>(r, s). PollCq r s) ps) (st, k)"
proof (induction ps arbitrary: n)
  case (Cons p ps)
  obtain r s where p: "p = (r, s)" by (cases p)
  have "\<exists>k \<le> n. link_step (st, n) (PollCq r s) (st, k)"
    using completion [of r st n s] no_completion [of r st n s] by (cases "r > 0") (auto intro: diff_le_self)
  then obtain k where k: "k \<le> n" "link_step (st, n) (PollCq r s) (st, k)" by blast
  with Cons obtain j where j: "j \<le> k" "accepts (st, k) (map (\<lambda>(r, s). PollCq r s) ps) (st, j)" by blast
  with accepts_trans [OF accepts_one [OF k(2)] j(2)] k(1) show ?case
    by (intro exI [of _ j]) (simp add: p)
qed auto

section \<open>Requests of a run\<close>

fun is_request :: "event \<Rightarrow> bool" where
  "is_request (ModifyQp a m rc) = True"
| "is_request (PostSend sr rc) = True"
| "is_request (PostRecv rr rc) = True"
| "is_request _ = False"

definition requests :: "event list \<Rightarrow> event list" where
  "requests es = filter is_request es"

text \<open>The requests of a role, all successful, for the resources and the peer's data in \<open>r\<close>.\<close>

definition send_request :: "resources \<Rightarrow> ibv_opcode \<Rightarrow> event" where
  "send_request r opcode =
     PostSend \<lparr>sr_addr = buf r, sr_length = MSG_SIZE, sr_lkey = mr_lkey r, sr_opcode = opcode,
       sr_signaled = True, sr_remote_addr = (if opcode = WR_SEND then 0 else addr (remote_props r)),
       sr_rkey = (if opcode = WR_SEND then 0 else rkey (remote_props r))\<rparr> 0"

definition recv_request :: "resources \<Rightarrow> event" where
  "recv_request r = PostRecv \<lparr>rr_addr = buf r, rr_length = MSG_SIZE, rr_lkey = mr_lkey r\<rparr> 0"

definition connect_requests :: "config_t \<Rightarrow> resources \<Rightarrow> event list" where
  "connect_requests cfg r =
     [ModifyQp (init_attr cfg) (required QPS_INIT) 0] @
     (if server_name cfg = None then [] else [recv_request r]) @
     [ModifyQp (rtr_attr cfg (qp_num (remote_props r)) (lid (remote_props r)) (gid (remote_props r)))
        (required QPS_RTR) 0,
      ModifyQp rts_attr (required QPS_RTS) 0]"

definition role_requests :: "config_t \<Rightarrow> resources \<Rightarrow> event list" where
  "role_requests cfg r = connect_requests cfg r @
     (if server_name cfg = None then [send_request r WR_SEND]
      else [send_request r WR_RDMA_READ, send_request r WR_RDMA_WRITE])"

section \<open>What the stages do to the link\<close>

text \<open>The trace so far is accepted; the second assertion also fixes the requests and the resources.\<close>

definition legal :: "'w proc \<Rightarrow> bool" where
  "legal s \<longleftrightarrow> (\<exists>l. accepts (QPS_RESET, 0) (trace (host s)) l)"

definition at_link :: "config_t \<Rightarrow> resources \<Rightarrow> link \<Rightarrow> event list \<Rightarrow> 'w proc \<Rightarrow> bool" where
  "at_link cfg r l R s \<longleftrightarrow> config s = cfg \<and> rsrc s = r \<and>
     accepts (QPS_RESET, 0) (trace (host s)) l \<and> requests (trace (host s)) = R"

definition quiet :: "event list \<Rightarrow> bool" where
  "quiet es \<longleftrightarrow> (\<forall>e \<in> set es. \<forall>l. link_step l e l \<and> \<not> is_request e)"

lemma quiet_simps [simp]: "quiet []" "quiet (xs @ ys) \<longleftrightarrow> quiet xs \<and> quiet ys"
  "quiet (Acquire x # es) = quiet es" "quiet (Release x # es) = quiet es"
  "quiet (SockWrite bs r # es) = quiet es" "quiet (SockRead r # es) = quiet es"
  "quiet (BufStore bs # es) = quiet es" "quiet (Show bs # es) = quiet es"
  "quiet (acquire_ptr k p)" "quiet (acquire_fd fd)" "quiet (map SockRead rs)"
  by (auto simp: quiet_def acquire_ptr_def acquire_fd_def)

lemma quiet_at_link:
  assumes "at_link cfg r l R s" "trace (host s') = trace (host s) @ es" "quiet es" "config s' = cfg" "rsrc s' = r'"
  shows "at_link cfg r' l R s'"
proof -
  have "accepts l es l"
    using assms(3) unfolding quiet_def by (intro accepts_many) blast
  then show ?thesis
    using assms by (auto simp: at_link_def quiet_def requests_def filter_empty_conv intro: accepts_trans)
qed

lemma at_link_legal: "at_link cfg r l R s \<Longrightarrow> legal s"
  unfolding at_link_def legal_def by blast

lemma request_at_link:
  assumes "at_link cfg r l R s" "trace (host s') = trace (host s) @ [e]" "link_step l e l'" "is_request e"
    "config s' = cfg" "rsrc s' = r"
  shows "at_link cfg r l' (R @ [e]) s'"
  using assms by (auto simp: at_link_def requests_def intro: accepts_snoc simp del: accepts_snoc_simps)

text \<open>
  A stage that makes the request \<open>e\<close>: when it succeeds the link is in the next state, and in any
  case the trace stays legal.
\<close>

definition requests_stage ::
  "config_t \<Rightarrow> resources \<Rightarrow> link \<Rightarrow> event list \<Rightarrow> 'w stage \<Rightarrow> resources \<Rightarrow> link \<Rightarrow> event list \<Rightarrow> bool" where
  "requests_stage cfg r l R f r' l' R' \<longleftrightarrow>
     triple (at_link cfg r l R) f (\<lambda>rc s. legal s \<and> (rc = 0 \<longrightarrow> at_link cfg r' l' R' s))"

lemma requests_stageI:
  assumes "\<And>s rc s'. at_link cfg r l R s \<Longrightarrow> f s = Returned (rc, s') \<Longrightarrow>
    config s' = cfg \<and> rsrc s' = r \<and> trace (host s') = trace (host s) @ [ev rc] \<and> is_request (ev rc)"
    and "link_step l (ev 0) l'" "\<And>rc. rc \<noteq> 0 \<Longrightarrow> link_step l (ev rc) l"
  shows "requests_stage cfg r l R f r l' (R @ [ev 0])"
  unfolding requests_stage_def
proof (rule tripleI)
  fix s rc s' assume s: "at_link cfg r l R s" and f: "f s = Returned (rc, s')"
  note s' = assms(1) [OF s f]
  show "legal s' \<and> (rc = 0 \<longrightarrow> at_link cfg r l' (R @ [ev 0]) s')"
  proof (cases "rc = 0")
    case True
    with s' request_at_link [OF s _ assms(2)] show ?thesis by (auto intro: at_link_legal)
  next
    case False
    with s' request_at_link [OF s _ assms(3) [OF False]] show ?thesis by (blast intro: at_link_legal)
  qed
qed

lemma requests_stage_then:
  "requests_stage cfg r l R f r' l' R' \<Longrightarrow> requests_stage cfg r' l' R' g r'' l'' R'' \<Longrightarrow>
   requests_stage cfg r l R (then_rc f g) r'' l'' R''"
  unfolding requests_stage_def by (erule triple_then) (auto elim: triple_weaken)

lemma modify_stage:
  assumes "\<And>s rc s'. at_link cfg r (st, n) R s \<Longrightarrow> f s = Returned (rc, s') \<Longrightarrow>
      config s' = cfg \<and> rsrc s' = r \<and> trace (host s') = trace (host s) @ [ModifyQp a (required st') rc]"
    and "qp_next st = Some st'" "qp_state a = st'"
  shows "requests_stage cfg r (st, n) R f r (st', n) (R @ [ModifyQp a (required st') 0])"
proof (rule requests_stageI [where ev = "\<lambda>rc. ModifyQp a (required st') rc"])
  show "link_step (st, n) (ModifyQp a (required st') 0) (st', n)"
    using modified [of st a "required st'" n] assms(2,3) by simp
  show "link_step (st, n) (ModifyQp a (required st') rc) (st, n)" if "rc \<noteq> 0" for rc
    using not_modified [of st a "required st'" rc n] assms(2,3) that by simp
  show "config s' = cfg \<and> rsrc s' = r \<and> trace (host s') = trace (host s) @ [ModifyQp a (required st') rc] \<and>
      is_request (ModifyQp a (required st') rc)"
    if "at_link cfg r (st, n) R s" "f s = Returned (rc, s')" for s rc s'
    using assms(1) [OF that] by simp
qed

lemma init_stage:
  "requests_stage cfg r (QPS_RESET, n) R (connect_init V) r (QPS_INIT, n)
     (R @ [ModifyQp (init_attr cfg) (required QPS_INIT) 0])"
  by (rule modify_stage)
    (auto simp: connect_init_def on_host_def verbs_calls call_simps Let_def at_link_def init_attr_def)

lemma rtr_stage:
  "requests_stage cfg r (QPS_INIT, n) R (connect_rtr V) r (QPS_RTR, n)
     (R @ [ModifyQp (rtr_attr cfg (qp_num (remote_props r)) (lid (remote_props r)) (gid (remote_props r)))
        (required QPS_RTR) 0])"
  by (rule modify_stage)
    (auto simp: connect_rtr_def on_host_def verbs_calls call_simps Let_def at_link_def rtr_attr_def)

lemma rts_stage:
  "requests_stage cfg r (QPS_RTR, n) R (connect_rts V) r (QPS_RTS, n)
     (R @ [ModifyQp rts_attr (required QPS_RTS) 0])"
  by (rule modify_stage)
    (auto simp: connect_rts_def on_host_def verbs_calls call_simps Let_def at_link_def rts_attr_def)

lemma recv_stage:
  assumes "server_name cfg \<noteq> None" "st \<noteq> QPS_RESET"
  shows "requests_stage cfg r (st, 0) R (connect_recv V) r (st, 1) (R @ [recv_request r])"
  unfolding recv_request_def
  by (rule requests_stageI)
    (auto simp: connect_recv_def is_client_def on_host_def verbs_calls call_simps Let_def at_link_def assms
      intro!: link_step.intros)

lemma send_stage:
  "requests_stage cfg r (QPS_RTS, 0) R (main_post V opcode) r (QPS_RTS, 1) (R @ [send_request r opcode])"
  unfolding send_request_def
  by (rule requests_stageI)
    (auto simp: main_post_def on_host_def verbs_calls call_simps Let_def at_link_def intro!: link_step.intros)

text \<open>Stages that make no request.\<close>

lemma silent_stage:
  assumes "\<And>s rc s'. f s = Returned (rc, s') \<Longrightarrow> config s = cfg \<Longrightarrow> rsrc s = r \<Longrightarrow> config s' = cfg \<and>
    (rc = 0 \<longrightarrow> rsrc s' = r') \<and> (\<exists>es. trace (host s') = trace (host s) @ es \<and> quiet es)"
  shows "requests_stage cfg r l R f r' l R"
  unfolding requests_stage_def
proof (rule tripleI)
  fix s rc s' assume s: "at_link cfg r l R s" and f: "f s = Returned (rc, s')"
  then obtain es where "config s' = cfg" "rc = 0 \<longrightarrow> rsrc s' = r'" "trace (host s') = trace (host s) @ es" "quiet es"
    using assms [OF f] by (auto simp: at_link_def)
  then show "legal s' \<and> (rc = 0 \<longrightarrow> at_link cfg r' l R s')"
    using quiet_at_link [OF s, of s' es "rsrc s'"] at_link_legal by metis
qed

lemma sync_stage: "requests_stage cfg r l R (sync_char M OS c) r l R"
  by (rule silent_stage) (fastforce simp: sync_char_def dest!: sock_sync_data_keeps)

lemma buffer_stages:
  "requests_stage cfg r l R (after_message OS) r l R"
  "requests_stage cfg r l R (client_rewrite OS) r l R"
  "requests_stage cfg r l R (server_show OS) r l R"
  by (rule silent_stage; auto simp: after_message_def client_rewrite_def server_show_def call_simps)+

lemma poll_stage: "requests_stage cfg r (st, 1) R (main_poll OS V) r (st, 0) R"
  unfolding requests_stage_def
proof (rule tripleI)
  fix s rc s' assume s: "at_link cfg r (st, 1) R s" and f: "main_poll OS V s = Returned (rc, s')"
  then obtain h where h: "poll_completion OS V r (host s) = Returned (rc, h)" and s': "s' = s\<lparr>host := h\<rparr>"
    by (auto simp: main_poll_def at_link_def)
  obtain ps k where "trace h = trace (host s) @ map (\<lambda>(r, s). PollCq r s) ps"
    "accepts (st, 1) (map (\<lambda>(r, s). PollCq r s) ps) (st, k)"
    using poll_completion_trace [OF h] accepts_polls by metis
  then have "legal s'"
    using s by (auto simp: s' legal_def at_link_def dest: accepts_trans)
  moreover have "at_link cfg r (st, 0) R s'" if "rc = 0"
  proof -
    obtain sts n where n: "n > 0" and t: "trace h = trace (host s) @ map (PollCq 0) sts @ [PollCq n 0]"
      using poll_completion_found h \<open>rc = 0\<close> by blast
    have "accepts (st, 1) (map (PollCq 0) sts) (st, 1)"
      by (rule accepts_many) (auto intro: no_completion)
    from accepts_snoc [OF this completion [OF n, of st 1 0]] have
      "accepts (st, 1) (map (PollCq 0) sts @ [PollCq n 0]) (st, 0)"
      by simp
    with s t show ?thesis
      by (auto simp: at_link_def s' requests_def filter_empty_conv intro: accepts_trans)
  qed
  ultimately show "legal s' \<and> (rc = 0 \<longrightarrow> at_link cfg r (st, 0) R s')"
    by blast
qed

section \<open>resources_create makes no request\<close>

text \<open>The options stay as they are, except that a device name may be filled in.\<close>

definition quietly :: "'w proc \<Rightarrow> 'w proc \<Rightarrow> bool" where
  "quietly s s' \<longleftrightarrow> (\<exists>dn. config s' = (config s)\<lparr>dev_name := dn\<rparr>) \<and>
     (\<exists>es. trace (host s') = trace (host s) @ es \<and> quiet es)"

definition quiet_stage :: "'w stage \<Rightarrow> bool" where
  "quiet_stage f \<longleftrightarrow> (\<forall>s rc s'. f s = Returned (rc, s') \<longrightarrow> quietly s s')"

lemma quietly_trans: "quietly s t \<Longrightarrow> quietly t u \<Longrightarrow> quietly s u"
  by (auto simp: quietly_def)

lemma quiet_stage_then: "quiet_stage f \<Longrightarrow> quiet_stage g \<Longrightarrow> quiet_stage (then_rc f g)"
  by (fastforce simp: quiet_stage_def then_rc_def split: if_splits intro: quietly_trans)

lemma config_self: "\<exists>dn. c = c\<lparr>dev_name := dn\<rparr>"
  by (rule exI [of _ "dev_name c"]) simp

lemma quiet_sock: "quiet_stage (create_sock OS)"
  using config_self
  by (auto simp: quiet_stage_def quietly_def create_sock_def sock_connect_def sys_close_def call_simps Let_def
      split: option.splits if_splits)

lemma quiet_device: "quiet_stage (create_device V)"
  using config_self
  by (auto simp: quiet_stage_def quietly_def create_device_def call_simps Let_def split_def
      split: option.splits if_splits)

lemma quiet_creates:
  "quiet_stage (create_port V)" "quiet_stage (create_pd V)" "quiet_stage (create_cq V)"
  "quiet_stage (create_buf OS)" "quiet_stage (create_mr V)" "quiet_stage (create_qp V)"
  using config_self
  by (auto simp: quiet_stage_def quietly_def create_port_def create_pd_def create_cq_def create_buf_def
      create_mr_def create_qp_def call_simps Let_def split_def split: if_splits)

lemma quiet_releases [simp]: "quiet (if b then [] else [Release x])"
  by simp

lemma quiet_exit: "quietly s (snd (create_exit OS V rc s))"
  using config_self
  by (cases "rc = 0"; cases "sock (rsrc s) \<ge> 0")
    (simp_all add: quietly_def create_exit_def release_defs call_simps Let_def split_def del: if_split)

lemma quiet_destroy: "quietly s (snd (resources_destroy OS V s)) \<and> rsrc (snd (resources_destroy OS V s)) = rsrc s \<and>
    config (snd (resources_destroy OS V s)) = config s"
  using config_self
  by (simp add: quietly_def resources_destroy_def release_defs call_simps Let_def split_def del: if_split)

lemma quiet_create: "quiet_stage (resources_create OS V)"
  unfolding quiet_stage_def
proof (intro allI impI)
  fix s rc s' assume "resources_create OS V s = Returned (rc, s')"
  then obtain rc1 s1 where c: "create_stages OS V (s\<lparr>dev_list := 0\<rparr>) = Returned (rc1, s1)"
    and s': "(rc, s') = create_exit OS V rc1 s1"
    by (auto simp: resources_create_def)
  have "quiet_stage (create_stages OS V)"
    unfolding create_stages_def by (intro quiet_stage_then quiet_sock quiet_device quiet_creates)
  with c have "quietly s s1"
    by (fastforce simp: quiet_stage_def quietly_def)
  moreover have "quietly s1 s'"
    using quiet_exit [of s1 OS V rc1] by (simp flip: s')
  ultimately show "quietly s s'"
    by (rule quietly_trans)
qed

section \<open>Whole runs\<close>

lemma requests_stage_eq:
  "requests_stage cfg r l R f r' l' R' \<Longrightarrow> l' = l'' \<Longrightarrow> R' = R'' \<Longrightarrow> requests_stage cfg r l R f r' l'' R''"
  by simp

lemma requests_stage_like:
  assumes "requests_stage cfg r l R f r' l' R'" "\<And>s. config s = cfg \<Longrightarrow> g s = f s"
  shows "requests_stage cfg r l R g r' l' R'"
  using assms unfolding requests_stage_def triple_def at_link_def by metis

lemma requests_stage_skip:
  "(\<And>s. config s = cfg \<Longrightarrow> f s = Returned (0, s)) \<Longrightarrow> requests_stage cfg r l R f r l R"
  by (rule silent_stage) auto

lemma connect_stages_requests:
  "requests_stage cfg r (QPS_RESET, 0) []
     (then_rc (connect_init V) (then_rc (connect_recv V) (then_rc (connect_rtr V) (then_rc (connect_rts V)
       (sync_char M OS c))))) r (QPS_RTS, if server_name cfg = None then 0 else 1) (connect_requests cfg r)"
proof (cases "server_name cfg")
  case None
  have recv: "requests_stage cfg r l R (connect_recv V) r l R" for l R
    by (rule requests_stage_skip) (simp add: connect_recv_def is_client_def None)
  show ?thesis
    by (rule requests_stage_eq, (rule requests_stage_then init_stage recv rtr_stage rts_stage sync_stage)+)
      (simp_all add: connect_requests_def None)
next
  case (Some name)
  then have "server_name cfg \<noteq> None" "QPS_INIT \<noteq> QPS_RESET"
    by simp_all
  note recv = recv_stage [OF this]
  show ?thesis
    by (rule requests_stage_eq, (rule requests_stage_then init_stage recv rtr_stage rts_stage sync_stage)+)
      (simp_all add: connect_requests_def Some)
qed

lemma client_rdma_requests:
  assumes "server_name cfg \<noteq> None"
  shows "requests_stage cfg r (QPS_RTS, 0) R (client_rdma OS V) r (QPS_RTS, 0)
    (R @ [send_request r WR_RDMA_READ, send_request r WR_RDMA_WRITE])"
proof (rule requests_stage_like)
  show "requests_stage cfg r (QPS_RTS, 0) R (then_rc (main_post V WR_RDMA_READ) (then_rc (main_poll OS V)
      (then_rc (client_rewrite OS) (then_rc (main_post V WR_RDMA_WRITE) (main_poll OS V))))) r (QPS_RTS, 0)
    (R @ [send_request r WR_RDMA_READ, send_request r WR_RDMA_WRITE])"
    by (rule requests_stage_eq, (rule requests_stage_then send_stage poll_stage buffer_stages(2))+) simp_all
qed (use assms in \<open>simp add: client_rdma_def is_client_def\<close>)

lemma rest_requests:
  "requests_stage cfg r (QPS_RTS, if server_name cfg = None then 0 else 1) (connect_requests cfg r)
     (then_rc (server_send V) (then_rc (main_poll OS V) (then_rc (after_message OS) (then_rc (sync_char M OS CHR ''R'')
       (then_rc (client_rdma OS V) (then_rc (sync_char M OS CHR ''W'') (server_show OS))))))) r (QPS_RTS, 0)
     (role_requests cfg r)"
proof (cases "server_name cfg")
  case None
  have rdma: "requests_stage cfg r l R (client_rdma OS V) r l R" for l R
    by (rule requests_stage_skip) (simp add: client_rdma_def is_client_def None)
  have send: "requests_stage cfg r (QPS_RTS, 0) R (server_send V) r (QPS_RTS, 1) (R @ [send_request r WR_SEND])" for R
    by (rule requests_stage_like [OF send_stage]) (simp add: server_send_def is_client_def None)
  show ?thesis
    unfolding None by (simp only: simp_thms if_True, rule requests_stage_eq,
      (rule requests_stage_then send poll_stage rdma sync_stage buffer_stages(1,3))+)
      (simp_all add: role_requests_def None)
next
  case (Some name)
  then have "server_name cfg \<noteq> None" by simp
  note rdma = client_rdma_requests [OF this]
  have send: "requests_stage cfg r l R (server_send V) r l R" for l R
    by (rule requests_stage_skip) (simp add: server_send_def is_client_def Some)
  show ?thesis
    unfolding Some by (simp only: option.distinct if_False, rule requests_stage_eq,
      (rule requests_stage_then send poll_stage rdma sync_stage buffer_stages(1,3))+)
      (simp_all add: role_requests_def Some)
qed

lemma exchange_at_link:
  assumes s: "at_link cfg r l R s" and "connect_exchange M OS g s = Returned (rc, s')"
  shows "legal s' \<and> (rc = 0 \<longrightarrow> (\<exists>d. at_link cfg (r\<lparr>remote_props := d\<rparr>) l R s'))"
proof -
  let ?l = "put_con_data (byte_order M) (stack_pad M) (con_data_hton (byte_order M) (local_con_data (rsrc s) g))"
  obtain r0 bs h where
    sync: "sock_sync_data OS (sock (rsrc s)) ?l (stack_tmp M) (host s) = Returned (r0, bs, h)"
    and s': "s' = (if r0 < 0 then s\<lparr>host := h\<rparr> else s\<lparr>host := h, rsrc := (rsrc s)\<lparr>remote_props :=
        con_data_ntoh (byte_order M) (get_con_data (byte_order M) bs)\<rparr>\<rparr>)" "rc = (if r0 < 0 then 1 else 0)"
    using assms(2) by (auto simp: connect_exchange_def Let_def split: if_splits)
  obtain rs where t: "trace h = trace (host s) @ SockWrite ?l (int (length ?l)) # map SockRead rs"
    using sock_sync_data_keeps [OF sync] by blast
  have "at_link cfg (rsrc s') l R s'"
    using s t by (intro quiet_at_link [OF s, where es = "SockWrite ?l (int (length ?l)) # map SockRead rs"])
      (auto simp: s'(1) at_link_def)
  moreover have "rc = 0 \<longrightarrow> (\<exists>d. rsrc s' = r\<lparr>remote_props := d\<rparr>)"
    using s by (auto simp: s' at_link_def)
  ultimately show ?thesis
    using at_link_legal by metis
qed

lemma connect_requests_at_link:
  assumes "at_link cfg r (QPS_RESET, 0) [] s" "connect_qp M OS V s = Returned (rc, s')"
  shows "legal s' \<and> (rc = 0 \<longrightarrow> (\<exists>r. at_link cfg r (QPS_RTS, if server_name cfg = None then 0 else 1)
     (connect_requests cfg r) s'))"
proof -
  obtain rc1 g s1 where g: "connect_gid V s = (rc1, g, s1)"
    by (cases "connect_gid V s")
  then have s1: "at_link cfg r (QPS_RESET, 0) [] s1"
    using assms(1) by (auto simp: connect_gid_def call_simps Let_def split_def at_link_def split: if_splits)
  show ?thesis
  proof (cases "rc1 = 0")
    case False
    with g assms(2) s1 show ?thesis by (auto simp: connect_qp_def intro: at_link_legal)
  next
    case True
    let ?f = "then_rc (connect_init V) (then_rc (connect_recv V) (then_rc (connect_rtr V) (then_rc (connect_rts V)
       (sync_char M OS CHR ''Q''))))"
    obtain rc2 s2 where e: "connect_exchange M OS g s1 = Returned (rc2, s2)"
      and s': "(if rc2 \<noteq> 0 then Returned (rc2, s2) else ?f s2) = Returned (rc, s')"
      using g True assms(2) by (auto simp: connect_qp_def then_rc_def [of "connect_exchange M OS g"])
    note ex = exchange_at_link [OF s1 e]
    show ?thesis
    proof (cases "rc2 = 0")
      case True
      with ex obtain d where "at_link cfg (r\<lparr>remote_props := d\<rparr>) (QPS_RESET, 0) [] s2" by blast
      moreover have "?f s2 = Returned (rc, s')"
        using s' True by simp
      ultimately show ?thesis
        using tripleD [OF connect_stages_requests [unfolded requests_stage_def]] by blast
    qed (use ex s' in auto)
  qed
qed

lemma main_stages_requests:
  assumes "main_stages M OS V s = Returned (rc, s')" "trace (host s) = []"
  shows "legal s' \<and> (rc = 0 \<longrightarrow> (\<exists>r dn. at_link ((config s)\<lparr>dev_name := dn\<rparr>) r (QPS_RTS, 0)
    (role_requests ((config s)\<lparr>dev_name := dn\<rparr>) r) s'))"
proof -
  let ?f = "then_rc (server_send V) (then_rc (main_poll OS V) (then_rc (after_message OS)
    (then_rc (sync_char M OS CHR ''R'') (then_rc (client_rdma OS V) (then_rc (sync_char M OS CHR ''W'')
      (server_show OS))))))"
  obtain rc1 s1 where c: "resources_create OS V s = Returned (rc1, s1)"
    and s1': "(if rc1 \<noteq> 0 then Returned (rc1, s1) else then_rc (connect_qp M OS V) ?f s1) = Returned (rc, s')"
    using assms(1) by (auto simp: main_stages_def then_rc_def [of "resources_create OS V"])
  have "quietly s s1"
    using quiet_create [of OS V] c unfolding quiet_stage_def by blast
  then obtain dn where "config s1 = (config s)\<lparr>dev_name := dn\<rparr>" and q: "quiet (trace (host s1))"
    using assms(2) by (auto simp: quietly_def)
  then have s1: "at_link ((config s)\<lparr>dev_name := dn\<rparr>) (rsrc s1) (QPS_RESET, 0) [] s1"
    by (auto simp: at_link_def quiet_def requests_def filter_empty_conv intro: accepts_many)
  show ?thesis
  proof (cases "rc1 = 0")
    case False
    with s1' s1 show ?thesis by (auto intro: at_link_legal)
  next
    case True
    then obtain rc2 s2 where k: "connect_qp M OS V s1 = Returned (rc2, s2)"
      and s2': "(if rc2 \<noteq> 0 then Returned (rc2, s2) else ?f s2) = Returned (rc, s')"
      using s1' by (auto simp: then_rc_def [of "connect_qp M OS V"])
    note s2 = connect_requests_at_link [OF s1 k]
    show ?thesis
    proof (cases "rc2 = 0")
      case True
      then have "?f s2 = Returned (rc, s')"
        using s2' by simp
      with s2 True show ?thesis
        using tripleD [OF rest_requests [unfolded requests_stage_def]] by blast
    qed (use s2 s2' in auto)
  qed
qed

text \<open>
  C2: whatever the outside world answers, a run of \<open>rcmain\<close> never makes a request out of order: the
  queue pair goes RESET, INIT, RTR, RTS with the attributes each step needs, the client's receive
  request is posted after INIT, sends are posted in RTS only, and no request is posted while
  another is outstanding. A run that returns 0 has reached RTS with every request completed, and
  its requests are exactly those of its role: the server sends one message, the client receives it,
  reads the server's buffer and writes it, with the address and key the peer sent.
\<close>

theorem rcmain_protocol:
  assumes "rcmain M OS V opts rest s = Returned (rc, s')" "trace (host s) = []" "server_name (config s) = None"
  shows "(\<exists>l. accepts (QPS_RESET, 0) (trace (host s')) l) \<and>
    (rc = 0 \<longrightarrow> accepts (QPS_RESET, 0) (trace (host s')) (QPS_RTS, 0) \<and>
       requests (trace (host s')) = role_requests (config s') (rsrc s') \<and>
       (server_name (config s') = None \<longleftrightarrow> rest = []))"
proof (cases "parse_args opts rest (config s)")
  case None
  with assms have "trace (host s') = []" "rc = 1"
    by (simp_all add: rcmain_def)
  then show ?thesis by (auto intro: accepts_nil)
next
  case (Some cfg)
  let ?s = "s\<lparr>config := cfg, rsrc := resources_init\<rparr>"
  obtain rc1 s1 where m: "main_stages M OS V ?s = Returned (rc1, s1)"
    and s': "s' = snd (resources_destroy OS V s1)" and rc: "rc = 0 \<longrightarrow> rc1 = 0"
    using assms(1) Some by (auto simp: rcmain_def split_def Let_def)
  note run = main_stages_requests [OF m, simplified, OF assms(2)]
  obtain es where d: "trace (host s') = trace (host s1) @ es" "quiet es" "config s' = config s1" "rsrc s' = rsrc s1"
    using quiet_destroy [of s1 OS V] by (auto simp: quietly_def s')
  have keep: "accepts (QPS_RESET, 0) (trace (host s1)) l \<Longrightarrow> accepts (QPS_RESET, 0) (trace (host s')) l" for l
    using d(2) unfolding d(1) quiet_def by (blast intro: accepts_trans accepts_many)
  have "requests (trace (host s')) = requests (trace (host s1))"
    using d(2) by (auto simp: d(1) requests_def quiet_def filter_empty_conv)
  moreover have "server_name cfg = None \<longleftrightarrow> rest = []"
    using parse_args_config [OF Some assms(3)] by auto
  ultimately show ?thesis
    using run keep rc d(3,4) unfolding legal_def at_link_def by fastforce
qed

theorem rcmain_protocol_witness:
  "\<exists>s'. rcmain demo_machine scripted willing [] [''10.0.0.1''] (start [replicate 40 0, [81], [82], [87]]) =
     Returned (0, s') \<and> accepts (QPS_RESET, 0) (trace (host s')) (QPS_RTS, 0) \<and>
     requests (trace (host s')) = role_requests (config s') (rsrc s')"
proof -
  let ?cfg = "config_init\<lparr>server_name := Some ''10.0.0.1''\<rparr>"
  let ?s = "start [replicate 40 0, [81], [82], [87]]"
  obtain s1 where "main_stages demo_machine scripted willing (?s\<lparr>config := ?cfg\<rparr>) = Returned (0, s1)"
    using willing_stages [of "replicate 40 0" demo_machine ?cfg "81" "82" "87"]
    by (auto simp: demo_machine_def config_init_def)
  then obtain s' where r: "rcmain demo_machine scripted willing [] [''10.0.0.1''] ?s = Returned (0, s')"
    using willing_destroy [of s1] by (auto simp: rcmain_def parse_args_def start_def split_def Let_def)
  have "trace (host ?s) = []" "server_name (config ?s) = None"
    by (simp_all add: start_def config_init_def)
  from rcmain_protocol [OF r this] r show ?thesis
    by auto
qed

section \<open>What the peers know of each other\<close>

lemma keeps_rsrc_then:
  "triple (\<lambda>s. rsrc s = r) f (\<lambda>_ s. rsrc s = r) \<Longrightarrow> triple (\<lambda>s. rsrc s = r) g (\<lambda>_ s. rsrc s = r) \<Longrightarrow>
   triple (\<lambda>s. rsrc s = r) (then_rc f g) (\<lambda>_ s. rsrc s = r)"
  by (erule triple_then) auto

lemma connect_keeps_rsrc:
  "triple (\<lambda>s. rsrc s = r) (then_rc (connect_init V) (then_rc (connect_recv V) (then_rc (connect_rtr V)
     (then_rc (connect_rts V) (sync_char M OS c))))) (\<lambda>_ s. rsrc s = r)"
  by (intro keeps_rsrc_then; rule tripleI)
    (auto simp: connect_init_def connect_recv_def connect_rtr_def connect_rts_def sync_char_def on_host_def
      verbs_calls call_simps Let_def split: if_splits)

lemma exchange_learns:
  assumes x: "connect_exchange M OS g s = Returned (0, s')"
    and "length (stack_pad M) = 6" "length (stack_tmp M) = 40" "length g = 16" "length data = 40"
    and read: "\<And>w. fst (e_read OS (sock (rsrc s)) 40 w) = (40, data)"
  shows "remote_props (rsrc s') = con_data_ntoh (byte_order M) (get_con_data (byte_order M) data)"
proof -
  let ?l = "put_con_data (byte_order M) (stack_pad M) (con_data_hton (byte_order M) (local_con_data (rsrc s) g))"
  have len: "length ?l = 40" "?l \<noteq> []"
    using assms(2,4) by (simp_all add: length_hton_con_data local_con_data_def put_con_data_not_Nil)
  from x obtain r where r: "sock_sync_data OS (sock (rsrc s)) ?l (stack_tmp M) (host s) = Returned r"
    by (auto simp: connect_exchange_def Let_def)
  then have "fst (e_write OS (sock (rsrc s)) ?l (world (host s))) = int (length ?l)"
    by (auto simp: sock_sync_data_def call_simps Let_def split: if_splits)
  from sync_one_read [OF this len(2), of data "stack_tmp M"] obtain h where
    "sock_sync_data OS (sock (rsrc s)) ?l (stack_tmp M) (host s) = Returned (0, blit data (stack_tmp M), h)"
    using read len(1) by auto
  then show ?thesis
    using x assms(3,5) by (auto simp: connect_exchange_def Let_def blit_def)
qed


text \<open>A peer with buffer 0x5000 and key 9, which answers every meeting point.\<close>

definition demo_peer :: resources where
  "demo_peer = resources_init\<lparr>buf := 0x5000, mr_rkey := 9, my_qp_num := 77, port_lid := 3\<rparr>"

definition peer_os :: "bytes list os" where
  "peer_os = scripted\<lparr>e_read := (\<lambda>_ n w. ((int n, if n = 40
     then put_con_data LittleEndian (replicate 6 0) (con_data_hton LittleEndian (local_con_data demo_peer (replicate 16 0)))
     else replicate n 0), w))\<rparr>"

lemma peer_sync:
  assumes "l \<noteq> []"
  shows "sock_sync_data peer_os sk l remote h = Returned (0, blit (snd (fst (e_read peer_os sk (length l) (world h)))) remote,
    h\<lparr>trace := trace h @ [SockWrite l (int (length l)), SockRead (int (length l))]\<rparr>)"
proof -
  let ?h = "h\<lparr>trace := trace h @ [SockWrite l (int (length l))]\<rparr>"
  have "sys_read peer_os sk (nat (int (length l))) ?h =
    ((int (length l), snd (fst (e_read peer_os sk (length l) (world h)))),
     h\<lparr>trace := trace h @ [SockWrite l (int (length l)), SockRead (int (length l))]\<rparr>)"
    by (simp add: sys_read_def call_simps peer_os_def)
  from sync_loop_step [OF this, of 0 remote] show ?thesis
    using assms by (simp add: sock_sync_data_def call_simps Let_def sync_loop_stop) (simp add: peer_os_def)
qed


end
