(* ===== verification/Rc_Fabric.thy ===== *)
theory Rc_Fabric
  imports Rc_Protocol
begin

text \<open>
  Two processes of rc_example.c at the two ends of one connection. Each process is the list of the
  calls it makes, as \<open>rcmain\<close> records them in its trace; the connection is the \<open>fabric\<close>: for each side the
  message buffer, the socket's byte counts and the state of the network card. The cards work on
  their own: a request is executed at some time after it was posted, and completed at some time
  after that. A schedule says who takes the next step.
\<close>

section \<open>The connection\<close>

datatype role = Server | Client

fun peer :: "role \<Rightarrow> role" where
  "peer Server = Client"
| "peer Client = Server"

lemma peer_simps [simp]: "peer (peer p) = p" "peer p \<noteq> p" "p \<noteq> peer p"
  by (cases p; simp)+

datatype progress = Waiting ibv_send_wr | Executed

text \<open>
  One side: the buffer and the address and key under which the peer may reach it; the receive
  requests waiting, the send request in work, messages that have arrived and are not completed, the
  completions ready to be polled; the bytes written to and read from the socket; what was printed.
\<close>

record side =
  mem :: bytes
  region :: "u64 \<times> u32"
  recvs :: nat
  sq :: "progress option"
  arrived :: nat
  ready :: nat
  written :: nat
  taken :: nat
  shown :: "bytes list"

type_synonym fabric = "role \<Rightarrow> side"

definition text_of :: "bytes \<Rightarrow> bytes" where
  "text_of m = takeWhile (\<lambda>b. b \<noteq> 0) m"

definition upd :: "role \<Rightarrow> (side \<Rightarrow> side) \<Rightarrow> fabric \<Rightarrow> fabric" where
  "upd p f F = F(p := f (F p))"

text \<open>
  A call of a process: \<open>None\<close> when it cannot return like that now. What is printed is the text of the
  buffer, a completion can be polled when one is ready, and bytes can be read from the socket when
  the peer has written them. A call that failed changes nothing. Every request of this connection
  completes with success (status 0).
\<close>

fun host_does :: "role \<Rightarrow> event \<Rightarrow> fabric \<Rightarrow> fabric option" where
  "host_does p (BufStore bs) F = Some (upd p (mem_update (blit bs)) F)"
| "host_does p (Show bs) F =
     (if bs = text_of (mem (F p)) then Some (upd p (shown_update (\<lambda>s. s @ [bs])) F) else None)"
| "host_does p (PostRecv rr rc) F = (if rc = 0 then Some (upd p (recvs_update Suc) F) else Some F)"
| "host_does p (PostSend sr rc) F =
     (if rc \<noteq> 0 then Some F
      else if sq (F p) = None then Some (upd p (sq_update (\<lambda>_. Some (Waiting sr))) F) else None)"
| "host_does p (PollCq n st) F =
     (if n \<le> 0 then Some F
      else if st = 0 \<and> 0 < ready (F p) then Some (upd p (ready_update (\<lambda>k. k - 1)) F) else None)"
| "host_does p (SockWrite bs n) F = Some (upd p (written_update (\<lambda>k. k + nat n)) F)"
| "host_does p (SockRead n) F =
     (if taken (F p) + nat n \<le> written (F (peer p)) then Some (upd p (taken_update (\<lambda>k. k + nat n)) F)
      else None)"
| "host_does p (ModifyQp a m rc) F = Some F"
| "host_does p (Acquire x) F = Some F"
| "host_does p (Release x) F = Some F"

text \<open>
  The card executes the request of \<open>p\<close>: a message goes into the buffer of the peer, which must have
  a receive request waiting; an RDMA request must name the region of the peer.
\<close>

definition nic_execute :: "role \<Rightarrow> fabric \<Rightarrow> fabric option" where
  "nic_execute p F =
     (case sq (F p) of
        Some (Waiting sr) \<Rightarrow>
          (let q = peer p; F' = upd p (sq_update (\<lambda>_. Some Executed)) F in
           case sr_opcode sr of
             WR_SEND \<Rightarrow>
               (if 0 < recvs (F q)
                then Some (upd q (\<lambda>s. s\<lparr>mem := blit (take (sr_length sr) (mem (F p))) (mem s), recvs := recvs s - 1,
                       arrived := Suc (arrived s)\<rparr>) F')
                else None)
           | WR_RDMA_READ \<Rightarrow>
               (if (sr_remote_addr sr, sr_rkey sr) = region (F q)
                then Some (upd p (mem_update (blit (take (sr_length sr) (mem (F q))))) F') else None)
           | WR_RDMA_WRITE \<Rightarrow>
               (if (sr_remote_addr sr, sr_rkey sr) = region (F q)
                then Some (upd q (mem_update (blit (take (sr_length sr) (mem (F p))))) F') else None))
      | _ \<Rightarrow> None)"

text \<open>The completion of an executed request, and of a message that has arrived.\<close>

definition nic_complete :: "role \<Rightarrow> fabric \<Rightarrow> fabric option" where
  "nic_complete p F =
     (if sq (F p) = Some Executed then Some (upd p (\<lambda>s. s\<lparr>sq := None, ready := Suc (ready s)\<rparr>) F) else None)"

definition nic_arrive :: "role \<Rightarrow> fabric \<Rightarrow> fabric option" where
  "nic_arrive p F =
     (if 0 < arrived (F p) then Some (upd p (\<lambda>s. s\<lparr>arrived := arrived s - 1, ready := Suc (ready s)\<rparr>) F) else None)"

section \<open>Joint runs\<close>

datatype turn = Host role | Execute role | Complete role | Arrive role

text \<open>The processes are what is left of their programs; \<open>does\<close> gives the meaning of one operation.\<close>

type_synonym 'e system = "(role \<Rightarrow> 'e list) \<times> fabric"

fun turn_step :: "(role \<Rightarrow> 'e \<Rightarrow> fabric \<Rightarrow> fabric option) \<Rightarrow> turn \<Rightarrow> 'e system \<Rightarrow> 'e system option" where
  "turn_step does (Host p) (P, F) =
     (case P p of [] \<Rightarrow> None | e # es \<Rightarrow> map_option (Pair (P(p := es))) (does p e F))"
| "turn_step does (Execute p) (P, F) = map_option (Pair P) (nic_execute p F)"
| "turn_step does (Complete p) (P, F) = map_option (Pair P) (nic_complete p F)"
| "turn_step does (Arrive p) (P, F) = map_option (Pair P) (nic_arrive p F)"

fun joint_run :: "(role \<Rightarrow> 'e \<Rightarrow> fabric \<Rightarrow> fabric option) \<Rightarrow> turn list \<Rightarrow> 'e system \<Rightarrow> 'e system option" where
  "joint_run does [] c = Some c"
| "joint_run does (t # ts) c =
     (case turn_step does t c of None \<Rightarrow> None | Some c \<Rightarrow> joint_run does ts c)"

text \<open>What one step preserves, a run preserves; and a run of a system is a run of one that simulates it.\<close>

lemma joint_run_invariant:
  assumes "\<And>t c c'. I c \<Longrightarrow> turn_step does t c = Some c' \<Longrightarrow> I c'"
    and "joint_run does ts c = Some c'" "I c"
  shows "I c'"
  using assms(2,3) by (induction ts arbitrary: c) (auto split: option.splits intro: assms(1))

locale stuttering_simulation =
  fixes does :: "role \<Rightarrow> 'e \<Rightarrow> fabric \<Rightarrow> fabric option"
    and does' :: "role \<Rightarrow> 'a \<Rightarrow> fabric \<Rightarrow> fabric option"
    and rel :: "'e system \<Rightarrow> 'a system \<Rightarrow> bool"
  assumes step: "rel c d \<Longrightarrow> turn_step does t c = Some c' \<Longrightarrow>
    rel c' d \<or> (\<exists>d'. turn_step does' t d = Some d' \<and> rel c' d')"
begin

lemma runs: "joint_run does ts c = Some c' \<Longrightarrow> rel c d \<Longrightarrow> \<exists>us d'. joint_run does' us d = Some d' \<and> rel c' d'"
proof (induction ts arbitrary: c d)
  case Nil
  then show ?case by (intro exI [of _ "[]"]) auto
next
  case (Cons t ts)
  then obtain c1 where c1: "turn_step does t c = Some c1" "joint_run does ts c1 = Some c'"
    by (auto split: option.splits)
  from step [OF Cons.prems(2) c1(1)] show ?case
  proof
    assume "rel c1 d"
    with Cons.IH c1(2) show ?case by blast
  next
    assume "\<exists>d'. turn_step does' t d = Some d' \<and> rel c1 d'"
    then obtain d1 where d1: "turn_step does' t d = Some d1" "rel c1 d1" by blast
    with Cons.IH c1(2) obtain us d' where "joint_run does' us d1 = Some d'" "rel c' d'" by blast
    with d1 show ?case by (intro exI [of _ "t # us"]) auto
  qed
qed

end

end
