(* ===== verification/Rc_Script.thy ===== *)
theory Rc_Script
  imports Rc_Fabric
begin

text \<open>
  The script of a run: the steps of a trace that matter to the peer, each with the number of bytes
  that had to be read from the socket before it. Joint runs of two traces are joint runs of their
  scripts, and every run of \<open>rcmain\<close> that returns 0 follows the script of its role.
\<close>

section \<open>Scripts\<close>

datatype action = Put bytes | Print | Recv | Send ibv_send_wr | Await | Tell nat

text \<open>A step of a script, with the number of bytes the peer must have written.\<close>

fun act :: "role \<Rightarrow> nat \<times> action \<Rightarrow> fabric \<Rightarrow> fabric option" where
  "act p (k, a) F =
     (if k \<le> written (F (peer p)) then
        (case a of
           Put bs \<Rightarrow> Some (upd p (mem_update (blit bs)) F)
         | Print \<Rightarrow> Some (upd p (\<lambda>s. s\<lparr>shown := shown s @ [text_of (mem s)]\<rparr>) F)
         | Recv \<Rightarrow> Some (upd p (recvs_update Suc) F)
         | Send sr \<Rightarrow> if sq (F p) = None then Some (upd p (sq_update (\<lambda>_. Some (Waiting sr))) F) else None
         | Await \<Rightarrow> if 0 < ready (F p) then Some (upd p (ready_update (\<lambda>k. k - 1)) F) else None
         | Tell n \<Rightarrow> Some (upd p (written_update (\<lambda>k. k + n)) F))
      else None)"

text \<open>The action of a call, and the bytes a call reads.\<close>

fun action_of :: "event \<Rightarrow> action option" where
  "action_of (BufStore bs) = Some (Put bs)"
| "action_of (Show bs) = Some Print"
| "action_of (PostRecv rr rc) = (if rc = 0 then Some Recv else None)"
| "action_of (PostSend sr rc) = (if rc = 0 then Some (Send sr) else None)"
| "action_of (PollCq n st) = (if n \<le> 0 then None else Some Await)"
| "action_of (SockWrite bs n) = Some (Tell (nat n))"
| "action_of _ = None"

fun bytes_read :: "event \<Rightarrow> nat" where
  "bytes_read (SockRead n) = nat n"
| "bytes_read _ = 0"

definition got :: "event list \<Rightarrow> nat" where
  "got es = sum_list (map bytes_read es)"

fun script :: "nat \<Rightarrow> event list \<Rightarrow> (nat \<times> action) list" where
  "script k [] = []"
| "script k (e # es) =
     (case action_of e of None \<Rightarrow> [] | Some a \<Rightarrow> [(k, a)]) @ script (k + bytes_read e) es"

lemma got_simps [simp]: "got [] = 0" "got (e # es) = bytes_read e + got es" "got (es @ fs) = got es + got fs"
  by (simp_all add: got_def)

lemma script_append [simp]: "script k (es @ fs) = script k es @ script (k + got es) fs"
  by (induction es arbitrary: k) (simp_all add: add.assoc)

text \<open>A script that demands at least as much reading.\<close>

definition at_least :: "(nat \<times> action) list \<Rightarrow> (nat \<times> action) list \<Rightarrow> bool" where
  "at_least xs ys \<longleftrightarrow> list_all2 (\<lambda>(k, a) (j, b). j \<le> k \<and> a = b) xs ys"

lemma at_least_simps [simp]: "at_least [] ys \<longleftrightarrow> ys = []" "at_least xs [] \<longleftrightarrow> xs = []"
  "at_least ((k, a) # xs) ((j, b) # ys) \<longleftrightarrow> j \<le> k \<and> a = b \<and> at_least xs ys"
  by (auto simp: at_least_def)

lemma at_least_append: "at_least xs ys \<Longrightarrow> at_least xs' ys' \<Longrightarrow> at_least (xs @ xs') (ys @ ys')"
  unfolding at_least_def by (rule list_all2_appendI)

lemma at_least_Cons: "at_least ((k, a) # xs) ys \<longleftrightarrow> (\<exists>j zs. ys = (j, a) # zs \<and> j \<le> k \<and> at_least xs zs)"
  by (auto simp: at_least_def list_all2_Cons1)

section \<open>Joint runs of traces are joint runs of scripts\<close>

definition forget :: "fabric \<Rightarrow> fabric" where
  "forget F = (\<lambda>p. (F p)\<lparr>taken := 0\<rparr>)"

fun follows :: "event system \<Rightarrow> (nat \<times> action) system \<Rightarrow> bool" where
  "follows (P, F) (Q, G) \<longleftrightarrow> G = forget F \<and>
     (\<forall>p. taken (F p) \<le> written (F (peer p)) \<and> at_least (script (taken (F p)) (P p)) (Q p))"

lemma forget_simps [simp]: "mem (forget F p) = mem (F p)" "written (forget F p) = written (F p)"
  "sq (forget F p) = sq (F p)" "recvs (forget F p) = recvs (F p)" "ready (forget F p) = ready (F p)"
  "region (forget F p) = region (F p)" "arrived (forget F p) = arrived (F p)" "shown (forget F p) = shown (F p)"
  by (simp_all add: forget_def)

lemma upd_same [simp]: "upd p f F p = f (F p)"
  and upd_other [simp]: "q \<noteq> p \<Longrightarrow> upd p f F q = F q"
  by (simp_all add: upd_def)

text \<open>A call of a process is a step of its script, or is not seen there.\<close>

lemma host_step_taken:
  "host_does p e F = Some F' \<Longrightarrow> taken (F' p) = taken (F p) + bytes_read e \<and> taken (F' (peer p)) = taken (F (peer p)) \<and>
     written (F p) \<le> written (F' p) \<and> written (F' (peer p)) = written (F (peer p)) \<and>
     (taken (F p) \<le> written (F (peer p)) \<longrightarrow> taken (F' p) \<le> written (F' (peer p)))"
  by (cases e) (auto split: if_splits)

lemma host_step_action:
  assumes "host_does p e F = Some F'" "j \<le> written (F (peer p))" "action_of e = Some a"
  shows "act p (j, a) (forget F) = Some (forget F')"
  using assms by (cases e) (auto split: if_splits simp: forget_def upd_def intro!: ext)

lemma host_step_silent:
  assumes "host_does p e F = Some F'" "action_of e = None"
  shows "forget F' = forget F"
  using assms by (cases e) (auto split: if_splits simp: forget_def upd_def)

lemma nic_forget_eq:
  "map_option forget (nic_execute p F) = nic_execute p (forget F)"
  "map_option forget (nic_complete p F) = nic_complete p (forget F)"
  "map_option forget (nic_arrive p F) = nic_arrive p (forget F)"
  by (auto simp: nic_execute_def nic_complete_def nic_arrive_def Let_def forget_def upd_def fun_eq_iff
      split: option.splits progress.splits ibv_opcode.splits)

lemma nic_forget:
  "nic_execute p F = Some F' \<Longrightarrow> nic_execute p (forget F) = Some (forget F')"
  "nic_complete p F = Some F' \<Longrightarrow> nic_complete p (forget F) = Some (forget F')"
  "nic_arrive p F = Some F' \<Longrightarrow> nic_arrive p (forget F) = Some (forget F')"
  by (simp_all flip: nic_forget_eq)

lemma nic_keeps:
  assumes "nic_execute p F = Some F' \<or> nic_complete p F = Some F' \<or> nic_arrive p F = Some F'"
  shows "taken (F' q) = taken (F q) \<and> written (F' q) = written (F q)"
  using assms by (auto simp: nic_execute_def nic_complete_def nic_arrive_def Let_def upd_def
      split: option.splits progress.splits ibv_opcode.splits if_splits)

lemma all_roles: "(\<forall>p. P p) \<longleftrightarrow> P q \<and> P (peer q)" for q :: role
  by (metis peer.elims peer.simps role.exhaust)

lemma follows_host:
  assumes c: "follows (P, F) (Q, G)" and P: "P p = e # es" and F': "host_does p e F = Some F'"
  shows "follows (P(p := es), F') (Q, G) \<or>
    (\<exists>d. turn_step act (Host p) (Q, G) = Some d \<and> follows (P(p := es), F') d)"
proof -
  note t = host_step_taken [OF F']
  have inv: "\<forall>q. taken (F' q) \<le> written (F' (peer q))"
    using c t unfolding all_roles [of _ p] by (auto simp: all_roles [of _ p])
  show ?thesis
  proof (cases "action_of e")
    case None
    then have "follows (P(p := es), F') (Q, G)"
      using c P t inv host_step_silent [OF F'] by (auto simp: all_roles [of _ p])
    then show ?thesis ..
  next
    case (Some a)
    have "at_least (script (taken (F p)) (P p)) (Q p)"
      using c by simp
    then obtain j zs where Q: "Q p = (j, a) # zs" "j \<le> taken (F p)"
      "at_least (script (taken (F p) + bytes_read e) es) zs"
      by (auto simp: P Some at_least_Cons)
    have "j \<le> written (F (peer p))"
      using c Q(2) by (auto simp: all_roles [of _ p])
    from host_step_action [OF F' this Some] have "turn_step act (Host p) (Q, G) = Some (Q(p := zs), forget F')"
      using c Q(1) by simp
    moreover have "follows (P(p := es), F') (Q(p := zs), forget F')"
      using c t inv Q(3) by (auto simp: all_roles [of _ p])
    ultimately show ?thesis
      by blast
  qed
qed

lemma follows_step:
  assumes "follows c d" "turn_step host_does t c = Some c'"
  shows "follows c' d \<or> (\<exists>d'. turn_step act t d = Some d' \<and> follows c' d')"
proof -
  obtain P F Q G where c: "c = (P, F)" and d: "d = (Q, G)" by (cases c, cases d)
  have G: "G = forget F"
    using assms(1) by (simp add: c d)
  show ?thesis
  proof (cases t)
    case (Host p)
    with assms c obtain e es F' where "P p = e # es" "host_does p e F = Some F'" "c' = (P(p := es), F')"
      by (auto split: list.splits)
    with follows_host [of P F Q G p e es F'] assms(1) show ?thesis
      by (simp only: Host c d)
  next
    case (Execute p)
    with assms c d G obtain F' where "c' = (P, F')" "nic_execute p F = Some F'" by auto
    with nic_keeps [of p F F'] assms(1) show ?thesis
      by (simp add: Execute c d G nic_forget)
  next
    case (Complete p)
    with assms c d G obtain F' where "c' = (P, F')" "nic_complete p F = Some F'" by auto
    with nic_keeps [of p F F'] assms(1) show ?thesis
      by (simp add: Complete c d G nic_forget)
  next
    case (Arrive p)
    with assms c d G obtain F' where "c' = (P, F')" "nic_arrive p F = Some F'" by auto
    with nic_keeps [of p F F'] assms(1) show ?thesis
      by (simp add: Arrive c d G nic_forget)
  qed
qed

interpretation scripts: stuttering_simulation host_does act follows
  by unfold_locales (rule follows_step)

section \<open>The scripts of the roles\<close>

definition send_wr :: "resources \<Rightarrow> ibv_opcode \<Rightarrow> ibv_send_wr" where
  "send_wr r opcode = \<lparr>sr_addr = buf r, sr_length = MSG_SIZE, sr_lkey = mr_lkey r, sr_opcode = opcode,
     sr_signaled = True, sr_remote_addr = (if opcode = WR_SEND then 0 else addr (remote_props r)),
     sr_rkey = (if opcode = WR_SEND then 0 else rkey (remote_props r))\<rparr>"

definition server_script :: "resources \<Rightarrow> (nat \<times> action) list" where
  "server_script r =
     [(0, Put (replicate MSG_SIZE 0)), (0, Put (MSG @ [0])), (0, Put (MSG @ [0])), (0, Print),
      (0, Tell 40), (40, Tell 1),
      (41, Send (send_wr r WR_SEND)), (41, Await), (41, Put (RDMAMSGR @ [0])), (41, Tell 1),
      (42, Tell 1), (43, Print)]"

definition client_script :: "resources \<Rightarrow> (nat \<times> action) list" where
  "client_script r =
     [(0, Put (replicate MSG_SIZE 0)), (0, Put (replicate MSG_SIZE 0)),
      (0, Tell 40), (40, Recv), (40, Tell 1),
      (41, Await), (41, Print), (41, Tell 1),
      (42, Send (send_wr r WR_RDMA_READ)), (42, Await), (42, Print), (42, Put (RDMAMSGW @ [0])), (42, Print),
      (42, Send (send_wr r WR_RDMA_WRITE)), (42, Await), (42, Tell 1)]"

section \<open>Stages and what they play\<close>

text \<open>The actions of a run of events.\<close>

definition acts :: "event list \<Rightarrow> action list" where
  "acts es = concat (map (\<lambda>e. case action_of e of None \<Rightarrow> [] | Some a \<Rightarrow> [a]) es)"

lemma acts_simps [simp]: "acts [] = []" "acts (es @ fs) = acts es @ acts fs"
  "acts (e # es) = (case action_of e of None \<Rightarrow> [] | Some a \<Rightarrow> [a]) @ acts es"
  "acts (map SockRead rs) = []" "acts (acquire_ptr g x) = []" "acts (acquire_fd fd) = []"
  by (simp_all add: acts_def acquire_ptr_def acquire_fd_def concat_eq_Nil_conv)

lemma script_acts: "k \<le> j \<Longrightarrow> at_least (script j es) (map (Pair k) (acts es))"
  by (induction es arbitrary: j) (auto split: option.splits)

text \<open>
  The process has played \<open>S\<close> and read \<open>k\<close> bytes; \<open>b\<close> says whether it is a client, \<open>P\<close> what is known of
  its resources. A stage that succeeds adds to the script.
\<close>

definition played :: "bool \<Rightarrow> (resources \<Rightarrow> bool) \<Rightarrow> nat \<Rightarrow> (nat \<times> action) list \<Rightarrow> 'w proc \<Rightarrow> bool" where
  "played b P k S s \<longleftrightarrow> is_client s = b \<and> P (rsrc s) \<and> k \<le> got (trace (host s)) \<and>
     at_least (script 0 (trace (host s))) S"

definition plays ::
  "bool \<Rightarrow> (resources \<Rightarrow> bool) \<Rightarrow> 'w stage \<Rightarrow> nat \<Rightarrow> action list \<Rightarrow> bool" where
  "plays b P f n A \<longleftrightarrow> (\<forall>s s'. f s = Returned (0, s') \<longrightarrow> is_client s = b \<longrightarrow> P (rsrc s) \<longrightarrow>
     is_client s' = b \<and> P (rsrc s') \<and>
     (\<exists>es. trace (host s') = trace (host s) @ es \<and> acts es = A \<and> n \<le> got es))"

lemma playsI:
  assumes "\<And>s s'. f s = Returned (0, s') \<Longrightarrow> is_client s = b \<Longrightarrow> P (rsrc s) \<Longrightarrow> is_client s' = b \<and> P (rsrc s') \<and>
     (\<exists>es. trace (host s') = trace (host s) @ es \<and> acts es = A \<and> n \<le> got es)"
  shows "plays b P f n A"
  using assms unfolding plays_def by blast

lemma plays_played:
  assumes "plays b P f n A" "played b P k S s" "f s = Returned (0, s')"
  shows "played b P (k + n) (S @ map (Pair k) A) s'"
proof -
  obtain es where s': "is_client s' = b" "P (rsrc s')" "trace (host s') = trace (host s) @ es" "acts es = A" "n \<le> got es"
    using assms unfolding plays_def played_def by blast
  have "at_least (script (got (trace (host s))) es) (map (Pair k) A)"
    using assms(2) s'(4) script_acts [of k _ es] by (simp add: played_def)
  with assms(2) s' show ?thesis
    by (simp add: played_def at_least_append)
qed

definition goes :: "bool \<Rightarrow> (resources \<Rightarrow> bool) \<Rightarrow> nat \<Rightarrow> (nat \<times> action) list \<Rightarrow> 'w stage \<Rightarrow> nat \<Rightarrow> (nat \<times> action) list \<Rightarrow> bool" where
  "goes b P k S f k' S' \<longleftrightarrow> triple (played b P k S) f (\<lambda>rc s. rc = 0 \<longrightarrow> played b P k' S' s)"

lemma goes_one: "plays b P f n A \<Longrightarrow> goes b P k S f (k + n) (S @ map (Pair k) A)"
  unfolding goes_def by (rule tripleI) (blast intro: plays_played)

lemma goes_then: "goes b P k S f k' S' \<Longrightarrow> goes b P k' S' g k'' S'' \<Longrightarrow> goes b P k S (then_rc f g) k'' S''"
  unfolding goes_def by (erule triple_then) (auto elim: triple_weaken)

section \<open>The exchanges over the socket\<close>

lemma sync_loop_total:
  assumes "sync_loop OS sk xfer rc n remote h = Some res" "rc \<le> 0"
  shows "fst res \<le> 0 \<and> (\<exists>rs. trace (snd (snd res)) = trace h @ map SockRead rs \<and>
    (fst res = 0 \<longrightarrow> xfer \<le> n + int (got (map SockRead rs))))"
proof (rule sync_loop.raw_induct [where P = "\<lambda>OS sk xfer rc n remote h res. rc \<le> 0 \<longrightarrow> fst res \<le> 0 \<and>
    (\<exists>rs. trace (snd (snd res)) = trace h @ map SockRead rs \<and> (fst res = 0 \<longrightarrow> xfer \<le> n + int (got (map SockRead rs))))",
    OF _ assms(1), rule_format, OF _ assms(2)])
  fix f OS sk xfer rc n remote h res
  assume IH: "\<And>OS sk xfer rc n remote h res. f OS sk xfer rc n remote h = Some res \<Longrightarrow> rc \<le> 0 \<Longrightarrow> fst res \<le> 0 \<and>
      (\<exists>rs. trace (snd (snd res)) = trace h @ map SockRead rs \<and> (fst res = 0 \<longrightarrow> xfer \<le> n + int (got (map SockRead rs))))"
    and eq: "(if rc = 0 \<and> n < xfer then
        (let ((r, data), h) = sys_read OS sk (nat xfer) h
         in if r > 0 then f OS sk xfer rc (n + r) (blit data remote) h
            else f OS sk xfer r n remote h)
      else Some (rc, remote, h)) = Some res" and rc: "rc \<le> 0"
  let ?r = "fst (fst (sys_read OS sk (nat xfer) h))" and ?h = "snd (sys_read OS sk (nat xfer) h)"
  show "fst res \<le> 0 \<and> (\<exists>rs. trace (snd (snd res)) = trace h @ map SockRead rs \<and>
      (fst res = 0 \<longrightarrow> xfer \<le> n + int (got (map SockRead rs))))"
  proof (cases "rc = 0 \<and> n < xfer")
    case False
    with eq rc have "res = (rc, remote, h)" by auto
    with False rc show ?thesis by (auto intro: exI [of _ "[]"])
  next
    case True
    then obtain rc' n' remote' where f: "f OS sk xfer rc' n' remote' ?h = Some res"
      and n': "rc' \<le> 0" "n' = n + int (nat ?r)"
      using eq by (simp add: split_def Let_def split: if_splits)
    from IH [OF f n'(1)] obtain rs where "fst res \<le> 0" "trace (snd (snd res)) = trace ?h @ map SockRead rs"
      "fst res = 0 \<longrightarrow> xfer \<le> n' + int (got (map SockRead rs))"
      by blast
    then show ?thesis
      by (intro conjI exI [of _ "?r # rs"]) (auto simp: sys_read_trace n'(2) add.assoc split: if_splits)
  qed
qed

lemma sock_sync_data_total:
  assumes "sock_sync_data OS sk l remote h = Returned (rc, remote', h')"
  shows "rc \<le> 0 \<and> (rc = 0 \<longrightarrow> (\<exists>es. trace h' = trace h @ es \<and> acts es = [Tell (length l)] \<and> length l \<le> got es))"
proof -
  let ?h = "snd (ext (e_write OS sk l) (\<lambda>r. [SockWrite l r]) h)"
  have "sync_loop OS sk (int (length l)) 0 0 remote ?h = Some (rc, remote', h')"
    and t: "trace ?h = trace h @ [SockWrite l (int (length l))]"
    using assms by (auto simp: sock_sync_data_def call_simps Let_def split_def of_loop_def split: if_splits option.splits)
  from sync_loop_total [OF this(1)] obtain rs where "rc \<le> 0" "trace h' = trace ?h @ map SockRead rs"
    "rc = 0 \<longrightarrow> int (length l) \<le> int (got (map SockRead rs))"
    by auto
  then show ?thesis
    by (auto simp: t intro!: exI [of _ "SockWrite l (int (length l)) # map SockRead rs"])
qed

lemma play_sync: "plays b P (sync_char M OS c) 1 [Tell 1]"
  by (rule playsI) (auto simp: sync_char_def is_client_def chars_def dest!: sock_sync_data_total split: if_splits)

lemma play_exchange:
  assumes "length (stack_pad M) = 6" "length g = 16"
  shows "plays b (\<lambda>_. True) (connect_exchange M OS g) 40 [Tell 40]"
proof -
  have "length (put_con_data (byte_order M) (stack_pad M) (con_data_hton (byte_order M) (local_con_data r g))) = 40" for r
    using assms by (simp add: length_hton_con_data local_con_data_def)
  then show ?thesis
    by (intro playsI) (auto simp: connect_exchange_def is_client_def Let_def
        dest!: sock_sync_data_total split: if_splits)
qed

section \<open>The other stages\<close>

lemma play_requests:
  "plays b P (connect_init V) 0 []" "plays b P (connect_rtr V) 0 []" "plays b P (connect_rts V) 0 []"
  "plays True P (connect_recv V) 0 [Recv]" "plays False P (connect_recv V) 0 []"
  by (rule playsI; auto simp: connect_init_def connect_recv_def connect_rtr_def connect_rts_def is_client_def
      on_host_def verbs_calls call_simps Let_def split: if_splits)+

lemma play_send: "plays b (\<lambda>r. r = r0) (main_post V opcode) 0 [Send (send_wr r0 opcode)]"
  by (rule playsI) (auto simp: main_post_def send_wr_def is_client_def on_host_def verbs_calls call_simps Let_def)

lemma play_poll: "plays b P (main_poll OS V) 0 [Await]"
proof (rule playsI)
  fix s s' assume "main_poll OS V s = Returned (0, s')" and b: "is_client s = b" "P (rsrc s)"
  then obtain h where h: "poll_completion OS V (rsrc s) (host s) = Returned (0, h)" and s': "s' = s\<lparr>host := h\<rparr>"
    by (auto simp: main_poll_def)
  obtain sts n where "n > 0" "trace h = trace (host s) @ map (PollCq 0) sts @ [PollCq n 0]"
    using poll_completion_found h by blast
  moreover have "acts (map (PollCq 0) sts) = []"
    by (induction sts) simp_all
  ultimately show "is_client s' = b \<and> P (rsrc s') \<and>
      (\<exists>es. trace (host s') = trace (host s) @ es \<and> acts es = [Await] \<and> 0 \<le> got es)"
    using b by (auto simp: s' is_client_def)
qed

lemma play_buffers:
  "plays True P (after_message OS) 0 [Print]" "plays False P (after_message OS) 0 [Put (RDMAMSGR @ [0])]"
  "plays b P (client_rewrite OS) 0 [Print, Put (RDMAMSGW @ [0]), Print]"
  "plays True P (server_show OS) 0 []" "plays False P (server_show OS) 0 [Print]"
  by (rule playsI; auto simp: after_message_def client_rewrite_def server_show_def is_client_def call_simps)+

lemma play_creates:
  "plays b (\<lambda>_. True) (create_sock OS) 0 []" "plays b (\<lambda>_. True) (create_device V) 0 []"
  "plays b (\<lambda>_. True) (create_port V) 0 []" "plays b (\<lambda>_. True) (create_pd V) 0 []"
  "plays b (\<lambda>_. True) (create_cq V) 0 []" "plays b (\<lambda>_. True) (create_mr V) 0 []"
  "plays b (\<lambda>_. True) (create_qp V) 0 []"
  by (rule playsI; auto simp: create_sock_def create_device_def create_port_def create_pd_def create_cq_def
      create_mr_def create_qp_def sock_connect_def sys_close_def is_client_def call_simps Let_def split_def
      split: if_splits option.splits)+

lemma play_create_buf:
  "plays False (\<lambda>_. True) (create_buf OS) 0
     [Put (replicate MSG_SIZE 0), Put (MSG @ [0]), Put (MSG @ [0]), Print]"
  "plays True (\<lambda>_. True) (create_buf OS) 0 [Put (replicate MSG_SIZE 0), Put (replicate MSG_SIZE 0)]"
  by (rule playsI; auto simp: create_buf_def is_client_def call_simps Let_def split_def split: if_splits)+

section \<open>Whole runs\<close>

lemma goes_skip: "plays b P f 0 [] \<Longrightarrow> goes b P k S f k S"
  using goes_one [of b P f 0 "[]" k S] by simp

lemma goes_eq: "goes b P k S f k' S' \<Longrightarrow> k' = k'' \<Longrightarrow> S' = S'' \<Longrightarrow> goes b P k S f k'' S''"
  by simp

lemma goes_like: "goes b P k S f k' S' \<Longrightarrow> (\<And>s. is_client s = b \<Longrightarrow> g s = f s) \<Longrightarrow> goes b P k S g k' S'"
  unfolding goes_def triple_def played_def by metis

lemma goes_skip_like: "(\<And>s. is_client s = b \<Longrightarrow> g s = Returned (0, s)) \<Longrightarrow> goes b P k S g k S"
  by (rule goes_skip, rule playsI) auto

lemmas goes_stages = goes_then play_creates [THEN goes_skip] play_requests(1-3) [THEN goes_skip]
  play_sync [THEN goes_one] play_poll [THEN goes_one] play_send [THEN goes_one] play_buffers(1-3,5) [THEN goes_one]
  play_buffers(4) [THEN goes_skip]

lemma goes_create:
  assumes "plays b (\<lambda>_. True) (create_buf OS) 0 A"
  shows "goes b (\<lambda>_. True) k S (resources_create OS V) k (S @ map (Pair k) A)"
proof -
  have stages: "goes b (\<lambda>_. True) k S (create_stages OS V) k (S @ map (Pair k) A)"
    unfolding create_stages_def by (rule goes_eq, (rule goes_stages goes_one [OF assms])+) simp_all
  show ?thesis
    unfolding goes_def
  proof (rule tripleI, rule impI)
    fix s rc s' assume s: "played b (\<lambda>_. True) k S s" and "resources_create OS V s = Returned (rc, s')" and rc: "rc = 0"
    then obtain rc1 s1 where c: "create_stages OS V (s\<lparr>dev_list := 0\<rparr>) = Returned (rc1, s1)"
      and s': "(rc, s') = create_exit OS V rc1 s1"
      by (auto simp: resources_create_def)
    have "fst (create_exit OS V rc1 s1) = rc1"
      by (simp add: create_exit_def split_def Let_def)
    then have "rc1 = 0 \<and> s' = s1"
      using s' rc by (metis create_exit_def fst_conv snd_conv)
    moreover have "played b (\<lambda>_. True) k S (s\<lparr>dev_list := 0\<rparr>)"
      using s by (simp add: played_def is_client_def)
    ultimately show "played b (\<lambda>_. True) k (S @ map (Pair k) A) s'"
      using tripleD [OF stages [unfolded goes_def] _ c] by blast
  qed
qed

lemma goes_connect:
  assumes "length (stack_pad M) = 6" "\<forall>c p i w. length (snd (fst (v_query_gid V c p i w))) = 16"
    and "plays b (\<lambda>_. True) (connect_recv V) 0 A"
  shows "goes b (\<lambda>_. True) k S (connect_qp M OS V) (k + 41)
    (S @ [(k, Tell 40)] @ map (Pair (k + 40)) A @ [(k + 40, Tell 1)])"
  unfolding goes_def
proof (rule tripleI, rule impI)
  fix s rc s' assume s: "played b (\<lambda>_. True) k S s" and c: "connect_qp M OS V s = Returned (rc, s')" and "rc = 0"
  let ?f = "\<lambda>g. then_rc (connect_exchange M OS g) (then_rc (connect_init V) (then_rc (connect_recv V)
    (then_rc (connect_rtr V) (then_rc (connect_rts V) (sync_char M OS CHR ''Q'')))))"
  obtain rc1 g s1 where g: "connect_gid V s = (rc1, g, s1)"
    by (cases "connect_gid V s")
  with assms(2) have lg: "length g = 16"
    by (auto simp: connect_gid_def call_simps Let_def split_def split: if_splits)
  have s1: "played b (\<lambda>_. True) k S s1"
    using s g by (auto simp: connect_gid_def call_simps Let_def split_def played_def is_client_def split: if_splits)
  have f: "?f g s1 = Returned (0, s')"
    using c g \<open>rc = 0\<close> by (auto simp: connect_qp_def split: if_splits)
  have "goes b (\<lambda>_. True) k S (?f g) (k + 41)
      (S @ [(k, Tell 40)] @ map (Pair (k + 40)) A @ [(k + 40, Tell 1)])"
    by (rule goes_eq, (rule goes_stages goes_one [OF play_exchange [OF assms(1) lg]] goes_one [OF assms(3)])+) simp_all
  from tripleD [OF this [unfolded goes_def] s1 f] show "played b (\<lambda>_. True) (k + 41)
      (S @ [(k, Tell 40)] @ map (Pair (k + 40)) A @ [(k + 40, Tell 1)]) s'"
    by simp
qed

text \<open>After the connection the resources stay as they are.\<close>

definition rest_stages :: "machine \<Rightarrow> 'w os \<Rightarrow> 'w verbs \<Rightarrow> 'w stage" where
  "rest_stages M OS V = then_rc (server_send V) (then_rc (main_poll OS V) (then_rc (after_message OS)
     (then_rc (sync_char M OS CHR ''R'') (then_rc (client_rdma OS V) (then_rc (sync_char M OS CHR ''W'')
       (server_show OS))))))"

lemma goes_rest_server:
  "goes False (\<lambda>r. r = r0) k S (rest_stages M OS V) (k + 2)
     (S @ [(k, Send (send_wr r0 WR_SEND)), (k, Await), (k, Put (RDMAMSGR @ [0])), (k, Tell 1),
       (k + 1, Tell 1), (k + 2, Print)])"
proof -
  have send: "goes False (\<lambda>r. r = r0) k S (server_send V) (k + 0) (S @ map (Pair k) [Send (send_wr r0 WR_SEND)])" for k S
    by (rule goes_like [OF goes_one [OF play_send]]) (simp add: server_send_def)
  have rdma: "goes False (\<lambda>r. r = r0) k S (client_rdma OS V) k S" for k S
    by (rule goes_skip_like) (simp add: client_rdma_def)
  show ?thesis
    unfolding rest_stages_def by (rule goes_eq, (rule goes_stages send rdma)+) simp_all
qed

lemma goes_rest_client:
  "goes True (\<lambda>r. r = r0) k S (rest_stages M OS V) (k + 2)
     (S @ [(k, Await), (k, Print), (k, Tell 1), (k + 1, Send (send_wr r0 WR_RDMA_READ)), (k + 1, Await),
       (k + 1, Print), (k + 1, Put (RDMAMSGW @ [0])), (k + 1, Print), (k + 1, Send (send_wr r0 WR_RDMA_WRITE)),
       (k + 1, Await), (k + 1, Tell 1)])"
proof -
  let ?f = "then_rc (main_post V WR_RDMA_READ) (then_rc (main_poll OS V) (then_rc (client_rewrite OS)
      (then_rc (main_post V WR_RDMA_WRITE) (main_poll OS V))))"
  have send: "goes True (\<lambda>r. r = r0) k S (server_send V) k S" for k S
    by (rule goes_skip_like) (simp add: server_send_def)
  have f: "goes True (\<lambda>r. r = r0) k S ?f k (S @ map (Pair k) [Send (send_wr r0 WR_RDMA_READ), Await, Print,
      Put (RDMAMSGW @ [0]), Print, Send (send_wr r0 WR_RDMA_WRITE), Await])" for k S
    by (rule goes_eq, (rule goes_stages)+) simp_all
  have rdma: "goes True (\<lambda>r. r = r0) k S (client_rdma OS V) k (S @ map (Pair k) [Send (send_wr r0 WR_RDMA_READ), Await,
      Print, Put (RDMAMSGW @ [0]), Print, Send (send_wr r0 WR_RDMA_WRITE), Await])" for k S
    by (rule goes_like [OF f]) (simp add: client_rdma_def)
  show ?thesis
    unfolding rest_stages_def by (rule goes_eq, (rule goes_stages send rdma)+) simp_all
qed

definition role_script :: "bool \<Rightarrow> resources \<Rightarrow> (nat \<times> action) list" where
  "role_script client r = (if client then client_script r else server_script r)"

lemma main_stages_script:
  assumes "main_stages M OS V s = Returned (0, s')" "trace (host s) = []" "length (stack_pad M) = 6"
    "\<forall>c p i w. length (snd (fst (v_query_gid V c p i w))) = 16"
  shows "is_client s' = is_client s \<and> at_least (script 0 (trace (host s'))) (role_script (is_client s) (rsrc s'))"
proof -
  obtain s1 s2 where c: "resources_create OS V s = Returned (0, s1)" and k: "connect_qp M OS V s1 = Returned (0, s2)"
    and r: "rest_stages M OS V s2 = Returned (0, s')"
    using assms(1) by (auto simp: main_stages_def rest_stages_def then_rc_def [of "resources_create OS V"]
      then_rc_def [of "connect_qp M OS V"] split: if_splits)
  have create: "played b (\<lambda>_. True) 0 (map (Pair 0) A) s1"
    if "plays b (\<lambda>_. True) (create_buf OS) 0 A" "is_client s = b" for b A
    using tripleD [OF goes_create [OF that(1), of 0 "[]" V, unfolded goes_def] _ c] that(2) assms(2)
    by (simp add: played_def)
  show ?thesis
  proof (cases "is_client s")
    case True
    note 1 = create [OF play_create_buf(2)]
    note 2 = tripleD [OF goes_connect [OF assms(3,4) play_requests(4), unfolded goes_def] 1 k, rule_format, OF _ refl]
    from 2 True have "played True (\<lambda>r. r = rsrc s2) 41 [(0, Put (replicate MSG_SIZE 0)), (0, Put (replicate MSG_SIZE 0)),
        (0, Tell 40), (40, Recv), (40, Tell 1)] s2"
      by (simp add: played_def)
    from tripleD [OF goes_rest_client [unfolded goes_def] this r, rule_format, OF refl] show ?thesis
      using True by (auto simp: played_def role_script_def client_script_def)
  next
    case False
    note 1 = create [OF play_create_buf(1)]
    note 2 = tripleD [OF goes_connect [OF assms(3,4) play_requests(5), unfolded goes_def] 1 k, rule_format, OF _ refl]
    from 2 False have "played False (\<lambda>r. r = rsrc s2) 41 [(0, Put (replicate MSG_SIZE 0)), (0, Put (MSG @ [0])),
        (0, Put (MSG @ [0])), (0, Print), (0, Tell 40), (40, Tell 1)] s2"
      by (simp add: played_def)
    from tripleD [OF goes_rest_server [unfolded goes_def] this r, rule_format, OF refl] show ?thesis
      using False by (auto simp: played_def role_script_def server_script_def)
  qed
qed

lemma script_silent: "acts es = [] \<Longrightarrow> script k es = []"
  by (induction es arbitrary: k) (auto split: option.splits)

lemma destroy_silent:
  "\<exists>es. trace (host (snd (resources_destroy OS V s))) = trace (host s) @ es \<and> acts es = []"
  by (simp add: resources_destroy_def release_defs call_simps Let_def split_def)

lemma rcmain_script:
  assumes "rcmain M OS V opts rest s = Returned (0, s')" "trace (host s) = []" "server_name (config s) = None"
    and "length (stack_pad M) = 6" "\<forall>c p i w. length (snd (fst (v_query_gid V c p i w))) = 16"
  shows "at_least (script 0 (trace (host s'))) (role_script (rest \<noteq> []) (rsrc s'))"
proof -
  obtain cfg where cfg: "parse_args opts rest (config s) = Some cfg"
    using assms(1) by (auto simp: rcmain_def split: option.splits)
  let ?s = "s\<lparr>config := cfg, rsrc := resources_init\<rparr>"
  obtain s1 where m: "main_stages M OS V ?s = Returned (0, s1)" and s': "s' = snd (resources_destroy OS V s1)"
    using assms(1) cfg by (auto simp: rcmain_def split_def Let_def split: if_splits)
  have c: "is_client ?s \<longleftrightarrow> rest \<noteq> []"
    using parse_args_config [OF cfg assms(3)] by (simp add: is_client_def)
  have "at_least (script 0 (trace (host s1))) (role_script (rest \<noteq> []) (rsrc s1))"
    using main_stages_script [OF m] assms(2,4,5) unfolding c by simp
  moreover obtain es where "trace (host s') = trace (host s1) @ es" "acts es = []"
    using destroy_silent [of OS V s1] unfolding s' by blast
  moreover have "rsrc s' = rsrc s1"
    using quiet_destroy [of s1 OS V] by (simp add: s')
  ultimately show ?thesis
    by (simp add: script_silent)
qed

end
