(* ===== verification/Rc_Joint.thy ===== *)
theory Rc_Joint
  imports Rc_Script
begin

text \<open>
  The scripts of a server and a client of rc_example.c running jointly over one connection: an
  invariant of every joint run, the end of every joint run, and that nobody is ever stuck.
\<close>

section \<open>Texts in the buffer\<close>

lemma text_of_store: "0 \<notin> set x \<Longrightarrow> length x < length m \<Longrightarrow> text_of (blit (x @ [0]) m) = x"
  by (simp add: text_of_def blit_def) (subst takeWhile_append2; auto)

lemma text_of_copy: "length m = length m' \<Longrightarrow> text_of (blit m m') = text_of m"
  by (simp add: blit_def)

lemma messages: "0 \<notin> set MSG" "0 \<notin> set RDMAMSGR" "0 \<notin> set RDMAMSGW"
  "length MSG < MSG_SIZE" "length RDMAMSGR < MSG_SIZE" "length RDMAMSGW < MSG_SIZE"
  by (simp_all add: MSG_def RDMAMSGR_def RDMAMSGW_def chars_def MSG_SIZE_def)

section \<open>The joint state\<close>

text \<open>
  The server has done \<open>i\<close> steps of its script, the client \<open>j\<close>. The bytes written follow from that, and
  so does who waits for whom.
\<close>

definition server_wrote :: "nat \<Rightarrow> nat" where
  "server_wrote i = (if i < 5 then 0 else if i < 6 then 40 else if i < 10 then 41 else if i < 11 then 42 else 43)"

definition client_wrote :: "nat \<Rightarrow> nat" where
  "client_wrote j = (if j < 3 then 0 else if j < 5 then 40 else if j < 8 then 41 else if j < 16 then 42 else 43)"

definition in_step :: "nat \<Rightarrow> nat \<Rightarrow> fabric \<Rightarrow> bool" where
  "in_step i j F \<longleftrightarrow> i \<le> 12 \<and> j \<le> 16 \<and> written (F Server) = server_wrote i \<and> written (F Client) = client_wrote j \<and>
     (6 \<le> i \<longrightarrow> 3 \<le> j) \<and> (7 \<le> i \<longrightarrow> 5 \<le> j) \<and> (11 \<le> i \<longrightarrow> 8 \<le> j) \<and> (12 \<le> i \<longrightarrow> 16 \<le> j) \<and>
     (4 \<le> j \<longrightarrow> 5 \<le> i) \<and> (6 \<le> j \<longrightarrow> 6 \<le> i) \<and> (9 \<le> j \<longrightarrow> 10 \<le> i)"

text \<open>The request \<open>sr\<close> is with the card of one side, and whether a card has executed its request.\<close>

definition working :: "side \<Rightarrow> ibv_send_wr \<Rightarrow> bool" where
  "working s sr \<longleftrightarrow> sq s = Some (Waiting sr) \<and> ready s = 0 \<or> sq s = Some Executed \<and> ready s = 0 \<or>
     sq s = None \<and> ready s = 1"

definition executed :: "side \<Rightarrow> bool" where
  "executed s \<longleftrightarrow> (\<forall>sr. sq s \<noteq> Some (Waiting sr))"

definition delivered :: "nat \<Rightarrow> side \<Rightarrow> bool" where
  "delivered i s \<longleftrightarrow> 8 \<le> i \<or> i = 7 \<and> executed s"

definition read_done :: "nat \<Rightarrow> side \<Rightarrow> bool" where
  "read_done j s \<longleftrightarrow> 10 \<le> j \<or> j = 9 \<and> executed s"

definition write_done :: "nat \<Rightarrow> side \<Rightarrow> bool" where
  "write_done j s \<longleftrightarrow> 15 \<le> j \<or> j = 14 \<and> executed s"

text \<open>
  The cards: \<open>d\<close> says whether the message has been delivered to the client.
\<close>

definition server_card :: "resources \<Rightarrow> nat \<Rightarrow> side \<Rightarrow> bool" where
  "server_card rs i s \<longleftrightarrow> arrived s = 0 \<and> recvs s = 0 \<and>
     (if i = 7 then working s (send_wr rs WR_SEND) else sq s = None \<and> ready s = 0)"

definition client_card :: "resources \<Rightarrow> nat \<Rightarrow> bool \<Rightarrow> side \<Rightarrow> bool" where
  "client_card rc j d s \<longleftrightarrow> recvs s = (if 4 \<le> j \<and> \<not> d then 1 else 0) \<and>
     (if j < 6 then sq s = None \<and> arrived s + ready s = (if d then 1 else 0)
      else d \<and> arrived s = 0 \<and>
        (if j = 9 then working s (send_wr rc WR_RDMA_READ)
         else if j = 14 then working s (send_wr rc WR_RDMA_WRITE)
         else sq s = None \<and> ready s = 0))"

text \<open>The buffers and what has been printed: \<open>w\<close> says whether the client's write has reached the server.\<close>

definition server_buf :: "nat \<Rightarrow> bool \<Rightarrow> side \<Rightarrow> bool" where
  "server_buf i w s \<longleftrightarrow> length (mem s) = MSG_SIZE \<and>
     (2 \<le> i \<longrightarrow> text_of (mem s) = (if w then RDMAMSGW else if 9 \<le> i then RDMAMSGR else MSG)) \<and>
     shown s = (if 4 \<le> i then [MSG] else []) @ (if 12 \<le> i then [RDMAMSGW] else [])"

definition client_buf :: "nat \<Rightarrow> bool \<Rightarrow> side \<Rightarrow> bool" where
  "client_buf j d s \<longleftrightarrow> length (mem s) = MSG_SIZE \<and>
     (d \<longrightarrow> text_of (mem s) = (if 12 \<le> j then RDMAMSGW else if read_done j s then RDMAMSGR else MSG)) \<and>
     shown s = (if 7 \<le> j then [MSG] else []) @ (if 11 \<le> j then [RDMAMSGR] else []) @
        (if 13 \<le> j then [RDMAMSGW] else [])"

definition joint :: "resources \<Rightarrow> resources \<Rightarrow> nat \<Rightarrow> nat \<Rightarrow> fabric \<Rightarrow> bool" where
  "joint rs rc i j F \<longleftrightarrow> in_step i j F \<and>
     server_card rs i (F Server) \<and> client_card rc j (delivered i (F Server)) (F Client) \<and>
     server_buf i (write_done j (F Client)) (F Server) \<and> client_buf j (delivered i (F Server)) (F Client)"

lemmas progress_defs = working_def executed_def delivered_def read_done_def write_done_def

section \<open>Turns of the server\<close>

lemma server_wrote_ge [simp]: "40 \<le> server_wrote i \<longleftrightarrow> 5 \<le> i" "41 \<le> server_wrote i \<longleftrightarrow> 6 \<le> i"
  "42 \<le> server_wrote i \<longleftrightarrow> 10 \<le> i" "43 \<le> server_wrote i \<longleftrightarrow> 11 \<le> i"
  by (simp_all add: server_wrote_def)

lemma client_wrote_ge [simp]: "40 \<le> client_wrote j \<longleftrightarrow> 3 \<le> j" "41 \<le> client_wrote j \<longleftrightarrow> 5 \<le> j"
  "42 \<le> client_wrote j \<longleftrightarrow> 8 \<le> j" "43 \<le> client_wrote j \<longleftrightarrow> 16 \<le> j"
  by (simp_all add: client_wrote_def)

lemma below_12: "i < 12 \<Longrightarrow> i = 0 \<or> i = 1 \<or> i = 2 \<or> i = 3 \<or> i = 4 \<or> i = 5 \<or> i = 6 \<or> i = 7 \<or> i = 8 \<or> i = 9 \<or>
    i = 10 \<or> i = 11" for i :: nat
  by arith

lemma below_16: "j < 16 \<Longrightarrow> j = 0 \<or> j = 1 \<or> j = 2 \<or> j = 3 \<or> j = 4 \<or> j = 5 \<or> j = 6 \<or> j = 7 \<or> j = 8 \<or> j = 9 \<or>
    j = 10 \<or> j = 11 \<or> j = 12 \<or> j = 13 \<or> j = 14 \<or> j = 15" for j :: nat
  by arith

lemma server_turn_step:
  assumes "in_step i j F" "i < 12" "act Server (server_script rs ! i) F = Some F'"
  shows "in_step (Suc i) j F'"
  using below_12 [OF assms(2)] assms(1,3)
  by (elim disjE) (auto simp: server_script_def in_step_def server_wrote_def split: if_splits)

lemma server_turn_side:
  assumes "act Server a F = Some F'"
  shows "F' Client = F Client"
  using assms by (cases a; cases "snd a") (auto split: if_splits)

lemma server_turn_card:
  assumes "server_card rs i (F Server)" "i < 12" "act Server (server_script rs ! i) F = Some F'"
  shows "server_card rs (Suc i) (F' Server) \<and> delivered (Suc i) (F' Server) = delivered i (F Server)"
  using below_12 [OF assms(2)] assms(1,3)
  by (elim disjE) (auto simp: server_script_def server_card_def working_def delivered_def executed_def split: if_splits)

lemma server_turn_buf:
  assumes "server_buf i w (F Server)" "i < 12" "act Server (server_script rs ! i) F = Some F'"
    and "w \<longrightarrow> 10 \<le> i" "i = 11 \<longrightarrow> w"
  shows "server_buf (Suc i) w (F' Server)"
  using below_12 [OF assms(2)] assms(1,3,4,5)
  by (elim disjE) (auto simp: server_script_def server_buf_def text_of_store messages split: if_splits)

lemma server_turn:
  assumes J: "joint rs rc i j F" and i: "i < 12" and a: "act Server (server_script rs ! i) F = Some F'"
  shows "joint rs rc (Suc i) j F'"
proof -
  have step: "in_step (Suc i) j F'"
    using J i a server_turn_step unfolding joint_def by blast
  have "server_buf (Suc i) (write_done j (F Client)) (F' Server)"
    using J step by (intro server_turn_buf [OF _ i a]) (auto simp: joint_def in_step_def write_done_def)
  with J step server_turn_card [OF _ i a] server_turn_side [OF a] show ?thesis
    by (simp add: joint_def)
qed

section \<open>Turns of the client\<close>

lemma client_turn_step:
  assumes "in_step i j F" "j < 16" "act Client (client_script rc ! j) F = Some F'"
  shows "in_step i (Suc j) F'"
  using below_16 [OF assms(2)] assms(1,3)
  by (elim disjE) (auto simp: client_script_def in_step_def client_wrote_def split: if_splits)

lemma client_turn_side:
  assumes "act Client a F = Some F'"
  shows "F' Server = F Server"
  using assms by (cases a; cases "snd a") (auto split: if_splits)

lemma client_turn_card:
  assumes "client_card rc j d (F Client)" "j < 16" "act Client (client_script rc ! j) F = Some F'" "d \<longrightarrow> 5 \<le> j"
  shows "client_card rc (Suc j) d (F' Client) \<and> write_done (Suc j) (F' Client) = write_done j (F Client)"
  using below_16 [OF assms(2)] assms(1,3,4)
  by (elim disjE) (auto simp: client_script_def client_card_def working_def write_done_def executed_def split: if_splits)

lemma client_turn_buf:
  assumes "client_buf j d (F Client)" "client_card rc j d (F Client)" "j < 16"
    "act Client (client_script rc ! j) F = Some F'" "d \<longrightarrow> 5 \<le> j"
  shows "client_buf (Suc j) d (F' Client)"
  using below_16 [OF assms(3)] assms(1,2,4,5)
  by (elim disjE) (auto simp: client_script_def client_buf_def client_card_def working_def read_done_def executed_def
      text_of_store messages split: if_splits)

lemma delivered_late: "in_step i j F \<Longrightarrow> delivered i s \<Longrightarrow> 5 \<le> j"
  by (auto simp: in_step_def delivered_def)

lemma client_turn:
  assumes J: "joint rs rc i j F" and j: "j < 16" and a: "act Client (client_script rc ! j) F = Some F'"
  shows "joint rs rc i (Suc j) F'"
proof -
  have d: "delivered i (F Server) \<longrightarrow> 5 \<le> j"
    using J delivered_late unfolding joint_def by blast
  from J client_turn_step [OF _ j a] client_turn_card [OF _ j a d] client_turn_buf [OF _ _ j a d] client_turn_side [OF a]
  show ?thesis
    by (simp add: joint_def)
qed

section \<open>Turns of the cards\<close>

lemma execute_server:
  assumes J: "joint rs rc i j F" and x: "nic_execute Server F = Some F'"
  shows "joint rs rc i j F'"
proof -
  obtain sr where w: "sq (F Server) = Some (Waiting sr)"
    using x by (auto simp: nic_execute_def split: option.splits progress.splits)
  then have i: "i = 7" and sr: "sr = send_wr rs WR_SEND"
    using J by (auto simp: joint_def server_card_def working_def split: if_splits)
  have d: "\<not> delivered i (F Server)"
    using w i by (simp add: delivered_def executed_def)
  then have j: "j < 6"
    using J by (auto simp: joint_def client_card_def split: if_splits)
  have F': "F' Server = (F Server)\<lparr>sq := Some Executed\<rparr>" "F' Client = (F Client)\<lparr>mem := blit (take MSG_SIZE (mem (F Server)))
      (mem (F Client)), recvs := recvs (F Client) - 1, arrived := Suc (arrived (F Client))\<rparr>" "0 < recvs (F Client)"
    using x w sr by (auto simp: nic_execute_def send_wr_def Let_def split: if_splits)
  show ?thesis
    using J i j d F' by (auto simp: joint_def in_step_def server_card_def client_card_def server_buf_def client_buf_def
        progress_defs text_of_copy split: if_splits)
qed

lemma execute_client:
  assumes J: "joint rs rc i j F" and x: "nic_execute Client F = Some F'"
  shows "joint rs rc i j F'"
proof -
  obtain sr where w: "sq (F Client) = Some (Waiting sr)"
    using x by (auto simp: nic_execute_def split: option.splits progress.splits)
  then have "j = 9 \<and> sr = send_wr rc WR_RDMA_READ \<or> j = 14 \<and> sr = send_wr rc WR_RDMA_WRITE"
    using J by (auto simp: joint_def client_card_def working_def split: if_splits)
  moreover have i: "10 \<le> i" if "9 \<le> j"
    using J that by (simp add: joint_def in_step_def)
  ultimately show ?thesis
  proof (elim disjE)
    assume j: "j = 9 \<and> sr = send_wr rc WR_RDMA_READ"
    then have F': "F' Server = F Server"
      "F' Client = (F Client)\<lparr>sq := Some Executed, mem := blit (take MSG_SIZE (mem (F Server))) (mem (F Client))\<rparr>"
      using x w by (auto simp: nic_execute_def send_wr_def Let_def split: if_splits)
    show ?thesis
      using J i j F' w by (auto simp: joint_def in_step_def server_card_def client_card_def server_buf_def client_buf_def
          progress_defs text_of_copy split: if_splits)
  next
    assume j: "j = 14 \<and> sr = send_wr rc WR_RDMA_WRITE"
    then have F': "F' Client = (F Client)\<lparr>sq := Some Executed\<rparr>"
      "F' Server = (F Server)\<lparr>mem := blit (take MSG_SIZE (mem (F Client))) (mem (F Server))\<rparr>"
      using x w by (auto simp: nic_execute_def send_wr_def Let_def split: if_splits)
    show ?thesis
      using J i j F' w by (auto simp: joint_def in_step_def server_card_def client_card_def server_buf_def client_buf_def
          progress_defs text_of_copy split: if_splits)
  qed
qed

lemma complete_card:
  assumes "nic_complete p F = Some F'"
  shows "F' (peer p) = F (peer p)" "F' p = (F p)\<lparr>sq := None, ready := Suc (ready (F p))\<rparr>" "sq (F p) = Some Executed"
  using assms by (auto simp: nic_complete_def split: if_splits)

lemma complete_turn:
  assumes J: "joint rs rc i j F" and x: "nic_complete p F = Some F'"
  shows "joint rs rc i j F'"
  using J complete_card [OF x]
  by (cases p) (auto simp: joint_def in_step_def server_card_def client_card_def server_buf_def client_buf_def
      progress_defs split: if_splits)

lemma arrive_turn:
  assumes J: "joint rs rc i j F" and x: "nic_arrive p F = Some F'"
  shows "joint rs rc i j F'"
proof -
  have p: "p = Client"
    using J x by (cases p) (auto simp: joint_def server_card_def nic_arrive_def split: if_splits)
  then have "F' Server = F Server" "0 < arrived (F Client)"
    "F' Client = (F Client)\<lparr>arrived := arrived (F Client) - 1, ready := Suc (ready (F Client))\<rparr>"
    using x by (auto simp: nic_arrive_def split: if_splits)
  with J show ?thesis
    by (auto simp: joint_def in_step_def client_card_def client_buf_def progress_defs split: if_splits)
qed

section \<open>Joint runs of the two roles\<close>

definition side_start :: "bytes \<Rightarrow> u64 \<times> u32 \<Rightarrow> side" where
  "side_start m reg = \<lparr>mem = m, region = reg, recvs = 0, sq = None, arrived = 0, ready = 0, written = 0, taken = 0,
     shown = []\<rparr>"

definition fabric_start :: "(role \<Rightarrow> bytes) \<Rightarrow> (role \<Rightarrow> u64 \<times> u32) \<Rightarrow> fabric" where
  "fabric_start m reg p = side_start (m p) (reg p)"

fun on_track :: "resources \<Rightarrow> resources \<Rightarrow> (nat \<times> action) system \<Rightarrow> bool" where
  "on_track rs rc (Q, F) \<longleftrightarrow> (\<exists>i j. Q Server = drop i (server_script rs) \<and> Q Client = drop j (client_script rc) \<and>
     joint rs rc i j F)"

lemma length_scripts: "length (server_script rs) = 12" "length (client_script rc) = 16"
  by (simp_all add: server_script_def client_script_def)

lemma drop_next: "drop i xs = x # ys \<Longrightarrow> i < length xs \<and> x = xs ! i \<and> ys = drop (Suc i) xs"
  by (metis Cons_nth_drop_Suc drop_eq_Nil list.inject list.simps(3) not_le)

lemma on_track_step:
  assumes "on_track rs rc c" "turn_step act t c = Some c'"
  shows "on_track rs rc c'"
proof -
  obtain Q F i j where c: "c = (Q, F)" and Q: "Q Server = drop i (server_script rs)" "Q Client = drop j (client_script rc)"
    and J: "joint rs rc i j F"
    using assms(1) by (cases c) auto
  have same: "on_track rs rc (Q, F')" if "joint rs rc i j F'" for F'
    using Q that unfolding on_track.simps by blast
  show ?thesis
  proof (cases t)
    case (Host p)
    then obtain a as F' where a: "Q p = a # as" "act p a F = Some F'" and c': "c' = (Q(p := as), F')"
      using assms(2) by (auto simp: c split: list.splits)
    show ?thesis
    proof (cases p)
      case Server
      with a Q drop_next [of i "server_script rs" a as] have n: "i < 12" "a = server_script rs ! i"
        "as = drop (Suc i) (server_script rs)"
        by (simp_all add: length_scripts)
      with a server_turn [OF J n(1)] Server have "joint rs rc (Suc i) j F'" by simp
      with Q n(3) Server show ?thesis by (auto simp: c')
    next
      case Client
      with a Q drop_next [of j "client_script rc" a as] have n: "j < 16" "a = client_script rc ! j"
        "as = drop (Suc j) (client_script rc)"
        by (simp_all add: length_scripts)
      with a client_turn [OF J n(1)] Client have "joint rs rc i (Suc j) F'" by simp
      with Q n(3) Client show ?thesis by (auto simp: c')
    qed
  next
    case (Execute p)
    then obtain F' where "nic_execute p F = Some F'" "c' = (Q, F')"
      using assms(2) by (auto simp: c)
    then show ?thesis
      using same execute_server [OF J] execute_client [OF J] by (cases p) auto
  next
    case (Complete p)
    then show ?thesis
      using assms(2) same complete_turn [OF J] by (auto simp: c)
  next
    case (Arrive p)
    then show ?thesis
      using assms(2) same arrive_turn [OF J] by (auto simp: c)
  qed
qed

lemma on_track_start:
  assumes "\<forall>p. length (m p) = MSG_SIZE" "Q Server = server_script rs" "Q Client = client_script rc"
  shows "on_track rs rc (Q, fabric_start m reg)"
proof -
  have "joint rs rc 0 0 (fabric_start m reg)"
    using assms(1) by (simp add: joint_def in_step_def server_wrote_def client_wrote_def server_card_def client_card_def
        server_buf_def client_buf_def progress_defs fabric_start_def side_start_def)
  with assms(2,3) show ?thesis
    unfolding on_track.simps by (intro exI [of _ 0]) simp
qed

lemma on_track_run:
  assumes "joint_run act ts c = Some c'" "on_track rs rc c"
  shows "on_track rs rc c'"
  by (rule joint_run_invariant [where I = "on_track rs rc", OF on_track_step assms])

section \<open>Joint runs end\<close>

text \<open>Every turn uses up some work: a posted request has three turns ahead of it.\<close>

fun action_work :: "nat \<times> action \<Rightarrow> nat" where
  "action_work (k, Send sr) = 4"
| "action_work (k, a) = 1"

definition card_work :: "side \<Rightarrow> nat" where
  "card_work s = arrived s + (case sq s of None \<Rightarrow> 0 | Some (Waiting sr) \<Rightarrow> 3 | Some Executed \<Rightarrow> 1)"

fun work :: "(nat \<times> action) system \<Rightarrow> nat" where
  "work (Q, F) = sum_list (map action_work (Q Server)) + sum_list (map action_work (Q Client)) +
     card_work (F Server) + card_work (F Client)"

lemma act_work:
  assumes "act p a F = Some F'"
  shows "F' (peer p) = F (peer p) \<and> Suc (card_work (F' p)) = card_work (F p) + action_work a"
proof -
  obtain k b where a: "a = (k, b)" by (cases a)
  show ?thesis
    using assms unfolding a by (cases b) (auto simp: card_work_def split: if_splits)
qed

lemma nic_work:
  "nic_execute p F = Some F' \<Longrightarrow> card_work (F' p) + card_work (F' (peer p)) < card_work (F p) + card_work (F (peer p))"
  "nic_complete p F = Some F' \<Longrightarrow> card_work (F' p) + card_work (F' (peer p)) < card_work (F p) + card_work (F (peer p))"
  "nic_arrive p F = Some F' \<Longrightarrow> card_work (F' p) + card_work (F' (peer p)) < card_work (F p) + card_work (F (peer p))"
  by (auto simp: nic_execute_def nic_complete_def nic_arrive_def card_work_def Let_def
      split: option.splits progress.splits ibv_opcode.splits if_splits)

lemma turn_work:
  assumes "turn_step act t c = Some c'"
  shows "work c' < work c"
proof -
  obtain Q F where c: "c = (Q, F)" by (cases c)
  show ?thesis
  proof (cases t)
    case (Host p)
    then obtain a as F' where "Q p = a # as" "act p a F = Some F'" "c' = (Q(p := as), F')"
      using assms by (auto simp: c split: list.splits)
    with act_work [of p a F F'] show ?thesis
      by (cases p) (auto simp: c)
  next
    case (Execute p)
    with assms nic_work(1) [of p F] show ?thesis by (cases p) (auto simp: c add.commute)
  next
    case (Complete p)
    with assms nic_work(2) [of p F] show ?thesis by (cases p) (auto simp: c add.commute)
  next
    case (Arrive p)
    with assms nic_work(3) [of p F] show ?thesis by (cases p) (auto simp: c add.commute)
  qed
qed

lemma run_length: "joint_run act ts c = Some c' \<Longrightarrow> length ts + work c' \<le> work c"
proof (induction ts arbitrary: c)
  case (Cons t ts)
  then obtain c1 where c1: "turn_step act t c = Some c1" "joint_run act ts c1 = Some c'"
    by (auto split: option.splits)
  with Cons.IH [OF c1(2)] turn_work [OF c1(1)] show ?case by simp
qed simp

section \<open>Nobody waits for ever\<close>

lemma server_enabled:
  assumes "in_step i j F" "server_card rs i (F Server)" "i < 12" "i \<noteq> 7"
    and "i = 5 \<longrightarrow> 3 \<le> j" "i = 6 \<longrightarrow> 5 \<le> j" "i = 10 \<longrightarrow> 8 \<le> j" "i = 11 \<longrightarrow> 16 \<le> j"
  shows "act Server (server_script rs ! i) F \<noteq> None"
  using below_12 [OF assms(3)] assms(1,2,4-)
  by (elim disjE) (auto simp: server_script_def in_step_def server_card_def)

lemma client_enabled:
  assumes "in_step i j F" "client_card rc j d (F Client)" "j < 16" "j \<noteq> 5" "j \<noteq> 9" "j \<noteq> 14"
    and "j = 3 \<or> j = 4 \<longrightarrow> 5 \<le> i" "j = 8 \<longrightarrow> 10 \<le> i"
  shows "act Client (client_script rc ! j) F \<noteq> None"
  using below_16 [OF assms(3)] assms(1,2,4-)
  by (elim disjE) (auto simp: client_script_def in_step_def client_card_def)

lemma host_moves: "Q p = a # as \<Longrightarrow> act p a F \<noteq> None \<Longrightarrow> \<exists>t. turn_step act t (Q, F) \<noteq> None"
  by (rule exI [of _ "Host p"]) auto

text \<open>Whoever waits for its own request is not stuck when the card can execute it.\<close>

lemma working_moves:
  assumes "working (F p) sr" "sq (F p) = Some (Waiting sr) \<Longrightarrow> nic_execute p F \<noteq> None"
    and "Q p = (k, Await) # as" "k \<le> written (F (peer p))"
  shows "\<exists>t. turn_step act t (Q, F) \<noteq> None"
proof -
  consider "sq (F p) = Some (Waiting sr)" | "sq (F p) = Some Executed" | "ready (F p) = 1"
    using assms(1) by (auto simp: working_def)
  then show ?thesis
  proof cases
    case 1
    with assms(2) show ?thesis by (intro exI [of _ "Execute p"]) auto
  next
    case 2
    then show ?thesis by (intro exI [of _ "Complete p"]) (simp add: nic_complete_def)
  next
    case 3
    with assms(3,4) show ?thesis by (intro host_moves [of Q p]) auto
  qed
qed

lemma server_waiting:
  assumes J: "joint rs rc i j F" and i: "i = 7" and Q: "Q Server = drop i (server_script rs)"
  shows "\<exists>t. turn_step act t (Q, F) \<noteq> None"
proof (rule working_moves [of F Server "send_wr rs WR_SEND"])
  have j: "5 \<le> j"
    using J i by (simp add: joint_def in_step_def)
  show "working (F Server) (send_wr rs WR_SEND)"
    using J i by (simp add: joint_def server_card_def)
  show "Q Server = (41, Await) # drop 8 (server_script rs)"
    by (simp add: Q i server_script_def)
  show "41 \<le> written (F (peer Server))"
    using J j by (simp add: joint_def in_step_def)
  assume w: "sq (F Server) = Some (Waiting (send_wr rs WR_SEND))"
  then have "recvs (F Client) = 1"
    using J i j by (simp add: joint_def client_card_def delivered_def executed_def)
  with w show "nic_execute Server F \<noteq> None"
    by (simp add: nic_execute_def send_wr_def)
qed

lemma client_waiting:
  assumes J: "joint rs rc i j F" and j: "j = 9 \<or> j = 14" and Q: "Q Client = drop j (client_script rc)"
    and reg: "region (F Server) = (addr (remote_props rc), rkey (remote_props rc))"
  shows "\<exists>t. turn_step act t (Q, F) \<noteq> None"
proof (rule working_moves [of F Client "send_wr rc (if j = 9 then WR_RDMA_READ else WR_RDMA_WRITE)"])
  show "working (F Client) (send_wr rc (if j = 9 then WR_RDMA_READ else WR_RDMA_WRITE))"
    using J j by (auto simp: joint_def client_card_def)
  show "Q Client = (42, Await) # drop (Suc j) (client_script rc)"
    using j by (auto simp: Q client_script_def)
  show "42 \<le> written (F (peer Client))"
    using J j by (auto simp: joint_def in_step_def)
  show "nic_execute Client F \<noteq> None"
    if "sq (F Client) = Some (Waiting (send_wr rc (if j = 9 then WR_RDMA_READ else WR_RDMA_WRITE)))"
    using that reg by (simp add: nic_execute_def send_wr_def)
qed

lemma client_awaits_message:
  assumes J: "joint rs rc i j F" and j: "j = 5" and i: "8 \<le> i" and Q: "Q Client = drop j (client_script rc)"
  shows "\<exists>t. turn_step act t (Q, F) \<noteq> None"
proof -
  have "arrived (F Client) + ready (F Client) = 1"
    using J i j by (simp add: joint_def client_card_def delivered_def)
  then consider "0 < arrived (F Client)" | "0 < ready (F Client)"
    by linarith
  then show ?thesis
  proof cases
    case 1
    then show ?thesis by (intro exI [of _ "Arrive Client"]) (simp add: nic_arrive_def)
  next
    case 2
    have "41 \<le> written (F Server)"
      using J i by (simp add: joint_def in_step_def)
    with 2 show ?thesis
      by (intro host_moves [of Q Client "(41, Await)" "drop 6 (client_script rc)"]) (simp_all add: Q j client_script_def)
  qed
qed

lemma joint_moves:
  assumes J: "joint rs rc i j F" and Q: "Q Server = drop i (server_script rs)" "Q Client = drop j (client_script rc)"
    and reg: "region (F Server) = (addr (remote_props rc), rkey (remote_props rc))" and "\<not> (i = 12 \<and> j = 16)"
  shows "\<exists>t. turn_step act t (Q, F) \<noteq> None"
proof -
  have I: "in_step i j F" "server_card rs i (F Server)" "client_card rc j (delivered i (F Server)) (F Client)"
    using J by (auto simp: joint_def)
  let ?blocked = "i = 5 \<and> j < 3 \<or> i = 6 \<and> j < 5 \<or> i = 10 \<and> j < 8 \<or> i = 11 \<and> j < 16"
  have "i < 12"
    using I(1) assms(5) by (fastforce simp: in_step_def)
  then consider "i = 7" | "i < 12" "i \<noteq> 7" "\<not> ?blocked" | ?blocked
    by blast
  then show ?thesis
  proof cases
    case 1
    with J Q(1) server_waiting show ?thesis by blast
  next
    case 2
    then have "act Server (server_script rs ! i) F \<noteq> None"
      by (intro server_enabled [OF I(1,2)]) auto
    with 2 Q show ?thesis
      by (intro host_moves [of Q Server "server_script rs ! i" "drop (Suc i) (server_script rs)"])
        (simp_all add: Cons_nth_drop_Suc length_scripts)
  next
    case 3
    then have j: "j < 16" "j = 3 \<or> j = 4 \<longrightarrow> 5 \<le> i" "j = 8 \<longrightarrow> 10 \<le> i" "j = 5 \<longrightarrow> 8 \<le> i"
      by auto
    show ?thesis
    proof (cases "j = 5 \<or> j = 9 \<or> j = 14")
      case True
      with J Q(2) reg j(4) client_awaits_message client_waiting show ?thesis by blast
    next
      case False
      then have "act Client (client_script rc ! j) F \<noteq> None"
        using j by (intro client_enabled [OF I(1,3)]) auto
      with j Q show ?thesis
        by (intro host_moves [of Q Client "client_script rc ! j" "drop (Suc j) (client_script rc)"])
          (simp_all add: Cons_nth_drop_Suc length_scripts)
    qed
  qed
qed

lemma act_region: "act p a F = Some F' \<Longrightarrow> region (F' q) = region (F q)"
  by (cases a; cases "snd a"; cases "q = p") (auto split: if_splits)

lemma nic_region:
  "nic_execute p F = Some F' \<Longrightarrow> region (F' q) = region (F q)"
  "nic_complete p F = Some F' \<Longrightarrow> region (F' q) = region (F q)"
  "nic_arrive p F = Some F' \<Longrightarrow> region (F' q) = region (F q)"
  by (auto simp: nic_execute_def nic_complete_def nic_arrive_def Let_def upd_def
      split: option.splits progress.splits ibv_opcode.splits if_splits)

lemma run_region:
  assumes "joint_run act ts c = Some c'"
  shows "region (snd c' q) = region (snd c q)"
proof (rule joint_run_invariant [where I = "\<lambda>d. region (snd d q) = region (snd c q)", OF _ assms])
  fix t d d' assume "region (snd d q) = region (snd c q)" "turn_step act t d = Some d'"
  then show "region (snd d' q) = region (snd c q)"
    by (cases t; cases d) (auto split: list.splits dest!: act_region [of _ _ _ _ q] nic_region [of _ _ _ q])
qed simp

section \<open>The two programs together\<close>

lemma roles_finish:
  assumes m: "\<forall>p. length (m p) = MSG_SIZE" and Q: "Q Server = server_script rs" "Q Client = client_script rc"
    and reg: "reg Server = (addr (remote_props rc), rkey (remote_props rc))"
    and run: "joint_run act ts (Q, fabric_start m reg) = Some (Q', F)"
  shows "length ts \<le> 37 \<and> ((\<forall>t. turn_step act t (Q', F) = None) \<longrightarrow> Q' Server = [] \<and> Q' Client = [])"
proof -
  have "work (Q, fabric_start m reg) = 37"
    by (simp add: Q server_script_def client_script_def card_work_def fabric_start_def side_start_def)
  then have "length ts \<le> 37"
    using run_length [OF run] by simp
  moreover have r: "region (F Server) = (addr (remote_props rc), rkey (remote_props rc))"
    using run_region [OF run, of Server] reg by (simp add: fabric_start_def side_start_def)
  obtain i j where ij: "Q' Server = drop i (server_script rs)" "Q' Client = drop j (client_script rc)" "joint rs rc i j F"
    using on_track_run [OF run on_track_start [OF m Q]] by auto
  have "Q' Server = [] \<and> Q' Client = []" if "\<forall>t. turn_step act t (Q', F) = None"
    using joint_moves [OF ij(3,1,2) r] that ij(1,2) by (auto simp: length_scripts)
  ultimately show ?thesis
    by blast
qed

text \<open>What both have printed when both are done.\<close>

lemma roles_print:
  assumes "\<forall>p. length (m p) = MSG_SIZE" "Q Server = server_script rs" "Q Client = client_script rc"
    and run: "joint_run act ts (Q, fabric_start m reg) = Some (Q', F)" and "Q' Server = []" "Q' Client = []"
  shows "shown (F Server) = [MSG, RDMAMSGW] \<and> shown (F Client) = [MSG, RDMAMSGR, RDMAMSGW]"
proof -
  obtain i j where "Q' Server = drop i (server_script rs)" "Q' Client = drop j (client_script rc)" "joint rs rc i j F"
    using on_track_run [OF run on_track_start [OF assms(1-3)]] by auto
  with assms(5,6) show ?thesis
    by (auto simp: length_scripts joint_def server_buf_def client_buf_def)
qed

text \<open>The lines a trace prints are those the connection sees.\<close>

definition prints :: "event list \<Rightarrow> bytes list" where
  "prints es = concat (map (\<lambda>e. case e of Show bs \<Rightarrow> [bs] | _ \<Rightarrow> []) es)"

lemma host_prints:
  assumes "host_does p e F = Some F'"
  shows "shown (F' p) = shown (F p) @ prints [e] \<and> shown (F' (peer p)) = shown (F (peer p))"
  using assms by (cases e) (auto simp: prints_def split: if_splits)

lemma nic_shown:
  "nic_execute p F = Some F' \<Longrightarrow> shown (F' q) = shown (F q)"
  "nic_complete p F = Some F' \<Longrightarrow> shown (F' q) = shown (F q)"
  "nic_arrive p F = Some F' \<Longrightarrow> shown (F' q) = shown (F q)"
  by (auto simp: nic_execute_def nic_complete_def nic_arrive_def Let_def upd_def
      split: option.splits progress.splits ibv_opcode.splits if_splits)

lemma turn_prints:
  assumes "turn_step host_does t (P, F) = Some (P', F')"
  shows "shown (F' q) @ prints (P' q) = shown (F q) @ prints (P q)"
proof (cases t)
  case (Host p)
  then obtain e es where e: "P p = e # es" "host_does p e F = Some F'" "P' = P(p := es)"
    using assms by (auto split: list.splits)
  have "q = p \<or> q = peer p"
    by (cases p; cases q) auto
  with e host_prints [OF e(2)] show ?thesis
    by (auto simp: prints_def)
qed (use assms in \<open>auto dest!: nic_shown [of _ _ _ q]\<close>)

lemma run_prints:
  assumes "joint_run host_does ts c = Some c'"
  shows "shown (snd c' q) @ prints (fst c' q) = shown (snd c q) @ prints (fst c q)"
  by (rule joint_run_invariant [where I = "\<lambda>d. shown (snd d q) @ prints (fst d q) = shown (snd c q) @ prints (fst c q)",
      OF _ assms]) (auto dest: turn_prints [of _ _ _ _ _ q])

end
