(* ===== verification/Rc_Demo.thy ===== *)
theory Rc_Demo
  imports Rc_Script
begin

text \<open>
  A concrete server run and a concrete client run of \<open>rcmain\<close>, with the traces they leave: verbs that
  succeed, a socket that delivers what is asked for, and a given list of buffer contents.
\<close>

section \<open>The outside world of the two runs\<close>

text \<open>
  Two runs with verbs that succeed. Reading from the socket gives what was asked for, \<open>con\<close> for the
  connection data; the world is the list of what the buffer holds whenever it is printed.
\<close>

definition demo_os :: "bytes \<Rightarrow> bytes list os" where
  "demo_os con = scripted\<lparr>e_read := (\<lambda>_ n w. ((int n, if n = 40 then con else replicate n 0), w)),
     e_load := (\<lambda>_ n w. case w of [] \<Rightarrow> (replicate n 0, []) | x # xs \<Rightarrow> (x, xs))\<rparr>"

lemma demo_os_simps [simp]:
  "e_socket (demo_os con) = e_socket scripted" "e_connect (demo_os con) = e_connect scripted"
  "e_bind (demo_os con) = e_bind scripted" "e_listen (demo_os con) = e_listen scripted"
  "e_accept (demo_os con) = e_accept scripted" "e_close (demo_os con) = e_close scripted"
  "e_write (demo_os con) = e_write scripted" "e_gettimeofday (demo_os con) = e_gettimeofday scripted"
  "e_malloc (demo_os con) = e_malloc scripted" "e_free (demo_os con) = e_free scripted"
  "e_store (demo_os con) = e_store scripted"
  "e_read (demo_os con) fd n w = ((int n, if n = 40 then con else replicate n 0), w)"
  "e_load (demo_os con) p n (x # xs) = (x, xs)"
  by (simp_all add: demo_os_def)

lemma demo_sync:
  assumes "l \<noteq> []"
  shows "sock_sync_data (demo_os con) sk l remote h =
    Returned (0, blit (if length l = 40 then con else replicate (length l) 0) remote,
      h\<lparr>trace := trace h @ [SockWrite l (int (length l)), SockRead (int (length l))]\<rparr>)"
proof -
  let ?h = "h\<lparr>trace := trace h @ [SockWrite l (int (length l))]\<rparr>"
  have "sys_read (demo_os con) sk (nat (int (length l))) ?h =
    ((int (length l), if length l = 40 then con else replicate (length l) 0),
     h\<lparr>trace := trace h @ [SockWrite l (int (length l)), SockRead (int (length l))]\<rparr>)"
    by (simp add: sys_read_def call_simps)
  from sync_loop_step [OF this, of 0 remote] show ?thesis
    using assms by (simp add: sock_sync_data_def call_simps Let_def sync_loop_stop)
qed

lemma demo_poll:
  "poll_completion (demo_os con) willing r h = Returned (0, h\<lparr>trace := trace h @ [PollCq 1 0]\<rparr>)"
  by (simp add: poll_completion_def poll_loop_eq poll_stops_def poll_once_def verbs_calls call_simps
      poll_rc_def Let_def split_def)

section \<open>The stages of the two runs\<close>

definition demo_rsrc :: "int \<Rightarrow> resources" where
  "demo_rsrc fd = \<lparr>port_lid = 7, remote_props = zero_con_data, ib_ctx = 32, pd = 48, cq = 64, qp = 96, my_qp_num = 500,
     mr = 80, mr_lkey = 11, mr_rkey = 12, buf = 4096, sock = fd\<rparr>"

definition demo_created :: "event list \<Rightarrow> event list \<Rightarrow> event list" where
  "demo_created fds buffer = fds @ [Acquire (DevList 16), Acquire (Ctx 32), Release (DevList 16), Acquire (Pd 48),
     Acquire (Cq 64), Acquire (Buf 4096)] @ buffer @ [Acquire (Mr 80), Acquire (Qp 96)]"

lemma demo_create_server:
  "\<exists>s'. resources_create (demo_os con) willing (start (x # xs)) = Returned (0, s') \<and> \<not> is_client s' \<and>
     gid_idx (config s') = - 1 \<and> world (host s') = xs \<and> rsrc s' = demo_rsrc 4 \<and>
     trace (host s') = demo_created [Acquire (Fd 3), Acquire (Fd 4), Release (Fd 3)]
       [BufStore (replicate MSG_SIZE 0), BufStore (MSG @ [0]), BufStore (MSG @ [0]), Show (takeWhile (\<lambda>b. b \<noteq> 0) x)]"
  by (simp add: create_defs then_rc_def start_def sock_connect_def call_simps sys_close_def split_def Let_def
      is_client_def resources_init_def config_init_def demo_rsrc_def demo_created_def acquire_fd_def acquire_ptr_def)

lemma demo_create_client:
  "\<exists>s'. resources_create (demo_os con) willing (start xs\<lparr>config := config_init\<lparr>server_name := Some n\<rparr>\<rparr>) = Returned (0, s') \<and>
     is_client s' \<and> gid_idx (config s') = - 1 \<and> world (host s') = xs \<and> rsrc s' = demo_rsrc 3 \<and>
     trace (host s') = demo_created [Acquire (Fd 3), Release (Fd 0)]
       [BufStore (replicate MSG_SIZE 0), BufStore (replicate MSG_SIZE 0)]"
  by (simp add: create_defs then_rc_def start_def sock_connect_def call_simps sys_close_def split_def Let_def
      is_client_def resources_init_def config_init_def demo_rsrc_def demo_created_def acquire_fd_def acquire_ptr_def)

lemma demo_connect:
  assumes "gid_idx (config s) = - 1" "length con = 40"
  shows "\<exists>s' l a1 a2 a3 m1 m2 m3. connect_qp demo_machine (demo_os con) willing s = Returned (0, s') \<and>
     is_client s' = is_client s \<and> world (host s') = world (host s) \<and>
     rsrc s' = (rsrc s)\<lparr>remote_props := con_data_ntoh LittleEndian (get_con_data LittleEndian con)\<rparr> \<and>
     trace (host s') = trace (host s) @ [SockWrite l 40, SockRead 40, ModifyQp a1 m1 0] @
       (if is_client s then [PostRecv \<lparr>rr_addr = buf (rsrc s), rr_length = MSG_SIZE, rr_lkey = mr_lkey (rsrc s)\<rparr> 0] else []) @
       [ModifyQp a2 m2 0, ModifyQp a3 m3 0, SockWrite [81] 1, SockRead 1]"
  using assms
  by (cases "is_client s") (simp_all add: connect_defs then_rc_def demo_sync length_hton_con_data put_con_data_not_Nil
      call_simps verbs_calls split_def Let_def is_client_def chars_def demo_machine_def blit_def del: on_return_eq_Returned)

lemma demo_rest_server:
  assumes "\<not> is_client s" "world (host s) = x # xs"
  shows "\<exists>s'. rest_stages demo_machine (demo_os con) willing s = Returned (0, s') \<and> rsrc s' = rsrc s \<and>
     trace (host s') = trace (host s) @ [PostSend (send_wr (rsrc s) WR_SEND) 0, PollCq 1 0, BufStore (RDMAMSGR @ [0]),
       SockWrite [82] 1, SockRead 1, SockWrite [87] 1, SockRead 1, Show (takeWhile (\<lambda>b. b \<noteq> 0) x)]"
  using assms
  by (simp add: rest_stages_def main_defs connect_defs then_rc_def demo_sync demo_poll call_simps
      verbs_calls is_client_def chars_def send_wr_def del: on_return_eq_Returned)

lemma demo_rest_client:
  assumes "is_client s" "world (host s) = x # y # z # xs"
  shows "\<exists>s'. rest_stages demo_machine (demo_os con) willing s = Returned (0, s') \<and> rsrc s' = rsrc s \<and>
     trace (host s') = trace (host s) @ [PollCq 1 0, Show (takeWhile (\<lambda>b. b \<noteq> 0) x), SockWrite [82] 1, SockRead 1,
       PostSend (send_wr (rsrc s) WR_RDMA_READ) 0, PollCq 1 0, Show (takeWhile (\<lambda>b. b \<noteq> 0) y), BufStore (RDMAMSGW @ [0]),
       Show (takeWhile (\<lambda>b. b \<noteq> 0) z), PostSend (send_wr (rsrc s) WR_RDMA_WRITE) 0, PollCq 1 0, SockWrite [87] 1, SockRead 1]"
  using assms
  by (simp add: rest_stages_def main_defs connect_defs then_rc_def demo_sync demo_poll call_simps
      verbs_calls is_client_def chars_def send_wr_def del: on_return_eq_Returned)

lemma demo_destroy_rc: "fst (resources_destroy (demo_os con) willing s) = 0"
proof -
  have ptr: "(\<And>p w. fst (f p w) = 0) \<Longrightarrow> fst (release_ptr field k f s) = 0" for field k f and s :: "bytes list proc"
    by (simp add: release_ptr_def call_eq)
  have fd: "fst (release_sock (demo_os con) s) = 0" for s
    by (simp add: release_sock_def sys_close_def ext_eq)
  show ?thesis
    by (simp add: resources_destroy_def release_defs ptr fd split_def Let_def)
qed

lemma demo_destroy:
  assumes "rsrc s = (demo_rsrc fd)\<lparr>remote_props := d\<rparr>" "fd \<ge> 0"
  shows "\<exists>s'. resources_destroy (demo_os con) willing s = (0, s') \<and> rsrc s' = rsrc s \<and>
    trace (host s') = trace (host s) @ map Release [Qp 96, Mr 80, Buf 4096, Cq 64, Pd 48, Ctx 32, Fd fd]"
proof (intro exI conjI)
  let ?s' = "snd (resources_destroy (demo_os con) willing s)"
  show "resources_destroy (demo_os con) willing s = (0, ?s')"
    using demo_destroy_rc [of con s] by (metis prod.collapse)
  show "rsrc ?s' = rsrc s"
    using quiet_destroy by blast
  show "trace (host ?s') = trace (host s) @ map Release [Qp 96, Mr 80, Buf 4096, Cq 64, Pd 48, Ctx 32, Fd fd]"
    using assms by (simp add: resources_destroy_def release_defs call_simps split_def Let_def demo_rsrc_def)
qed

lemma start_again: "start xs\<lparr>config := cfg, rsrc := resources_init\<rparr> = start xs\<lparr>config := cfg\<rparr>"
  "config (start xs) = config_init" "start xs\<lparr>config := config_init\<rparr> = start xs"
  by (simp_all add: start_def)

lemma demo_rcmain:
  assumes "parse_args opts rest config_init = Some cfg" "main_stages M OS V (start xs\<lparr>config := cfg\<rparr>) = Returned (0, s)"
    "resources_destroy OS V s = (0, s')"
  shows "rcmain M OS V opts rest (start xs) = Returned (0, s')"
  using assms by (simp add: rcmain_def start_again)

text \<open>The traces of the two runs, for the lines \<open>x\<close>, \<open>y\<close>, \<open>z\<close> that are printed.\<close>

definition demo_server_trace :: "bytes \<Rightarrow> bytes \<Rightarrow> bytes \<Rightarrow> event list \<Rightarrow> resources \<Rightarrow> event list" where
  "demo_server_trace x y l mods r =
     demo_created [Acquire (Fd 3), Acquire (Fd 4), Release (Fd 3)]
       [BufStore (replicate MSG_SIZE 0), BufStore (MSG @ [0]), BufStore (MSG @ [0]), Show x] @
     [SockWrite l 40, SockRead 40] @ mods @ [SockWrite [81] 1, SockRead 1,
       PostSend (send_wr r WR_SEND) 0, PollCq 1 0, BufStore (RDMAMSGR @ [0]),
       SockWrite [82] 1, SockRead 1, SockWrite [87] 1, SockRead 1, Show y] @
     map Release [Qp 96, Mr 80, Buf 4096, Cq 64, Pd 48, Ctx 32, Fd 4]"

lemma demo_server:
  assumes "length con = 40"
  shows "\<exists>s' l a1 a2 a3 m1 m2 m3. rcmain demo_machine (demo_os con) willing [] [] (start [x, y]) = Returned (0, s') \<and>
    trace (host s') = demo_server_trace (takeWhile (\<lambda>b. b \<noteq> 0) x) (takeWhile (\<lambda>b. b \<noteq> 0) y) l
      [ModifyQp a1 m1 0, ModifyQp a2 m2 0, ModifyQp a3 m3 0] (rsrc s')"
proof -
  obtain s1 where s1: "resources_create (demo_os con) willing (start [x, y]) = Returned (0, s1)" "\<not> is_client s1"
    "gid_idx (config s1) = - 1" "world (host s1) = [y]" "rsrc s1 = demo_rsrc 4"
    "trace (host s1) = demo_created [Acquire (Fd 3), Acquire (Fd 4), Release (Fd 3)]
       [BufStore (replicate MSG_SIZE 0), BufStore (MSG @ [0]), BufStore (MSG @ [0]), Show (takeWhile (\<lambda>b. b \<noteq> 0) x)]"
    using demo_create_server [of con x "[y]"] by (elim exE conjE) (rule that)
  obtain s2 l a1 a2 a3 m1 m2 m3 where s2: "connect_qp demo_machine (demo_os con) willing s1 = Returned (0, s2)" "\<not> is_client s2"
    "world (host s2) = [y]" "rsrc s2 = (demo_rsrc 4)\<lparr>remote_props := con_data_ntoh LittleEndian (get_con_data LittleEndian con)\<rparr>"
    "trace (host s2) = trace (host s1) @ [SockWrite l 40, SockRead 40, ModifyQp a1 m1 0, ModifyQp a2 m2 0, ModifyQp a3 m3 0,
       SockWrite [81] 1, SockRead 1]"
    using demo_connect [OF s1(3) assms] s1(2,4,5) by auto
  obtain s3 where s3: "rest_stages demo_machine (demo_os con) willing s2 = Returned (0, s3)" "rsrc s3 = rsrc s2"
    "trace (host s3) = trace (host s2) @ [PostSend (send_wr (rsrc s2) WR_SEND) 0, PollCq 1 0, BufStore (RDMAMSGR @ [0]),
       SockWrite [82] 1, SockRead 1, SockWrite [87] 1, SockRead 1, Show (takeWhile (\<lambda>b. b \<noteq> 0) y)]"
    using demo_rest_server [OF s2(2,3), of con] by (elim exE conjE) (rule that)
  obtain s4 where s4: "resources_destroy (demo_os con) willing s3 = (0, s4)" "rsrc s4 = rsrc s3"
    "trace (host s4) = trace (host s3) @ map Release [Qp 96, Mr 80, Buf 4096, Cq 64, Pd 48, Ctx 32, Fd 4]"
    using demo_destroy [where fd = 4 and s = s3] s2(4) s3(2) by auto
  have "main_stages demo_machine (demo_os con) willing (start [x, y]) = Returned (0, s3)"
    using s3(1) by (simp only: main_stages_def rest_stages_def then_rc_0 [of "resources_create (demo_os con) willing", OF s1(1)]
        then_rc_0 [of "connect_qp demo_machine (demo_os con) willing", OF s2(1)])
  then have run: "rcmain demo_machine (demo_os con) willing [] [] (start [x, y]) = Returned (0, s4)"
    using s4(1) by (intro demo_rcmain [where cfg = config_init]) (simp_all add: parse_args_def start_again)
  have tr: "trace (host s4) = demo_server_trace (takeWhile (\<lambda>b. b \<noteq> 0) x) (takeWhile (\<lambda>b. b \<noteq> 0) y) l
      [ModifyQp a1 m1 0, ModifyQp a2 m2 0, ModifyQp a3 m3 0] (rsrc s4)"
    using s1(6) s2(5) s3(2,3) s4(2,3) by (simp add: demo_server_trace_def)
  show ?thesis
    by (intro exI conjI, rule run, rule tr)
qed

definition demo_client_trace :: "bytes \<Rightarrow> bytes \<Rightarrow> bytes \<Rightarrow> bytes \<Rightarrow> ibv_recv_wr \<Rightarrow> event \<Rightarrow> event list \<Rightarrow> resources \<Rightarrow> event list" where
  "demo_client_trace x y z l rr m mods r =
     demo_created [Acquire (Fd 3), Release (Fd 0)] [BufStore (replicate MSG_SIZE 0), BufStore (replicate MSG_SIZE 0)] @
     [SockWrite l 40, SockRead 40, m, PostRecv rr 0] @ mods @ [SockWrite [81] 1, SockRead 1,
       PollCq 1 0, Show x, SockWrite [82] 1, SockRead 1,
       PostSend (send_wr r WR_RDMA_READ) 0, PollCq 1 0, Show y, BufStore (RDMAMSGW @ [0]), Show z,
       PostSend (send_wr r WR_RDMA_WRITE) 0, PollCq 1 0, SockWrite [87] 1, SockRead 1] @
     map Release [Qp 96, Mr 80, Buf 4096, Cq 64, Pd 48, Ctx 32, Fd 3]"

lemma demo_client:
  assumes "length con = 40"
  shows "\<exists>c' l a1 a2 a3 m1 m2 m3 rr. rcmain demo_machine (demo_os con) willing [] [n] (start [x, y, z]) = Returned (0, c') \<and>
    remote_props (rsrc c') = con_data_ntoh LittleEndian (get_con_data LittleEndian con) \<and>
    trace (host c') = demo_client_trace (takeWhile (\<lambda>b. b \<noteq> 0) x) (takeWhile (\<lambda>b. b \<noteq> 0) y) (takeWhile (\<lambda>b. b \<noteq> 0) z) l
      rr (ModifyQp a1 m1 0) [ModifyQp a2 m2 0, ModifyQp a3 m3 0] (rsrc c')"
proof -
  let ?start = "start [x, y, z]\<lparr>config := config_init\<lparr>server_name := Some n\<rparr>\<rparr>"
  let ?rr = "\<lparr>rr_addr = buf (demo_rsrc 3), rr_length = MSG_SIZE, rr_lkey = mr_lkey (demo_rsrc 3)\<rparr>"
  obtain s1 where s1: "resources_create (demo_os con) willing ?start = Returned (0, s1)" "is_client s1"
    "gid_idx (config s1) = - 1" "world (host s1) = [x, y, z]" "rsrc s1 = demo_rsrc 3"
    "trace (host s1) = demo_created [Acquire (Fd 3), Release (Fd 0)]
       [BufStore (replicate MSG_SIZE 0), BufStore (replicate MSG_SIZE 0)]"
    using demo_create_client [of con n "[x, y, z]"] by (elim exE conjE) (rule that)
  obtain s2 l a1 a2 a3 m1 m2 m3 where s2: "connect_qp demo_machine (demo_os con) willing s1 = Returned (0, s2)" "is_client s2"
    "world (host s2) = [x, y, z]"
    "rsrc s2 = (demo_rsrc 3)\<lparr>remote_props := con_data_ntoh LittleEndian (get_con_data LittleEndian con)\<rparr>"
    "trace (host s2) = trace (host s1) @ [SockWrite l 40, SockRead 40, ModifyQp a1 m1 0, PostRecv ?rr 0, ModifyQp a2 m2 0,
       ModifyQp a3 m3 0, SockWrite [81] 1, SockRead 1]"
    using demo_connect [OF s1(3) assms] s1(2,4,5) by auto
  obtain s3 where s3: "rest_stages demo_machine (demo_os con) willing s2 = Returned (0, s3)" "rsrc s3 = rsrc s2"
    "trace (host s3) = trace (host s2) @ [PollCq 1 0, Show (takeWhile (\<lambda>b. b \<noteq> 0) x), SockWrite [82] 1, SockRead 1,
       PostSend (send_wr (rsrc s2) WR_RDMA_READ) 0, PollCq 1 0, Show (takeWhile (\<lambda>b. b \<noteq> 0) y), BufStore (RDMAMSGW @ [0]),
       Show (takeWhile (\<lambda>b. b \<noteq> 0) z), PostSend (send_wr (rsrc s2) WR_RDMA_WRITE) 0, PollCq 1 0, SockWrite [87] 1, SockRead 1]"
    using demo_rest_client [OF s2(2,3), of con] by (elim exE conjE) (rule that)
  obtain s4 where s4: "resources_destroy (demo_os con) willing s3 = (0, s4)" "rsrc s4 = rsrc s3"
    "trace (host s4) = trace (host s3) @ map Release [Qp 96, Mr 80, Buf 4096, Cq 64, Pd 48, Ctx 32, Fd 3]"
    using demo_destroy [where fd = 3 and s = s3] s2(4) s3(2) by auto
  have "main_stages demo_machine (demo_os con) willing ?start = Returned (0, s3)"
    using s3(1) by (simp only: main_stages_def rest_stages_def then_rc_0 [of "resources_create (demo_os con) willing", OF s1(1)]
        then_rc_0 [of "connect_qp demo_machine (demo_os con) willing", OF s2(1)])
  then have run: "rcmain demo_machine (demo_os con) willing [] [n] (start [x, y, z]) = Returned (0, s4)"
    using s4(1) by (intro demo_rcmain) (simp_all add: parse_args_def)
  have tr: "trace (host s4) = demo_client_trace (takeWhile (\<lambda>b. b \<noteq> 0) x) (takeWhile (\<lambda>b. b \<noteq> 0) y)
      (takeWhile (\<lambda>b. b \<noteq> 0) z) l ?rr (ModifyQp a1 m1 0) [ModifyQp a2 m2 0, ModifyQp a3 m3 0] (rsrc s4)"
    using s1(6) s2(5) s3(2,3) s4(2,3) by (simp add: demo_client_trace_def)
  have props: "remote_props (rsrc s4) = con_data_ntoh LittleEndian (get_con_data LittleEndian con)"
    using s2(4) s3(2) s4(2) by simp
  show ?thesis
    by (intro exI conjI, rule run, rule props, rule tr)
qed

end
