(* ===== verification/Rc_Exchange.thy ===== *)
theory Rc_Exchange
  imports Rc_Joint Rc_Demo
begin

text \<open>
  A server and a client of rc_example.c working together over one connection: what the two print in
  every joint run, and that they never wait for each other for ever.
\<close>

text \<open>The scripts of a server with the resources \<open>rs\<close> and a client with the resources \<open>rc\<close>.\<close>

fun roles :: "resources \<Rightarrow> resources \<Rightarrow> role \<Rightarrow> (nat \<times> action) list" where
  "roles rs rc Server = role_script False rs"
| "roles rs rc Client = role_script True rc"

lemma roles_eq [simp]: "roles rs rc Server = server_script rs" "roles rs rc Client = client_script rc"
  by (simp_all add: role_script_def)

declare roles.simps [simp del]

fun both :: "'a \<Rightarrow> 'a \<Rightarrow> role \<Rightarrow> 'a" where
  "both es fs Server = es"
| "both es fs Client = fs"

text \<open>
  C3: a run of \<open>rcmain\<close> as a server and a run as a client, both of which returned 0, at the two ends of one
  connection: in every joint run, whatever the schedule and whenever the cards execute and complete the
  requests, the server prints the message it sends and at the end the text the client wrote into
  its buffer; the client prints the message it received, the text it read from the server's buffer, and
  the text it is about to write.
\<close>

theorem rdma_exchange:
  assumes "rcmain Ms OSs Vs opts_s [] s = Returned (0, s')" "trace (host s) = []" "server_name (config s) = None"
    and "length (stack_pad Ms) = 6" "\<forall>c p i w. length (snd (fst (v_query_gid Vs c p i w))) = 16"
    and "rcmain Mc OSc Vc opts_c [name] c = Returned (0, c')" "trace (host c) = []" "server_name (config c) = None"
    and "length (stack_pad Mc) = 6" "\<forall>c p i w. length (snd (fst (v_query_gid Vc c p i w))) = 16"
    and "\<forall>p. length (m p) = MSG_SIZE"
    and "joint_run host_does ts (both (trace (host s')) (trace (host c')), fabric_start m reg) = Some (P, F)"
    and "P Server = []" "P Client = []"
  shows "prints (trace (host s')) = [MSG, RDMAMSGW] \<and> prints (trace (host c')) = [MSG, RDMAMSGR, RDMAMSGW]"
proof -
  let ?c = "(both (trace (host s')) (trace (host c')), fabric_start m reg)"
  let ?d = "(roles (rsrc s') (rsrc c'), fabric_start m reg)"
  have "at_least (script 0 (trace (host s'))) (server_script (rsrc s'))"
    "at_least (script 0 (trace (host c'))) (client_script (rsrc c'))"
    using rcmain_script [OF assms(1-5)] rcmain_script [OF assms(6-10)] by (simp_all add: role_script_def)
  moreover have "forget (fabric_start m reg) = fabric_start m reg"
    by (simp add: forget_def fabric_start_def side_start_def fun_eq_iff)
  ultimately have "follows ?c ?d"
    by (simp add: all_roles [of _ Server] fabric_start_def side_start_def)
  from scripts.runs [OF assms(12) this] obtain us d where us: "joint_run act us ?d = Some d" "follows (P, F) d"
    by blast
  obtain Q G where d: "d = (Q, G)" by (cases d)
  have Q: "Q Server = []" "Q Client = []" and G: "G = forget F"
    using us(2) assms(13,14) by (auto simp: d all_roles [of _ Server])
  have "shown (F Server) = [MSG, RDMAMSGW]" "shown (F Client) = [MSG, RDMAMSGR, RDMAMSGW]"
    using roles_print [OF assms(11) _ _ us(1) [unfolded d] Q] by (simp_all add: G)
  with run_prints [OF assms(12), of Server] run_prints [OF assms(12), of Client] assms(13,14) show ?thesis
    by (simp add: prints_def fabric_start_def side_start_def)
qed

text \<open>
  C15: the two runs follow the scripts of their roles, and the roles never wait for each other for ever: once
  the client knows the server's buffer and key, every joint run of the two scripts ends after at
  most 37 turns, and when nobody can go on both have come to their end.
\<close>

theorem exchange_never_stuck:
  assumes "rcmain Ms OSs Vs opts_s [] s = Returned (0, s')" "trace (host s) = []" "server_name (config s) = None"
    and "length (stack_pad Ms) = 6" "\<forall>c p i w. length (snd (fst (v_query_gid Vs c p i w))) = 16"
    and "rcmain Mc OSc Vc opts_c [name] c = Returned (0, c')" "trace (host c) = []" "server_name (config c) = None"
    and "length (stack_pad Mc) = 6" "\<forall>c p i w. length (snd (fst (v_query_gid Vc c p i w))) = 16"
    and "\<forall>p. length (m p) = MSG_SIZE"
    and "reg Server = (addr (remote_props (rsrc c')), rkey (remote_props (rsrc c')))"
  shows "at_least (script 0 (trace (host s'))) (roles (rsrc s') (rsrc c') Server) \<and>
    at_least (script 0 (trace (host c'))) (roles (rsrc s') (rsrc c') Client) \<and>
    (\<forall>ts Q F. joint_run act ts (roles (rsrc s') (rsrc c'), fabric_start m reg) = Some (Q, F) \<longrightarrow>
       length ts \<le> 37 \<and> ((\<forall>t. turn_step act t (Q, F) = None) \<longrightarrow> Q Server = [] \<and> Q Client = []))"
  using rcmain_script [OF assms(1-5)] rcmain_script [OF assms(6-10)]
    roles_finish [OF assms(11) roles_eq [of "rsrc s'" "rsrc c'"], of reg] assms(12)
  by (simp add: role_script_def)

section \<open>A joint run\<close>

lemma both_eq: "f = both (f Server) (f Client)"
proof
  show "f p = both (f Server) (f Client) p" for p
    by (cases p) simp_all
qed

lemma both_simps [simp]:
  "(both a b)(Server := a') = both a' b" "(both a b)(Client := b') = both a b'"
  "upd Server f (both u v) = both (f u) v" "upd Client f (both u v) = both u (f v)"
  using both_eq [of "(both a b)(Server := a')"] both_eq [of "(both a b)(Client := b')"]
    both_eq [of "upd Server f (both u v)"] both_eq [of "upd Client f (both u v)"]
  by simp_all

lemma fabric_start_both: "fabric_start m reg = both (side_start (m Server) (reg Server)) (side_start (m Client) (reg Client))"
  using both_eq [of "fabric_start m reg"] by (simp add: fabric_start_def)

text \<open>
  The schedule: both prepare and write their connection data; the client posts its receive request before
  they meet; the message is sent, delivered and completed on both sides; the client reads, then
  writes; both clean up.
\<close>

definition demo_schedule :: "turn list" where
  "demo_schedule =
     replicate 16 (Host Server) @ replicate 19 (Host Client) @ replicate 6 (Host Server) @ [Host Client] @
     [Host Server, Execute Server, Complete Server, Arrive Client] @ replicate 3 (Host Server) @
     replicate 4 (Host Client) @ replicate 2 (Host Server) @
     [Host Client, Execute Client, Complete Client] @ replicate 5 (Host Client) @ [Execute Client, Complete Client] @
     replicate 3 (Host Client) @ replicate 9 (Host Server) @ replicate 7 (Host Client)"

lemma demo_joint_run:
  assumes "\<forall>p. length (m p) = MSG_SIZE" "reg Server = (addr (remote_props rc), rkey (remote_props rc))"
  shows "\<exists>F. joint_run host_does demo_schedule
    (both (demo_server_trace MSG RDMAMSGW l [ModifyQp a1 m1 0, ModifyQp a2 m2 0, ModifyQp a3 m3 0] rs)
      (demo_client_trace MSG RDMAMSGR RDMAMSGW l' rr (ModifyQp a4 m4 0) [ModifyQp a5 m5 0, ModifyQp a6 m6 0] rc),
     fabric_start m reg) = Some (both [] [], F)"
  using assms messages
  by (simp add: demo_schedule_def numeral_eq_Suc fabric_start_both side_start_def demo_server_trace_def demo_client_trace_def
      demo_created_def nic_execute_def nic_complete_def nic_arrive_def send_wr_def text_of_store text_of_copy Let_def)

text \<open>The server's connection data, as it sends them.\<close>

definition demo_con :: bytes where
  "demo_con = put_con_data LittleEndian (replicate 6 0) (con_data_hton LittleEndian (local_con_data (demo_rsrc 4) (replicate 16 0)))"

lemma demo_con: "length demo_con = 40"
  "con_data_ntoh LittleEndian (get_con_data LittleEndian demo_con) = local_con_data (demo_rsrc 4) (replicate 16 0)"
  by (simp_all add: demo_con_def length_hton_con_data con_data_arrives local_con_data_def)

lemma demo_hypotheses: "trace (host (start xs)) = []" "server_name (config (start xs)) = None"
  "length (stack_pad demo_machine) = 6" "\<forall>c p i w. length (snd (fst (v_query_gid willing c p i w))) = 16"
  by (simp_all add: start_def config_init_def demo_machine_def)

lemma text_of_messages: "takeWhile (\<lambda>b. b \<noteq> 0) MSG = MSG" "takeWhile (\<lambda>b. b \<noteq> 0) RDMAMSGR = RDMAMSGR"
  "takeWhile (\<lambda>b. b \<noteq> 0) RDMAMSGW = RDMAMSGW"
  using messages(1-3) by (auto simp: takeWhile_eq_all_conv)

theorem rdma_exchange_witness:
  "\<exists>s' c'. rcmain demo_machine (demo_os demo_con) willing [] [] (start [MSG, RDMAMSGW]) = Returned (0, s') \<and>
     rcmain demo_machine (demo_os demo_con) willing [] [''10.0.0.1''] (start [MSG, RDMAMSGR, RDMAMSGW]) = Returned (0, c') \<and>
     prints (trace (host s')) = [MSG, RDMAMSGW] \<and> prints (trace (host c')) = [MSG, RDMAMSGR, RDMAMSGW]"
proof -
  let ?m = "\<lambda>_ :: role. replicate MSG_SIZE (7 :: u8)" and ?reg = "\<lambda>_ :: role. (4096 :: u64, 12 :: u32)"
  obtain s' l a1 a2 a3 m1 m2 m3 where s: "rcmain demo_machine (demo_os demo_con) willing [] [] (start [MSG, RDMAMSGW]) = Returned (0, s')"
    "trace (host s') = demo_server_trace MSG RDMAMSGW l [ModifyQp a1 m1 0, ModifyQp a2 m2 0, ModifyQp a3 m3 0] (rsrc s')"
    using demo_server [OF demo_con(1), of MSG RDMAMSGW] unfolding text_of_messages by (elim exE conjE) (rule that)
  obtain c' l' a4 a5 a6 m4 m5 m6 rr where
    c: "rcmain demo_machine (demo_os demo_con) willing [] [''10.0.0.1''] (start [MSG, RDMAMSGR, RDMAMSGW]) = Returned (0, c')"
    "remote_props (rsrc c') = con_data_ntoh LittleEndian (get_con_data LittleEndian demo_con)"
    "trace (host c') = demo_client_trace MSG RDMAMSGR RDMAMSGW l' rr (ModifyQp a4 m4 0) [ModifyQp a5 m5 0, ModifyQp a6 m6 0] (rsrc c')"
    using demo_client [OF demo_con(1), of "''10.0.0.1''" MSG RDMAMSGR RDMAMSGW] unfolding text_of_messages
    by (elim exE conjE) (rule that)
  have m: "\<forall>p. length (?m p) = MSG_SIZE"
    by simp
  have reg: "?reg Server = (addr (remote_props (rsrc c')), rkey (remote_props (rsrc c')))"
    by (simp add: c(2) demo_con(2) local_con_data_def demo_rsrc_def)
  obtain F where "joint_run host_does demo_schedule (both (trace (host s')) (trace (host c')), fabric_start ?m ?reg) = Some (both [] [], F)"
    using demo_joint_run [OF m reg] unfolding s(2) c(3) by blast
  from rdma_exchange [OF s(1) demo_hypotheses c(1) demo_hypotheses m this] s(1) c(1) show ?thesis
    by auto
qed

theorem exchange_never_stuck_witness:
  "\<exists>s' c'. rcmain demo_machine (demo_os demo_con) willing [] [] (start [MSG, RDMAMSGW]) = Returned (0, s') \<and>
     rcmain demo_machine (demo_os demo_con) willing [] [''10.0.0.1''] (start [MSG, RDMAMSGR, RDMAMSGW]) = Returned (0, c') \<and>
     (\<forall>ts Q F. joint_run act ts (roles (rsrc s') (rsrc c'), fabric_start (\<lambda>_. replicate MSG_SIZE 7) (\<lambda>_. (4096, 12))) = Some (Q, F) \<longrightarrow>
       length ts \<le> 37 \<and> ((\<forall>t. turn_step act t (Q, F) = None) \<longrightarrow> Q Server = [] \<and> Q Client = []))"
proof -
  obtain s' where s: "rcmain demo_machine (demo_os demo_con) willing [] [] (start [MSG, RDMAMSGW]) = Returned (0, s')"
    using demo_server [OF demo_con(1), of MSG RDMAMSGW] by (elim exE conjE) (rule that)
  obtain c' where
    c: "rcmain demo_machine (demo_os demo_con) willing [] [''10.0.0.1''] (start [MSG, RDMAMSGR, RDMAMSGW]) = Returned (0, c')"
    "remote_props (rsrc c') = con_data_ntoh LittleEndian (get_con_data LittleEndian demo_con)"
    using demo_client [OF demo_con(1), of "''10.0.0.1''" MSG RDMAMSGR RDMAMSGW] by (elim exE conjE) (rule that)
  have m: "\<forall>p :: role. length (replicate MSG_SIZE (7 :: u8)) = MSG_SIZE"
    and reg: "(4096 :: u64, 12 :: u32) = (addr (remote_props (rsrc c')), rkey (remote_props (rsrc c')))"
    by (simp_all add: c(2) demo_con(2) local_con_data_def demo_rsrc_def)
  note stuck = exchange_never_stuck [where m = "\<lambda>_. replicate MSG_SIZE 7" and reg = "\<lambda>_. (4096, 12)",
      OF s demo_hypotheses c(1) demo_hypotheses m reg]
  show ?thesis
    by (intro exI conjI, rule s, rule c(1), rule stuck [THEN conjunct2, THEN conjunct2])
qed

end
