(* ===== verification/Rc_Print.thy ===== *)
theory Rc_Print
  imports Rc_Env C_Numbers
begin

text \<open>
  \<open>print_config\<close> of src/rdma/rc_example.c: the text it prints. It does not touch the state, so that \<open>rcmain\<close>
  is modelled without it.
\<close>

text \<open>\<open>%u\<close> of an unsigned number and of an \<open>int\<close>; \<open>%s\<close> of a null pointer is what the C library makes of it.\<close>

definition print_u :: "int \<Rightarrow> string" where
  "print_u x = decimal (unat (word_of_int x :: u32))"

definition print_s :: "string option \<Rightarrow> string" where
  "print_s s = (case s of Some t \<Rightarrow> t | None \<Rightarrow> ''(null)'')"

definition newline :: string where
  "newline = [CHR 0x0A]"

definition tab :: string where
  "tab = [CHR 0x09]"

definition print_config :: "config_t \<Rightarrow> string" where
  "print_config config =
     ''------------------------------'' @ newline @
     ''Device name '' @ tab @ '':'' @ [CHR 0x22] @ print_s (dev_name config) @ [CHR 0x22] @ newline @
     ''IB port'' @ tab @ '':'' @ print_u (ib_port config) @ newline @
     (case server_name config of Some ip \<Rightarrow> ''IP'' @ tab @ '':'' @ ip @ newline | None \<Rightarrow> []) @
     ''TCP port'' @ tab @ '':'' @ print_u (uint (tcp_port config)) @ newline @
     (if 0 \<le> gid_idx config then ''GID index'' @ tab @ '':'' @ print_u (gid_idx config) @ newline else []) @
     ''------------------------------'' @ newline @ newline"

lemma print_u_nonneg: "0 \<le> x \<Longrightarrow> x < 2 ^ 32 \<Longrightarrow> print_u x = decimal (nat x)"
proof -
  assume x: "0 \<le> x" "x < 2 ^ 32"
  then have "uint (word_of_int x :: u32) = x"
    by (simp add: uint_word_of_int)
  then have "unat (word_of_int x :: u32) = nat x"
    by (metis unat_eq_nat_uint)
  then show ?thesis
    by (simp add: print_u_def)
qed

text \<open>With the initial configuration: no device, so a null pointer is printed, port 1 and TCP port 19875.\<close>

lemma print_config_init:
  "print_config config_init = ''------------------------------'' @ newline @
     ''Device name '' @ tab @ '':'' @ [CHR 0x22] @ ''(null)'' @ [CHR 0x22] @ newline @
     ''IB port'' @ tab @ '':'' @ decimal 1 @ newline @ ''TCP port'' @ tab @ '':'' @ decimal 19875 @ newline @
     ''------------------------------'' @ newline @ newline"
  using print_u_nonneg [of 1] print_u_nonneg [of 19875]
  by (simp add: print_config_def config_init_def print_s_def)

end
