(* ===== verification/Width_Extender.thy ===== *)
theory Width_Extender
  imports CS_Prelude
begin

text \<open>
  src/pcm/width_extender.h and the handle class of src/pcm/msr.h: 64-bit counters made from 32-bit
  hardware counters. \<open>MsrHandle\<close> and \<open>ClientBW\<close> are in the binary library; their reads are parameters.
\<close>

section \<open>SafeMsrHandle\<close>

text \<open>
  \<open>pHandle\<close> is \<open>NULL\<close> or a handle. A read of the library gets the old contents of \<open>*value\<close> and yields
  its result and the new contents; \<open>getCoreId\<close> of a null handle throws.
\<close>

type_synonym ('h, 'w) msr_read = "'h \<Rightarrow> u64 \<Rightarrow> u64 \<Rightarrow> 'w \<Rightarrow> (int \<times> u64) \<times> 'w"
type_synonym ('h, 'w) msr_write = "'h \<Rightarrow> u64 \<Rightarrow> u64 \<Rightarrow> 'w \<Rightarrow> int \<times> 'w"

definition safe_msr_read ::
  "('h, 'w) msr_read \<Rightarrow> 'h option \<Rightarrow> u64 \<Rightarrow> u64 \<Rightarrow> 'w \<Rightarrow> (int \<times> u64) \<times> 'w" where
  "safe_msr_read rd pHandle msr_number value w =
     (case pHandle of Some h \<Rightarrow> rd h msr_number value w | None \<Rightarrow> ((8, 0), w))"

definition safe_msr_write :: "('h, 'w) msr_write \<Rightarrow> 'h option \<Rightarrow> u64 \<Rightarrow> u64 \<Rightarrow> 'w \<Rightarrow> int \<times> 'w" where
  "safe_msr_write wr pHandle msr_number value w =
     (case pHandle of Some h \<Rightarrow> wr h msr_number value w | None \<Rightarrow> (8, w))"

definition safe_msr_getCoreId :: "('h \<Rightarrow> int) \<Rightarrow> 'h option \<Rightarrow> int option" where
  "safe_msr_getCoreId core pHandle = (case pHandle of Some h \<Rightarrow> Some (core h) | None \<Rightarrow> None)"

text \<open>
  The constructors and the destructor. \<open>new MsrHandle\<close> may throw, and there is no object then. The
  methods for Mac OS throw on a null handle as \<open>getCoreId\<close> does.
\<close>

definition SafeMsrHandle_null :: "'h option" where
  "SafeMsrHandle_null = None"

definition SafeMsrHandle :: "(u32 \<Rightarrow> 'w \<Rightarrow> 'h option \<times> 'w) \<Rightarrow> u32 \<Rightarrow> 'w \<Rightarrow> 'h option option \<times> 'w" where
  "SafeMsrHandle new_handle core_id w =
     (let (h, w) = new_handle core_id w in (case h of Some h \<Rightarrow> Some (Some h) | None \<Rightarrow> None, w))"

definition SafeMsrHandle_destroy :: "('h \<Rightarrow> 'w \<Rightarrow> 'w) \<Rightarrow> 'h option \<Rightarrow> 'w \<Rightarrow> 'h option \<times> 'w" where
  "SafeMsrHandle_destroy delete_handle pHandle w =
     (case pHandle of Some h \<Rightarrow> (None, delete_handle h w) | None \<Rightarrow> (None, w))"

definition safe_msr_buildTopology :: "('h \<Rightarrow> u32 \<Rightarrow> 'p \<Rightarrow> int) \<Rightarrow> 'h option \<Rightarrow> u32 \<Rightarrow> 'p \<Rightarrow> int option" where
  "safe_msr_buildTopology build pHandle num_cores p =
     (case pHandle of Some h \<Rightarrow> Some (build h num_cores p) | None \<Rightarrow> None)"

definition safe_msr_getNumInstances :: "('h \<Rightarrow> 'w \<Rightarrow> u32 \<times> 'w) \<Rightarrow> 'h option \<Rightarrow> 'w \<Rightarrow> (u32 \<times> 'w) option" where
  "safe_msr_getNumInstances num pHandle w = (case pHandle of Some h \<Rightarrow> Some (num h w) | None \<Rightarrow> None)"

definition safe_msr_incrementNumInstances :: "('h \<Rightarrow> 'w \<Rightarrow> u32 \<times> 'w) \<Rightarrow> 'h option \<Rightarrow> 'w \<Rightarrow> (u32 \<times> 'w) option" where
  "safe_msr_incrementNumInstances inc pHandle w = (case pHandle of Some h \<Rightarrow> Some (inc h w) | None \<Rightarrow> None)"

definition safe_msr_decrementNumInstances :: "('h \<Rightarrow> 'w \<Rightarrow> u32 \<times> 'w) \<Rightarrow> 'h option \<Rightarrow> 'w \<Rightarrow> (u32 \<times> 'w) option" where
  "safe_msr_decrementNumInstances dec pHandle w = (case pHandle of Some h \<Rightarrow> Some (dec h w) | None \<Rightarrow> None)"

text \<open>
  A handle that was opened is closed exactly once, however often the destructor runs; afterwards the
  object behaves as a null handle: reads deliver 0, writes do nothing, the core is unknown.
\<close>

lemma destroyed_handle:
  assumes "SafeMsrHandle new_handle core_id w = (Some p, w')"
  shows "\<exists>h. new_handle core_id w = (Some h, w') \<and>
    SafeMsrHandle_destroy delete_handle p v = (SafeMsrHandle_null, delete_handle h v) \<and>
    SafeMsrHandle_destroy delete_handle SafeMsrHandle_null v = (SafeMsrHandle_null, v) \<and>
    safe_msr_read rd SafeMsrHandle_null a value v = ((8, 0), v) \<and>
    safe_msr_write wr SafeMsrHandle_null a value v = (8, v) \<and> safe_msr_getCoreId core SafeMsrHandle_null = None"
  using assms by (auto simp: SafeMsrHandle_def SafeMsrHandle_null_def SafeMsrHandle_destroy_def safe_msr_read_def
      safe_msr_write_def safe_msr_getCoreId_def Let_def split: prod.splits option.splits)

section \<open>Raw counters\<close>

type_synonym 'w raw_counter = "'w \<Rightarrow> u64 \<times> 'w"

definition MsrHandleCounter :: "('h, 'w) msr_read \<Rightarrow> 'h option \<Rightarrow> u64 \<Rightarrow> 'w raw_counter" where
  "MsrHandleCounter rd msr msr_addr w =
     (let ((_, value), w) = safe_msr_read rd msr msr_addr 0 w in (value, w))"

definition ClientImcReadsCounter :: "('b \<Rightarrow> 'w raw_counter) \<Rightarrow> 'b \<Rightarrow> 'w raw_counter" where
  "ClientImcReadsCounter getImcReads clientBW = getImcReads clientBW"

definition ClientImcWritesCounter :: "('b \<Rightarrow> 'w raw_counter) \<Rightarrow> 'b \<Rightarrow> 'w raw_counter" where
  "ClientImcWritesCounter getImcWrites clientBW = getImcWrites clientBW"

definition ClientIoRequestsCounter :: "('b \<Rightarrow> 'w raw_counter) \<Rightarrow> 'b \<Rightarrow> 'w raw_counter" where
  "ClientIoRequestsCounter getIoRequests clientBW = getIoRequests clientBW"

section \<open>CounterWidthExtender\<close>

text \<open>
  \<open>internal_read\<close> runs under \<open>CounterMutex\<close>, so the reads of the program and of the watchdog thread
  are one sequence of calls.
\<close>

record extender =
  extended_value :: u64
  last_raw_value :: u64

definition CounterWidthExtender :: "'w raw_counter \<Rightarrow> 'w \<Rightarrow> extender \<times> 'w" where
  "CounterWidthExtender raw_counter w =
     (let (v, w) = raw_counter w in (\<lparr>extended_value = v, last_raw_value = v\<rparr>, w))"

definition internal_read :: "'w raw_counter \<Rightarrow> extender \<times> 'w \<Rightarrow> u64 \<times> extender \<times> 'w" where
  "internal_read raw_counter = (\<lambda>(s, w).
     let (new_raw_value, w) = raw_counter w;
         s = (if new_raw_value < last_raw_value s
              then s\<lparr>extended_value := extended_value s + ((push_bit 32 1 - last_raw_value s) + new_raw_value)\<rparr>
              else s\<lparr>extended_value := extended_value s + (new_raw_value - last_raw_value s)\<rparr>);
         s = s\<lparr>last_raw_value := new_raw_value\<rparr>
     in (extended_value s, s, w))"

definition extender_read :: "'w raw_counter \<Rightarrow> extender \<times> 'w \<Rightarrow> u64 \<times> extender \<times> 'w" where
  "extender_read raw_counter s = internal_read raw_counter s"

text \<open>The results of successive reads, by whichever threads.\<close>

primrec reads :: "'w raw_counter \<Rightarrow> nat \<Rightarrow> extender \<times> 'w \<Rightarrow> u64 list" where
  "reads raw_counter 0 s = []"
| "reads raw_counter (Suc n) s =
     (let (v, s) = extender_read raw_counter s in v # reads raw_counter n s)"

section \<open>A 32-bit hardware counter\<close>

text \<open>
  The world holds the true number of events at each of the reads to come; the register shows its
  low 32 bits. \<open>steady\<close>: events only accumulate, and fewer than \<open>2 ^ 32\<close> between two reads.
\<close>

definition hw_counter :: "nat list raw_counter" where
  "hw_counter cs = (case cs of [] \<Rightarrow> (0, []) | c # cs \<Rightarrow> (of_nat (c mod 2 ^ 32), cs))"

fun steady :: "nat list \<Rightarrow> bool" where
  "steady (c # d # cs) \<longleftrightarrow> c \<le> d \<and> d - c < 2 ^ 32 \<and> steady (d # cs)"
| "steady _ = True"

lemma unat_low: "unat (of_nat (c mod 2 ^ 32) :: u64) = c mod 2 ^ 32"
  by (simp add: unat_of_nat_small)

text \<open>One read adds the number of events since the last one.\<close>

lemma wrapped_difference:
  assumes "c \<le> d" "d - c < 2 ^ 32"
  shows "(if (of_nat (d mod 2 ^ 32) :: u64) < of_nat (c mod 2 ^ 32)
     then (push_bit 32 1 - of_nat (c mod 2 ^ 32)) + of_nat (d mod 2 ^ 32)
     else of_nat (d mod 2 ^ 32) - of_nat (c mod 2 ^ 32)) = (of_nat (d - c) :: u64)"
proof -
  have less: "(of_nat (d mod 2 ^ 32) :: u64) < of_nat (c mod 2 ^ 32) \<longleftrightarrow> d mod 2 ^ 32 < c mod 2 ^ 32"
    by (simp only: word_less_nat_alt unat_low)
  define q r where "q = c div 2 ^ 32" and "r = c mod 2 ^ 32"
  define q' r' where "q' = d div 2 ^ 32" and "r' = d mod 2 ^ 32"
  have c: "c = 2 ^ 32 * q + r" "r < 2 ^ 32" and d: "d = 2 ^ 32 * q' + r'" "r' < 2 ^ 32"
    by (simp_all add: q_def r_def q'_def r'_def)
  show ?thesis
  proof (cases "r' < r")
    case True
    with assms c d have "q' = Suc q" by auto
    with c d True have "d - c + r = 2 ^ 32 + r'" by simp
    then have "(of_nat (d - c) :: u64) + of_nat r = 2 ^ 32 + of_nat r'"
      by (metis of_nat_add of_nat_numeral of_nat_power)
    then have "(of_nat (d - c) :: u64) = 2 ^ 32 - of_nat r + of_nat r'"
      by (simp add: algebra_simps)
    with True less show ?thesis by (simp add: r_def r'_def push_bit_eq_mult)
  next
    case False
    with assms c d have "q' = q" by auto
    with c d False have "d - c + r = r'" by simp
    then have "(of_nat (d - c) :: u64) + of_nat r = of_nat r'"
      by (metis of_nat_add)
    then have "(of_nat (d - c) :: u64) = of_nat r' - of_nat r"
      by (simp add: algebra_simps)
    with False less show ?thesis by (simp add: r_def r'_def)
  qed
qed

lemma reads_exact:
  assumes "steady (c # cs)" "last_raw_value s = of_nat (c mod 2 ^ 32)" "n \<le> length cs"
  shows "reads hw_counter n (s, cs) = map (\<lambda>d. extended_value s + of_nat (d - c)) (take n cs)"
  using assms
proof (induction n arbitrary: s c cs)
  case (Suc n)
  then obtain d ds where cs: "cs = d # ds" by (cases cs) auto
  with Suc.prems have cd: "c \<le> d" "d - c < 2 ^ 32" and st: "steady (d # ds)" and n: "n \<le> length ds" by auto
  define s' where "s' = \<lparr>extended_value = extended_value s + of_nat (d - c), last_raw_value = of_nat (d mod 2 ^ 32)\<rparr>"
  have "extender_read hw_counter (s, cs) = (extended_value s', s', ds)"
    using wrapped_difference [OF cd] Suc.prems(2)
    by (cases s) (auto simp: extender_read_def internal_read_def hw_counter_def cs s'_def Let_def split: if_splits)
  moreover have "reads hw_counter n (s', ds) = map (\<lambda>e. extended_value s' + of_nat (e - d)) (take n ds)"
    by (rule Suc.IH [OF st _ n]) (simp add: s'_def)
  moreover have "d \<le> e" if "e \<in> set ds" for e
    using st that
  proof (induction ds arbitrary: d)
    case (Cons a ds)
    then show ?case by fastforce
  qed simp
  then have "(of_nat (d - c) :: u64) + of_nat (e - d) = of_nat (e - c)" if "e \<in> set ds" for e
    using cd(1) that by (simp only: of_nat_add [symmetric]) simp
  ultimately show ?case
    by (auto simp: cs s'_def add.assoc dest!: in_set_takeD)
qed simp

text \<open>
  The extended counter counts exactly. If fewer than \<open>2 ^ 32\<close> events happen between two
  successive reads, each read returns the value at construction plus the number of events since
  then, modulo \<open>2 ^ 64\<close>, however often the 32-bit register has wrapped.
\<close>

theorem width_extension_exact:
  assumes "steady (c # cs)"
  shows "reads hw_counter (length cs) (CounterWidthExtender hw_counter (c # cs)) =
    map (\<lambda>d. of_nat (c mod 2 ^ 32) + of_nat (d - c)) cs"
  using reads_exact [OF assms, of "\<lparr>extended_value = of_nat (c mod 2 ^ 32), last_raw_value = of_nat (c mod 2 ^ 32)\<rparr>" "length cs"]
  by (simp add: CounterWidthExtender_def hw_counter_def)

theorem width_extension_exact_witness:
  "reads hw_counter 3 (CounterWidthExtender hw_counter [4294967290, 4294967300, 8589934590, 8589934600]) =
     [4294967300, 8589934590, 8589934600]"
proof -
  have "steady [4294967290, 4294967300, 8589934590, 8589934600]" by simp
  moreover have "length [4294967300, 8589934590, 8589934600 :: nat] = 3" by simp
  ultimately show ?thesis
    using width_extension_exact [of 4294967290 "[4294967300, 8589934590, 8589934600]"] by (simp only:) simp
qed

end
