(* ===== verification/Extender_Threads.thy ===== *)
theory Extender_Threads
  imports Width_Extender Mutex_Threads
begin

text \<open>
  \<open>CounterWidthExtender\<close> of src/pcm/width_extender.h with its threads: \<open>internal_read\<close> statement by
  statement under \<open>CounterMutex\<close>, called by any number of threads. The watchdog is one of them; its
  code, \<open>WatchDogProc\<close>, is in the binary library and is any sequence of reads here.
\<close>

section \<open>The statements of \<open>internal_read\<close>\<close>

text \<open>The locals, and the sum that is computed before it is stored in \<open>extended_value\<close>.\<close>

record read_locals =
  read_result :: u64
  new_raw_value :: u64
  new_sum :: u64

type_synonym 'w read_statement = "(read_locals, extender \<times> 'w) statement"

definition internal_read_start :: "unit \<Rightarrow> read_locals" where
  "internal_read_start _ = \<lparr>read_result = 0, new_raw_value = 0, new_sum = 0\<rparr>"

definition read_raw :: "'w raw_counter \<Rightarrow> 'w read_statement" where
  "read_raw raw_counter = (\<lambda>(l, s, w). let (v, w) = raw_counter w in (l\<lparr>new_raw_value := v\<rparr>, s, w))"

definition compute_sum :: "'w read_statement" where
  "compute_sum = (\<lambda>(l, s, w).
     (if new_raw_value l < last_raw_value s
      then l\<lparr>new_sum := extended_value s + ((push_bit 32 1 - last_raw_value s) + new_raw_value l)\<rparr>
      else l\<lparr>new_sum := extended_value s + (new_raw_value l - last_raw_value s)\<rparr>, s, w))"

definition store_sum :: "'w read_statement" where
  "store_sum = (\<lambda>(l, s, w). (l, s\<lparr>extended_value := new_sum l\<rparr>, w))"

definition store_last :: "'w read_statement" where
  "store_last = (\<lambda>(l, s, w). (l, s\<lparr>last_raw_value := new_raw_value l\<rparr>, w))"

definition load_result :: "'w read_statement" where
  "load_result = (\<lambda>(l, s, w). (l\<lparr>read_result := extended_value s\<rparr>, s, w))"

definition internal_read_body :: "'w raw_counter \<Rightarrow> unit \<Rightarrow> 'w read_statement list" where
  "internal_read_body raw_counter _ = [read_raw raw_counter, compute_sum, store_sum, store_last, load_result]"

lemmas read_statement_defs = internal_read_start_def internal_read_body_def read_raw_def
  compute_sum_def store_sum_def store_last_def load_result_def

section \<open>The mutex makes a read one step\<close>

definition read_call :: "'w raw_counter \<Rightarrow> unit \<Rightarrow> extender \<times> 'w \<Rightarrow> u64 \<times> extender \<times> 'w" where
  "read_call raw_counter _ sw = internal_read raw_counter sw"

interpretation reader: critical_section
  "internal_read_body raw_counter" internal_read_start read_result "read_call raw_counter" "\<lambda>_. True"
  for raw_counter
  by unfold_locales
    (auto simp: read_statement_defs read_call_def internal_read_def Let_def split_def split: if_splits)

text \<open>The system of the extender and its threads, from its construction.\<close>

definition extender_threads ::
  "'w raw_counter \<Rightarrow> unit program \<Rightarrow> nat list \<Rightarrow> 'w \<Rightarrow> (read_locals, extender \<times> 'w, u64) msys" where
  "extender_threads raw_counter prog ts w =
     mrun (internal_read_body raw_counter) internal_read_start read_result prog ts
       (msys_init (CounterWidthExtender raw_counter w))"

lemma seq_calls_reads:
  "seq_calls (read_call raw_counter) prog ts (h\<^sub>0, x) = (h, y) \<Longrightarrow>
   \<exists>n. map snd h = map snd h\<^sub>0 @ reads raw_counter n x"
proof (induction ts arbitrary: h\<^sub>0 x)
  case Nil
  then show ?case by (intro exI [of _ 0]) simp
next
  case (Cons t ts)
  show ?case
  proof (cases "prog t (calls_made t h\<^sub>0)")
    case None
    with Cons show ?thesis by simp
  next
    case (Some p)
    obtain r x' where r: "internal_read raw_counter x = (r, x')"
      by (metis surj_pair)
    then have "read_call raw_counter p x = (r, x')"
      by (simp add: read_call_def)
    with Cons.prems Some have "seq_calls (read_call raw_counter) prog ts (h\<^sub>0 @ [(t, r)], x') = (h, y)"
      by simp
    from Cons.IH [OF this] r show ?thesis
      by (auto simp: extender_read_def intro: exI [of _ "Suc n" for n])
  qed
qed

lemma length_reads [simp]: "length (reads raw_counter n x) = n"
  by (induction n arbitrary: x) (simp_all add: split_def Let_def)

lemma extender_threads_reads:
  "map snd (history (extender_threads raw_counter prog ts w)) =
     reads raw_counter (length (history (extender_threads raw_counter prog ts w)))
       (CounterWidthExtender raw_counter w)"
proof -
  let ?s = "extender_threads raw_counter prog ts w"
  obtain x where "seq_calls (read_call raw_counter) prog (map fst (history ?s)) ([], CounterWidthExtender raw_counter w) =
      (history ?s, x)"
    using reader.serializable [OF _ refl] unfolding extender_threads_def by blast
  from seq_calls_reads [OF this] obtain n where "map snd (history ?s) = reads raw_counter n (CounterWidthExtender raw_counter w)"
    by auto
  then show ?thesis
    by (metis length_map length_reads)
qed

section \<open>Properties\<close>

text \<open>
  C7: reads of any number of threads never disturb each other: for every interleaving of their
  statements, if fewer than \<open>2 ^ 32\<close> events happen between two successive reads of the register, the
  results, in the order in which the calls finish, are the value at construction plus the exact
  number of events up to each read, modulo \<open>2 ^ 64\<close>; no two threads are ever inside the critical section,
  and a thread that has a read to make can always finish it.
\<close>

theorem concurrent_reads_exact:
  assumes "steady (c # cs)" "s = extender_threads hw_counter prog ts (c # cs)" "length (history s) \<le> length cs"
  shows "map snd (history s) =
      map (\<lambda>d. of_nat (c mod 2 ^ 32) + of_nat (d - c)) (take (length (history s)) cs) \<and>
    (\<forall>t u. place s t \<noteq> Outside \<and> place s u \<noteq> Outside \<longrightarrow> t = u) \<and>
    (\<forall>t. prog t (calls_made t (history s)) \<noteq> None \<longrightarrow>
      (\<exists>us. calls_made t (history (extender_threads hw_counter prog (ts @ us) (c # cs))) =
        Suc (calls_made t (history s))))"
proof (intro conjI allI impI)
  show "map snd (history s) = map (\<lambda>d. of_nat (c mod 2 ^ 32) + of_nat (d - c)) (take (length (history s)) cs)"
    using extender_threads_reads [of hw_counter prog ts "c # cs"] reads_exact [OF assms(1) _ assms(3)] assms(2)
    by (simp add: CounterWidthExtender_def hw_counter_def)
  have ok: "s = mrun (internal_read_body hw_counter) internal_read_start read_result prog ts
      (msys_init (CounterWidthExtender hw_counter (c # cs)))"
    using assms(2) by (simp add: extender_threads_def)
  show "t = u" if "place s t \<noteq> Outside \<and> place s u \<noteq> Outside" for t u
    using reader.mutual_exclusion [OF _ ok] that by simp
  show "\<exists>us. calls_made t (history (extender_threads hw_counter prog (ts @ us) (c # cs))) =
      Suc (calls_made t (history s))" if "prog t (calls_made t (history s)) \<noteq> None" for t
    using reader.call_can_finish [OF _ ok] that
    by (auto simp: extender_threads_def ok reader.mrun_append)
qed

text \<open>
  The watchdog and one reader; the reader waits for the mutex while the watchdog is in the
  section, and the register wraps between the two reads.
\<close>

definition watchdog_and_reader :: "unit program" where
  "watchdog_and_reader t k = (if t = 0 \<or> t = 1 \<and> k < 1 then Some () else None)"

theorem concurrent_reads_exact_witness:
  "map snd (history (extender_threads hw_counter watchdog_and_reader [0, 0, 1, 0, 1, 0, 0, 0, 0, 1, 1, 0, 1, 1, 1, 1, 1]
       [4294967290, 4294967295, 4294967300])) = [4294967295, 4294967300]"
proof -
  let ?ts = "[0, 0, 1, 0, 1, 0, 0, 0, 0, 1, 1, 0, 1, 1, 1, 1, 1]"
  have "steady [4294967290, 4294967295, 4294967300]" by simp
  moreover have "length (history (extender_threads hw_counter watchdog_and_reader ?ts
      [4294967290, 4294967295, 4294967300])) = 2"
    by (simp add: extender_threads_def msys_init_def mstep_def calls_made_def watchdog_and_reader_def
        read_statement_defs hw_counter_def CounterWidthExtender_def)
  ultimately show ?thesis
    using concurrent_reads_exact [of 4294967290 "[4294967295, 4294967300]", OF _ refl, of watchdog_and_reader ?ts]
    by simp
qed

end
