(* ===== verification/Extender_Destructor.thy ===== *)
theory Extender_Destructor
  imports Extender_Threads
begin

text \<open>
  \<open>~CounterWidthExtender\<close> of src/pcm/width_extender.h while the watchdog runs: the destructor cancels the
  thread, does not wait for its end, destroys the mutex and deletes the raw counter.
\<close>

section \<open>The destructor and the watchdog\<close>

text \<open>
  \<open>WatchDogProc\<close> is in the binary library. It is taken to make one read after the other; \<open>naps k\<close> says
  whether it passes a cancellation point after its \<open>k\<close>-th read, and \<open>interruptible\<close> whether the call of
  the raw counter contains one (locking and unlocking a mutex does not). A cancelled thread ends at a
  cancellation point, also inside the critical section. \<open>done_stmts\<close> counts the statements of the
  destructor; destroying a locked mutex leaves it as it is.
\<close>

datatype xmove = WatchDog | Destroyer

record 'w xsys =
  readers :: "(read_locals, extender \<times> 'w, u64) msys"
  napping :: bool
  gone :: bool
  mutex_dead :: bool
  done_stmts :: nat

definition endless_reads :: "unit program" where
  "endless_reads t k = (if t = 0 then Some () else None)"

text \<open>\<open>pthread_cancel\<close>, \<open>pthread_mutex_destroy\<close>, \<open>delete raw_counter\<close>; then the object is dead.\<close>

definition extender_destroy_step :: "'w xsys \<Rightarrow> 'w xsys outcome" where
  "extender_destroy_step d =
     (if done_stmts d < 3
      then Returned (d\<lparr>done_stmts := Suc (done_stmts d),
        mutex_dead := mutex_dead d \<or> done_stmts d = 1 \<and> owner (readers d) = None\<rparr>)
      else Returned d)"

definition watchdog_step :: "(nat \<Rightarrow> bool) \<Rightarrow> bool \<Rightarrow> 'w raw_counter \<Rightarrow> 'w xsys \<Rightarrow> 'w xsys outcome" where
  "watchdog_step naps interruptible raw_counter d =
     (if gone d then Returned d
      else if napping d then Returned (if 1 \<le> done_stmts d then d\<lparr>gone := True\<rparr> else d\<lparr>napping := False\<rparr>)
      else (case mstep (internal_read_body raw_counter) internal_read_start read_result endless_reads 0 (readers d) of
          None \<Rightarrow> Returned d
        | Some s \<Rightarrow>
            (case place (readers d) 0 of
               Outside \<Rightarrow>
                 if 3 \<le> done_stmts d then OutOfBounds else if mutex_dead d then Undefined
                 else Returned (d\<lparr>readers := s\<rparr>)
             | Inside k l \<Rightarrow>
                 if 3 \<le> done_stmts d then OutOfBounds
                 else if k = 0 \<and> interruptible \<and> 1 \<le> done_stmts d then Returned (d\<lparr>gone := True\<rparr>)
                 else Returned (d\<lparr>readers := s,
                   napping := (place s 0 = Outside \<and> naps (calls_made 0 (history s)))\<rparr>))))"

fun xsched :: "(nat \<Rightarrow> bool) \<Rightarrow> bool \<Rightarrow> 'w raw_counter \<Rightarrow> xmove list \<Rightarrow> 'w xsys \<Rightarrow> 'w xsys outcome" where
  "xsched naps ic rc [] d = Returned d"
| "xsched naps ic rc (WatchDog # ms) d = on_return (watchdog_step naps ic rc d) (xsched naps ic rc ms)"
| "xsched naps ic rc (Destroyer # ms) d = on_return (extender_destroy_step d) (xsched naps ic rc ms)"

text \<open>The watchdog after some steps, when \<open>pthread_cancel\<close> has just been executed.\<close>

definition watchdog_cancelled :: "(read_locals, extender \<times> 'w, u64) msys \<Rightarrow> bool \<Rightarrow> 'w xsys" where
  "watchdog_cancelled s nap = \<lparr>readers = s, napping = nap, gone = False, mutex_dead = False, done_stmts = 1\<rparr>"

section \<open>When the destructor is safe\<close>

lemma napping_safe:
  "napping d \<or> gone d \<Longrightarrow> 1 \<le> done_stmts d \<Longrightarrow> \<exists>d'. xsched naps ic rc ms d = Returned d'"
proof (induction ms arbitrary: d)
  case (Cons a ms)
  show ?case
  proof (cases a)
    case WatchDog
    with Cons show ?thesis
      by (auto simp: watchdog_step_def)
  next
    case Destroyer
    with Cons show ?thesis
      by (auto simp: extender_destroy_step_def)
  qed
qed simp

lemma endless_watchdog [simp]: "endless_reads 0 k = Some ()"
  by (simp add: endless_reads_def)

lemma watchdog_overtaken:
  assumes "place s 0 = Inside k l"
  shows "xsched naps ic rc [Destroyer, Destroyer, WatchDog] (watchdog_cancelled s False) = OutOfBounds"
proof -
  obtain s' where "mstep (internal_read_body rc) internal_read_start read_result endless_reads 0 s = Some s'"
    using mstep_inside [of s 0 k l endless_reads "()" "internal_read_body rc" internal_read_start read_result] assms by auto
  with assms show ?thesis
    by (simp add: watchdog_cancelled_def extender_destroy_step_def watchdog_step_def)
qed

lemma watchdog_only_owner:
  assumes "s = extender_threads rc endless_reads ts w" "place s 0 = Outside"
  shows "owner s = None"
proof (rule ccontr)
  assume "owner s \<noteq> None"
  then obtain u where "owner s = Some u"
    by blast
  from reader.owner_inside [OF _ assms(1) [unfolded extender_threads_def] this] assms(2) show False
    by (cases "u = 0") (auto simp: endless_reads_def)
qed

text \<open>
  The destructor is a race: whatever \<open>WatchDogProc\<close> does between its reads and whether or not the raw
  counter can be interrupted, some interleaving makes the watchdog use the dead object exactly when it
  does not stand at a cancellation point while it is cancelled.
\<close>

lemma extender_destructor_race:
  assumes "s = extender_threads rc endless_reads ts w"
  shows "(\<exists>ms. xsched naps ic rc ms (watchdog_cancelled s nap) = OutOfBounds) \<longleftrightarrow> \<not> nap"
proof (cases nap)
  case True
  then have "\<exists>d'. xsched naps ic rc ms (watchdog_cancelled s nap) = Returned d'" for ms
    by (intro napping_safe) (simp_all add: watchdog_cancelled_def)
  with True show ?thesis
    by (metis outcome.distinct(3))
next
  case False
  have "\<exists>ms. xsched naps ic rc ms (watchdog_cancelled s False) = OutOfBounds"
  proof (cases "place s 0")
    case (Inside k l)
    then show ?thesis
      using watchdog_overtaken by blast
  next
    case Outside
    let ?s = "s\<lparr>owner := Some 0, place := (place s)(0 := Inside 0 (internal_read_start ()))\<rparr>"
    have "mstep (internal_read_body rc) internal_read_start read_result endless_reads 0 s = Some ?s"
      using Outside watchdog_only_owner [OF assms Outside] by (simp add: mstep_def)
    with Outside have "watchdog_step naps ic rc (watchdog_cancelled s False) = Returned (watchdog_cancelled ?s False)"
      by (simp add: watchdog_step_def watchdog_cancelled_def)
    moreover have "xsched naps ic rc [Destroyer, Destroyer, WatchDog] (watchdog_cancelled ?s False) = OutOfBounds"
      by (rule watchdog_overtaken) simp
    ultimately show ?thesis
      by (intro exI [of _ "WatchDog # [Destroyer, Destroyer, WatchDog]"]) simp
  qed
  with False show ?thesis
    by simp
qed

end
