(* ===== verification/Pcm_Double.thy ===== *)
theory Pcm_Double
  imports Complex_Main CS_Prelude
begin

text \<open>
  The \<open>double\<close> arithmetic of the metrics. A double is a real number, an infinity or not a number;
  every operation computes exactly and rounds. The rounding is the machine's: a parameter \<open>rnd\<close> of
  all definitions, of which the theorems only use that it is monotone and exact at 0 and 1, as IEEE
  rounding is. Division by zero is written out. The sign of zero is not kept.
\<close>

datatype dbl = Num real | Inf bool | NaN

type_synonym rounding = "real \<Rightarrow> real"

definition ieee :: "rounding \<Rightarrow> bool" where
  "ieee rnd \<longleftrightarrow> mono rnd \<and> rnd 0 = 0 \<and> rnd 1 = 1"

text \<open>Conversions from \<open>uint64\<close> and \<open>int64\<close>.\<close>

definition u64_real :: "u64 \<Rightarrow> real" where
  "u64_real x = real (unat x)"

definition dbl_u :: "rounding \<Rightarrow> u64 \<Rightarrow> dbl" where
  "dbl_u rnd x = Num (rnd (u64_real x))"

definition dbl_s :: "rounding \<Rightarrow> u64 \<Rightarrow> dbl" where
  "dbl_s rnd x = Num (rnd (real_of_int (sint x)))"

fun dneg :: "dbl \<Rightarrow> dbl" where
  "dneg (Num a) = Num (- a)"
| "dneg (Inf s) = Inf (\<not> s)"
| "dneg NaN = NaN"

fun dadd :: "rounding \<Rightarrow> dbl \<Rightarrow> dbl \<Rightarrow> dbl" where
  "dadd rnd (Num a) (Num b) = Num (rnd (a + b))"
| "dadd rnd (Num a) (Inf s) = Inf s"
| "dadd rnd (Inf s) (Num b) = Inf s"
| "dadd rnd (Inf s) (Inf t) = (if s = t then Inf s else NaN)"
| "dadd rnd NaN y = NaN"
| "dadd rnd x NaN = NaN"

definition dsub :: "rounding \<Rightarrow> dbl \<Rightarrow> dbl \<Rightarrow> dbl" where
  "dsub rnd x y = dadd rnd x (dneg y)"

fun dmul :: "rounding \<Rightarrow> dbl \<Rightarrow> dbl \<Rightarrow> dbl" where
  "dmul rnd (Num a) (Num b) = Num (rnd (a * b))"
| "dmul rnd (Num a) (Inf s) = (if a = 0 then NaN else Inf ((a < 0) \<noteq> s))"
| "dmul rnd (Inf s) (Num b) = (if b = 0 then NaN else Inf ((b < 0) \<noteq> s))"
| "dmul rnd (Inf s) (Inf t) = Inf (s \<noteq> t)"
| "dmul rnd NaN y = NaN"
| "dmul rnd x NaN = NaN"

fun ddiv :: "rounding \<Rightarrow> dbl \<Rightarrow> dbl \<Rightarrow> dbl" where
  "ddiv rnd (Num a) (Num b) = (if b \<noteq> 0 then Num (rnd (a / b)) else if a = 0 then NaN else Inf (a < 0))"
| "ddiv rnd (Num a) (Inf s) = Num 0"
| "ddiv rnd (Inf s) (Num b) = Inf ((b < 0) \<noteq> s)"
| "ddiv rnd (Inf s) (Inf t) = NaN"
| "ddiv rnd NaN y = NaN"
| "ddiv rnd x NaN = NaN"

fun dless :: "dbl \<Rightarrow> dbl \<Rightarrow> bool" where
  "dless (Num a) (Num b) = (a < b)"
| "dless (Num a) (Inf s) = (\<not> s)"
| "dless (Inf s) (Num b) = s"
| "dless (Inf s) (Inf t) = (s \<and> \<not> t)"
| "dless NaN y = False"
| "dless x NaN = False"

definition dle :: "dbl \<Rightarrow> dbl \<Rightarrow> bool" where
  "dle x y \<longleftrightarrow> dless x y \<or> (x = y \<and> x \<noteq> NaN)"

text \<open>\<open>(uint64) x\<close>: truncation; undefined behaviour outside the range of the type.\<close>

definition dbl_to_u64 :: "dbl \<Rightarrow> u64 option" where
  "dbl_to_u64 x = (case x of
      Num a \<Rightarrow> if - 1 < a \<and> a < 2 ^ 64 then Some (of_int (if a < 0 then 0 else \<lfloor>a\<rfloor>)) else None
    | Inf _ \<Rightarrow> None | NaN \<Rightarrow> None)"

text \<open>A value between 0 and 1.\<close>

fun in_unit :: "dbl \<Rightarrow> bool" where
  "in_unit (Num a) = (0 \<le> a \<and> a \<le> 1)"
| "in_unit _ = False"

lemma ieee_mono: "ieee rnd \<Longrightarrow> a \<le> b \<Longrightarrow> rnd a \<le> rnd b"
  by (auto simp: ieee_def mono_def)

lemma ieee_01 [simp]: "ieee rnd \<Longrightarrow> rnd 0 = 0" "ieee rnd \<Longrightarrow> rnd 1 = 1"
  by (auto simp: ieee_def)

lemma ieee_nonneg: "ieee rnd \<Longrightarrow> 0 \<le> a \<Longrightarrow> 0 \<le> rnd a"
  using ieee_mono [of rnd 0 a] by simp

lemma ieee_le_1: "ieee rnd \<Longrightarrow> a \<le> 1 \<Longrightarrow> rnd a \<le> 1"
  using ieee_mono [of rnd a 1] by simp

lemma ieee_ge_1: "ieee rnd \<Longrightarrow> 1 \<le> a \<Longrightarrow> 1 \<le> rnd a"
  using ieee_mono [of rnd 1 a] by simp

lemma u64_real_simps [simp]: "0 \<le> u64_real x" "u64_real x \<le> u64_real y \<longleftrightarrow> x \<le> y" "u64_real x = 0 \<longleftrightarrow> x = 0"
  by (simp_all add: u64_real_def word_le_nat_alt unat_eq_zero del: of_nat_unat)

lemma u64_real_ge_1: "x \<noteq> 0 \<Longrightarrow> 1 \<le> u64_real x"
  by (simp add: u64_real_def unat_gt_0 Suc_le_eq del: of_nat_unat)

lemma ieee_u64_pos: "ieee rnd \<Longrightarrow> x \<noteq> 0 \<Longrightarrow> 0 < rnd (u64_real x)"
  using ieee_ge_1 [OF _ u64_real_ge_1] by fastforce

text \<open>The ratio of two counts, the first at most the second.\<close>

lemma ratio_in_unit:
  assumes "ieee rnd" "x \<le> y" "y \<noteq> 0"
  shows "in_unit (ddiv rnd (dbl_u rnd x) (dbl_u rnd y))"
proof -
  let ?a = "rnd (u64_real x)" and ?b = "rnd (u64_real y)"
  have "0 \<le> ?a" "?a \<le> ?b" "0 < ?b"
    using assms by (simp_all add: ieee_nonneg ieee_mono ieee_u64_pos)
  then have "0 \<le> ?a / ?b" "?a / ?b \<le> 1"
    by simp_all
  then show ?thesis
    using assms(1) \<open>0 < ?b\<close> by (simp add: dbl_u_def ieee_nonneg ieee_le_1)
qed

text \<open>One minus such a value, and the clamping of a value.\<close>

lemma one_minus_in_unit: "ieee rnd \<Longrightarrow> in_unit x \<Longrightarrow> in_unit (dsub rnd (Num 1) x)"
  by (cases x) (auto simp: dsub_def ieee_nonneg ieee_le_1)

definition clamp01 :: "dbl \<Rightarrow> dbl" where
  "clamp01 x = (if dless x (Num 0) then Num 0 else if dless (Num 1) x then Num 1 else x)"

lemma clamp01_in_unit: "x \<noteq> NaN \<Longrightarrow> in_unit (clamp01 x)"
  by (cases x) (auto simp: clamp01_def)

end
