(* ===== verification/Double_Rounding.thy ===== *)
theory Double_Rounding
  imports Pcm_Double
begin

text \<open>
  The rounding of the machine's \<open>double\<close>: to the nearest number with 53 significant bits, ties to even.
  Exponents are unbounded here: the programs stay far from the smallest and the largest double.
  Shown: it is an \<open>ieee\<close> rounding, exact on the integers up to \<open>2 ^ 53\<close>, with a relative error of at
  most \<open>2 ^ -53\<close>.
\<close>

section \<open>To the nearest integer\<close>

definition nearest_even :: "real \<Rightarrow> int" where
  "nearest_even x =
     (let n = \<lfloor>x\<rfloor>; d = x - of_int n in if d < 1 / 2 \<or> d = 1 / 2 \<and> even n then n else n + 1)"

lemma nearest_even_between: "\<lfloor>x\<rfloor> \<le> nearest_even x" "nearest_even x \<le> \<lfloor>x\<rfloor> + 1"
  by (simp_all add: nearest_even_def Let_def)

lemma nearest_even_of_int [simp]: "nearest_even (of_int n) = n"
  by (simp add: nearest_even_def)

lemma nearest_even_mono: "x \<le> y \<Longrightarrow> nearest_even x \<le> nearest_even y"
proof (cases "\<lfloor>x\<rfloor> = \<lfloor>y\<rfloor>")
  case True
  assume "x \<le> y"
  with True show ?thesis
    by (auto simp: nearest_even_def Let_def)
next
  case False
  assume "x \<le> y"
  with False have "\<lfloor>x\<rfloor> + 1 \<le> \<lfloor>y\<rfloor>"
    using floor_mono [of x y] by linarith
  then show ?thesis
    using nearest_even_between(2) [of x] nearest_even_between(1) [of y] by linarith
qed

lemma nearest_even_error: "\<bar>of_int (nearest_even x) - x\<bar> \<le> 1 / 2"
proof -
  have "of_int \<lfloor>x\<rfloor> \<le> x" "x < of_int \<lfloor>x\<rfloor> + 1"
    by linarith+
  then show ?thesis
    by (simp add: nearest_even_def Let_def abs_if) linarith
qed

lemma nearest_even_minus: "nearest_even (- x) = - nearest_even x"
proof (cases "x = of_int \<lfloor>x\<rfloor>")
  case True
  then show ?thesis
    by (metis nearest_even_of_int of_int_minus)
next
  case False
  then have "\<lfloor>- x\<rfloor> = - \<lfloor>x\<rfloor> - 1"
    by linarith
  then show ?thesis
    by (auto simp: nearest_even_def Let_def)
qed

section \<open>To 53 bits\<close>

definition exponent_of :: "real \<Rightarrow> int" where
  "exponent_of x = \<lfloor>log 2 \<bar>x\<bar>\<rfloor>"

definition ulp :: "real \<Rightarrow> real" where
  "ulp x = 2 powr of_int (exponent_of x - 52)"

definition double_round :: rounding where
  "double_round x = (if x = 0 then 0 else of_int (nearest_even (x / ulp x)) * ulp x)"

lemma ulp_pos [simp]: "0 < ulp x" "ulp x \<noteq> 0"
  by (simp_all add: ulp_def)

lemma powr_exponent: "x \<noteq> 0 \<Longrightarrow> 2 powr of_int (exponent_of x) \<le> \<bar>x\<bar>"
  "x \<noteq> 0 \<Longrightarrow> \<bar>x\<bar> < 2 powr of_int (exponent_of x + 1)"
proof -
  assume x: "x \<noteq> 0"
  have "of_int (exponent_of x) \<le> log 2 \<bar>x\<bar>" "log 2 \<bar>x\<bar> < of_int (exponent_of x + 1)"
    using floor_correct [of "log 2 \<bar>x\<bar>"] by (simp_all only: exponent_of_def)
  with x show "2 powr of_int (exponent_of x) \<le> \<bar>x\<bar>" "\<bar>x\<bar> < 2 powr of_int (exponent_of x + 1)"
    by (simp_all add: le_log_iff log_less_iff)
qed

lemma ulp_powr: "2 powr of_int (exponent_of x) = 2 ^ 52 * ulp x" "2 powr of_int (exponent_of x + 1) = 2 ^ 53 * ulp x"
  by (simp_all add: ulp_def powr_diff powr_add)

lemma significand: "x \<noteq> 0 \<Longrightarrow> 2 ^ 52 \<le> \<bar>x\<bar> / ulp x" "x \<noteq> 0 \<Longrightarrow> \<bar>x\<bar> / ulp x < 2 ^ 53"
  using powr_exponent [of x, unfolded ulp_powr] by (simp_all add: pos_le_divide_eq pos_divide_less_eq)

lemma double_round_minus: "double_round (- x) = - double_round x"
  by (simp add: double_round_def ulp_def exponent_of_def nearest_even_minus)

lemma double_round_error: "\<bar>double_round x - x\<bar> \<le> \<bar>x\<bar> / 2 ^ 53"
proof (cases "x = 0")
  case False
  have "\<bar>double_round x - x\<bar> = \<bar>of_int (nearest_even (x / ulp x)) - x / ulp x\<bar> * ulp x"
    using False by (simp add: double_round_def left_diff_distrib abs_mult_pos less_imp_le)
  also have "\<dots> \<le> 1 / 2 * ulp x"
    by (intro mult_right_mono nearest_even_error) (simp add: less_imp_le)
  also have "\<dots> \<le> \<bar>x\<bar> / 2 ^ 53"
    using significand(1) [OF False] by (simp add: field_simps)
  finally show ?thesis .
qed (simp add: double_round_def)

text \<open>The rounding stays within the binade.\<close>

lemma double_round_binade:
  assumes "0 < x"
  shows "2 powr of_int (exponent_of x) \<le> double_round x" "double_round x \<le> 2 powr of_int (exponent_of x + 1)"
proof -
  have s: "2 ^ 52 \<le> x / ulp x" "x / ulp x < 2 ^ 53"
    using significand [of x] assms by simp_all
  have "2 ^ 52 \<le> nearest_even (x / ulp x)"
    using nearest_even_mono [OF s(1)] nearest_even_of_int [of "2 ^ 52"] by simp
  then have "of_int (2 ^ 52) \<le> (of_int (nearest_even (x / ulp x)) :: real)"
    by (simp only: of_int_le_iff)
  with assms show "2 powr of_int (exponent_of x) \<le> double_round x"
    by (simp add: double_round_def ulp_powr)
  have "nearest_even (x / ulp x) \<le> 2 ^ 53"
    using nearest_even_mono [OF less_imp_le [OF s(2)]] nearest_even_of_int [of "2 ^ 53"] by simp
  then have "of_int (nearest_even (x / ulp x)) \<le> (of_int (2 ^ 53) :: real)"
    by (simp only: of_int_le_iff)
  with assms show "double_round x \<le> 2 powr of_int (exponent_of x + 1)"
    unfolding ulp_powr by (simp add: double_round_def)
qed

lemma double_round_mono_pos:
  assumes "0 < x" "x \<le> y"
  shows "double_round x \<le> double_round y"
proof (cases "exponent_of x = exponent_of y")
  case True
  then have "ulp x = ulp y"
    by (simp add: ulp_def)
  with assms show ?thesis
    by (simp add: double_round_def) (intro nearest_even_mono divide_right_mono, simp_all add: less_imp_le)
next
  case False
  moreover have "exponent_of x \<le> exponent_of y"
    using assms by (simp add: exponent_of_def floor_mono)
  ultimately have "of_int (exponent_of x + 1) \<le> (of_int (exponent_of y) :: real)"
    by linarith
  then have "2 powr of_int (exponent_of x + 1) \<le> (2 :: real) powr of_int (exponent_of y)"
    by simp
  then show ?thesis
    using double_round_binade(2) [of x] double_round_binade(1) [of y] assms by linarith
qed

lemma double_round_sign: "0 < x \<Longrightarrow> 0 < double_round x" "x < 0 \<Longrightarrow> double_round x < 0" "double_round 0 = 0"
proof -
  show pos: "0 < double_round x" if "0 < x" for x
    using double_round_binade(1) [OF that] powr_gt_zero [of 2 "of_int (exponent_of x)"] by linarith
  show "double_round x < 0" if "x < 0"
    using pos [of "- x"] that by (simp add: double_round_minus)
qed (simp add: double_round_def)

lemma double_round_mono: "x \<le> y \<Longrightarrow> double_round x \<le> double_round y"
proof -
  assume le: "x \<le> y"
  consider "0 < x" | "y < 0" | "x \<le> 0" "0 \<le> y"
    by linarith
  then show ?thesis
  proof cases
    case 1
    with le show ?thesis by (rule double_round_mono_pos [rotated])
  next
    case 2
    with le double_round_mono_pos [of "- y" "- x"] show ?thesis
      by (simp add: double_round_minus)
  next
    case 3
    then show ?thesis
      using double_round_sign(2) [of x] double_round_sign(1) [of y] double_round_sign(3)
      by (cases "x = 0"; cases "y = 0") auto
  qed
qed

text \<open>An integer with at most 53 bits is a double.\<close>

lemma double_round_int:
  assumes "\<bar>n\<bar> \<le> 2 ^ 53"
  shows "double_round (of_int n) = of_int n"
proof (cases "n = 0")
  case False
  let ?x = "of_int n :: real" and ?e = "exponent_of (of_int n)"
  have "\<exists>k. ?x / ulp ?x = of_int k"
  proof (cases "\<bar>n\<bar> = 2 ^ 53")
    case True
    then have "\<bar>?x\<bar> = 2 powr 53"
      by (simp flip: of_int_abs)
    then have "?e = 53"
      by (simp only: exponent_of_def log_powr_cancel) simp
    then have "ulp ?x = 2"
      by (simp add: ulp_def)
    moreover have "even n"
      using True by (metis dvd_abs_iff dvd_power zero_less_numeral)
    ultimately show ?thesis
      by (auto elim!: evenE)
  next
    case less: False
    have "2 powr of_int ?e \<le> \<bar>?x\<bar>"
      using False by (intro powr_exponent) simp
    also have "\<bar>?x\<bar> < 2 powr 53"
      using assms less by (simp flip: of_int_abs)
    finally have "of_int ?e < (53 :: real)"
      by (simp only: powr_less_cancel_iff one_less_numeral_iff semiring_norm)
    then have e: "?e \<le> 52"
      by linarith
    then have "?x / ulp ?x = of_int (n * 2 ^ nat (52 - ?e))"
      by (simp add: ulp_def powr_diff field_simps flip: powr_realpow)
    then show ?thesis
      by blast
  qed
  then obtain k where k: "?x / ulp ?x = of_int k"
    by blast
  then have "double_round ?x = of_int k * ulp ?x"
    using False by (simp add: double_round_def)
  also have "\<dots> = ?x"
    using k by (simp add: field_simps)
  finally show ?thesis .
qed (simp add: double_round_def)

lemma ieee_double_round: "ieee double_round"
  using double_round_int [of 1] double_round_mono by (simp add: ieee_def mono_def double_round_sign)

end
