(* ===== verification/Pcm_Model.thy ===== *)
theory Pcm_Model
  imports Pcm_Double
begin

text \<open>
  The inline part of class \<open>PCM\<close> in src/pcm/cpucounters.h: what it knows about the processor models.
  The rest of the class is in the binary library; what its query methods return is kept in fields of
  the object.
\<close>

section \<open>Processor models\<close>

datatype SupportedCPUModels =
    NEHALEM_EP | NEHALEM | ATOM | ATOM_2 | ATOM_CENTERTON | ATOM_BAYTRAIL | ATOM_AVOTON | CLARKDALE
  | WESTMERE_EP | NEHALEM_EX | WESTMERE_EX | SANDY_BRIDGE | JAKETOWN | IVY_BRIDGE | HASWELL | HASWELL_ULT
  | HASWELL_2 | IVYTOWN | HASWELLX | BROADWELL | END_OF_MODEL_LIST

fun model_id :: "SupportedCPUModels \<Rightarrow> int" where
  "model_id NEHALEM_EP = 26" | "model_id NEHALEM = 30" | "model_id ATOM = 28" | "model_id ATOM_2 = 53"
| "model_id ATOM_CENTERTON = 54" | "model_id ATOM_BAYTRAIL = 55" | "model_id ATOM_AVOTON = 77"
| "model_id CLARKDALE = 37" | "model_id WESTMERE_EP = 44" | "model_id NEHALEM_EX = 46"
| "model_id WESTMERE_EX = 47" | "model_id SANDY_BRIDGE = 42" | "model_id JAKETOWN = 45"
| "model_id IVY_BRIDGE = 58" | "model_id HASWELL = 60" | "model_id HASWELL_ULT = 69"
| "model_id HASWELL_2 = 70" | "model_id IVYTOWN = 62" | "model_id HASWELLX = 63"
| "model_id BROADWELL = 61" | "model_id END_OF_MODEL_LIST = 0x0ffff"

text \<open>The modes and the return codes of \<open>program()\<close>, and the PCIe events with their codes.\<close>

datatype ProgramMode = DEFAULT_EVENTS | CUSTOM_CORE_EVENTS | EXT_CUSTOM_CORE_EVENTS | INVALID_MODE

fun mode_code :: "ProgramMode \<Rightarrow> int" where
  "mode_code DEFAULT_EVENTS = 0" | "mode_code CUSTOM_CORE_EVENTS = 1"
| "mode_code EXT_CUSTOM_CORE_EVENTS = 2" | "mode_code INVALID_MODE = 3"

text \<open>A core event as \<open>program\<close> takes it in the mode \<open>CUSTOM_CORE_EVENTS\<close>.\<close>

record CustomCoreEventDescription =
  event_number :: int
  umask_value :: int

datatype ErrorCode = Success | MSRAccessDenied | PMUBusy | UnknownError

fun error_code :: "ErrorCode \<Rightarrow> int" where
  "error_code Success = 0" | "error_code MSRAccessDenied = 1" | "error_code PMUBusy = 2" | "error_code UnknownError = 3"

datatype PCIeEventCode =
    PCIeRdCur | PCIeNSRd | PCIeWiLF | PCIeItoM | PCIeNSWr | PCIeNSWrF | RFO | CRd | DRd | PRd | WiL | ItoM

fun pcie_code :: "PCIeEventCode \<Rightarrow> u32" where
  "pcie_code PCIeRdCur = 0x19E" | "pcie_code PCIeNSRd = 0x1E4" | "pcie_code PCIeWiLF = 0x194"
| "pcie_code PCIeItoM = 0x19C" | "pcie_code PCIeNSWr = 0x1E5" | "pcie_code PCIeNSWrF = 0x1E6"
| "pcie_code RFO = 0x180" | "pcie_code CRd = 0x181" | "pcie_code DRd = 0x182" | "pcie_code PRd = 0x187"
| "pcie_code WiL = 0x18F" | "pcie_code ItoM = 0x1C8"

lemma pcie_codes_differ: "pcie_code e = pcie_code f \<longleftrightarrow> e = f"
  by (cases e; cases f) simp_all

record ServerPCICFGUncore =
  num_imc_channels :: u32
  num_qpi_ports :: u32
  qpi_speed :: "u64 list"
  num_imc :: u32

definition getNumQPIPorts :: "ServerPCICFGUncore \<Rightarrow> u32" where "getNumQPIPorts u = num_qpi_ports u"
definition getNumMC :: "ServerPCICFGUncore \<Rightarrow> u32" where "getNumMC u = num_imc u"
definition getNumMCChannels :: "ServerPCICFGUncore \<Rightarrow> u32" where "getNumMCChannels u = num_imc_channels u"

record TopologyEntry =
  os_id :: int
  socket :: int
  core_id :: int

definition topology_entry_init :: TopologyEntry where
  "topology_entry_init = \<lparr>os_id = - 1, socket = - 1, core_id = - 1\<rparr>"

text \<open>
  \<open>server_pcicfg_uncore\<close> is \<open>NULL\<close> or an array of pointers that may be \<open>NULL\<close>. The fields from
  \<open>numCores\<close> on are the results of \<open>getNumCores\<close>, \<open>getNumOnlineCores\<close>, \<open>getNumSockets\<close>,
  \<open>getThreadsPerCore\<close> and \<open>getNominalFrequency\<close>.
\<close>

record pcm =
  cpu_model :: int
  original_cpu_model :: int
  num_sockets :: int
  max_qpi_speed :: u64
  topology :: "TopologyEntry list"
  server_pcicfg_uncore :: "ServerPCICFGUncore option list option"
  joulesPerEnergyUnit :: real
  pkgThermalSpecPower :: int
  pkgMinimumPower :: int
  pkgMaximumPower :: int
  coreCStateMsr :: "u64 list option"
  pkgCStateMsr :: "u64 list option"
  run_state :: int
  blocked :: bool
  allow_multiple_instances :: bool
  disable_JKT_workaround :: bool
  numCores :: u32
  numOnlineCores :: u32
  numSockets :: u32
  threadsPerCore :: u32
  nominalFrequency :: u64

section \<open>Operations\<close>

text \<open>Reading \<open>p[i]\<close>; \<open>None\<close> outside the array.\<close>

definition at_index :: "'a list \<Rightarrow> int \<Rightarrow> 'a option" where
  "at_index xs i = (if 0 \<le> i \<and> i < int (length xs) then Some (xs ! nat i) else None)"

definition is_model :: "pcm \<Rightarrow> SupportedCPUModels list \<Rightarrow> bool" where
  "is_model m cs \<longleftrightarrow> cpu_model m \<in> set (map model_id cs)"

definition isCoreCStateResidencySupported :: "pcm \<Rightarrow> int \<Rightarrow> bool option" where
  "isCoreCStateResidencySupported m state =
     (if state = 0 \<or> state = 1 then Some True
      else case coreCStateMsr m of
             None \<Rightarrow> Some False
           | Some msr \<Rightarrow> if state \<le> 10 then map_option (\<lambda>a. a \<noteq> 0) (at_index msr state) else Some False)"

definition isPackageCStateResidencySupported :: "pcm \<Rightarrow> int \<Rightarrow> bool option" where
  "isPackageCStateResidencySupported m state =
     (case pkgCStateMsr m of
        None \<Rightarrow> Some False
      | Some msr \<Rightarrow> if state \<le> 10 then map_option (\<lambda>a. a \<noteq> 0) (at_index msr state) else Some False)"

definition setRunState :: "pcm \<Rightarrow> int \<Rightarrow> pcm" where "setRunState m new_state = m\<lparr>run_state := new_state\<rparr>"
definition getRunState :: "pcm \<Rightarrow> int" where "getRunState m = run_state m"
definition isBlocked :: "pcm \<Rightarrow> bool" where "isBlocked m = blocked m"
definition setBlocked :: "pcm \<Rightarrow> bool \<Rightarrow> pcm" where "setBlocked m b = m\<lparr>blocked := b\<rparr>"
definition allowMultipleInstances :: "pcm \<Rightarrow> pcm" where
  "allowMultipleInstances m = m\<lparr>allow_multiple_instances := True\<rparr>"
definition disableJKTWorkaround :: "pcm \<Rightarrow> pcm" where
  "disableJKTWorkaround m = m\<lparr>disable_JKT_workaround := True\<rparr>"

definition getSocketId :: "pcm \<Rightarrow> u32 \<Rightarrow> int option" where
  "getSocketId m c = map_option socket (at_index (topology m) (uint c))"

text \<open>\<open>(server_pcicfg_uncore && server_pcicfg_uncore[0]) ? f(server_pcicfg_uncore[0]) : 0\<close>.\<close>

definition first_uncore :: "pcm \<Rightarrow> (ServerPCICFGUncore \<Rightarrow> u32) \<Rightarrow> u32 option" where
  "first_uncore m f = (case server_pcicfg_uncore m of
      None \<Rightarrow> Some 0
    | Some us \<Rightarrow> (case at_index us 0 of None \<Rightarrow> None | Some None \<Rightarrow> Some 0 | Some (Some u) \<Rightarrow> Some (f u)))"

definition getQPILinksPerSocket :: "pcm \<Rightarrow> u64 option" where
  "getQPILinksPerSocket m =
     (if is_model m [NEHALEM_EP, WESTMERE_EP, CLARKDALE] then Some (if num_sockets m = 2 then 2 else 1)
      else if is_model m [NEHALEM_EX, WESTMERE_EX] then Some 4
      else if is_model m [JAKETOWN, IVYTOWN, HASWELLX] then map_option ucast (first_uncore m getNumQPIPorts)
      else Some 0)"

definition getMCPerSocket :: "pcm \<Rightarrow> u32 option" where
  "getMCPerSocket m =
     (if is_model m [NEHALEM_EP, WESTMERE_EP, CLARKDALE] then Some 1
      else if is_model m [NEHALEM_EX, WESTMERE_EX] then Some 2
      else if is_model m [JAKETOWN, IVYTOWN, HASWELLX] then first_uncore m getNumMC
      else Some 0)"

definition getMCChannelsPerSocket :: "pcm \<Rightarrow> u32 option" where
  "getMCChannelsPerSocket m =
     (if is_model m [NEHALEM_EP, WESTMERE_EP, CLARKDALE] then Some 3
      else if is_model m [NEHALEM_EX, WESTMERE_EX] then Some 4
      else if is_model m [JAKETOWN, IVYTOWN, HASWELLX] then first_uncore m getNumMCChannels
      else Some 0)"

definition getMaxIPC :: "pcm \<Rightarrow> u32" where
  "getMaxIPC m =
     (if is_model m [NEHALEM_EP, WESTMERE_EP, NEHALEM_EX, WESTMERE_EX, CLARKDALE, SANDY_BRIDGE, JAKETOWN,
           IVYTOWN, IVY_BRIDGE, HASWELL, HASWELLX, BROADWELL] then 4
      else if is_model m [ATOM] then 2 else 0)"

definition getPCUFrequency :: "pcm \<Rightarrow> u64" where
  "getPCUFrequency m =
     (if is_model m [JAKETOWN, IVYTOWN] then 800000000 else if is_model m [HASWELLX] then 1000000000 else 0)"

definition uncore_getQPILinkSpeed :: "ServerPCICFGUncore \<Rightarrow> u32 \<Rightarrow> u64 option" where
  "uncore_getQPILinkSpeed u linkNr = (if qpi_speed u = [] then Some 0 else at_index (qpi_speed u) (uint linkNr))"

definition packageEnergyMetricsAvailable :: "pcm \<Rightarrow> bool" where
  "packageEnergyMetricsAvailable m \<longleftrightarrow>
     is_model m [JAKETOWN, IVYTOWN, SANDY_BRIDGE, IVY_BRIDGE, HASWELL] \<or>
     original_cpu_model m = model_id ATOM_AVOTON \<or> is_model m [HASWELLX, BROADWELL]"

definition dramEnergyMetricsAvailable :: "pcm \<Rightarrow> bool" where
  "dramEnergyMetricsAvailable m \<longleftrightarrow> is_model m [JAKETOWN, IVYTOWN, HASWELLX]"

definition packageThermalMetricsAvailable :: "pcm \<Rightarrow> bool" where
  "packageThermalMetricsAvailable m = packageEnergyMetricsAvailable m"

definition outgoingQPITrafficMetricsAvailable :: "pcm \<Rightarrow> bool" where
  "outgoingQPITrafficMetricsAvailable m \<longleftrightarrow> is_model m [NEHALEM_EX, WESTMERE_EX, JAKETOWN, IVYTOWN, HASWELLX]"

definition qpiUtilizationMetricsAvailable :: "pcm \<Rightarrow> bool" where
  "qpiUtilizationMetricsAvailable m = outgoingQPITrafficMetricsAvailable m"

definition memoryTrafficMetricsAvailable :: "pcm \<Rightarrow> bool" where
  "memoryTrafficMetricsAvailable m \<longleftrightarrow> \<not> is_model m [ATOM, CLARKDALE]"

definition memoryIOTrafficMetricAvailable :: "pcm \<Rightarrow> bool" where
  "memoryIOTrafficMetricAvailable m \<longleftrightarrow> is_model m [SANDY_BRIDGE, IVY_BRIDGE, HASWELL, BROADWELL]"

definition hasBecktonUncore :: "pcm \<Rightarrow> bool" where
  "hasBecktonUncore m \<longleftrightarrow> is_model m [NEHALEM_EX, WESTMERE_EX]"

definition hasPCICFGUncore :: "pcm \<Rightarrow> bool" where
  "hasPCICFGUncore m \<longleftrightarrow> is_model m [JAKETOWN, IVYTOWN, HASWELLX]"

definition getQPILinkSpeed :: "pcm \<Rightarrow> u32 \<Rightarrow> u32 \<Rightarrow> u64 option" where
  "getQPILinkSpeed m socketNr linkNr =
     (if hasPCICFGUncore m then
        (case server_pcicfg_uncore m of
           None \<Rightarrow> None
         | Some us \<Rightarrow> (case at_index us (uint socketNr) of
               Some (Some u) \<Rightarrow> uncore_getQPILinkSpeed u linkNr | _ \<Rightarrow> None))
      else Some (max_qpi_speed m))"

end
