(* ===== verification/Pcm_Types.thy ===== *)
theory Pcm_Types
  imports CS_Prelude
begin

text \<open>
  The register formats of src/pcm/types.h (unions of a bit-field struct and a 64-bit value) and its
  ACPI MCFG header. On x86-64 the fields of a bit-field struct are allocated from bit 0 upwards.
\<close>

section \<open>Bit-field layouts\<close>

type_synonym layout = "(string \<times> nat) list"

text \<open>Offset and width of a field.\<close>

fun field_at :: "nat \<Rightarrow> layout \<Rightarrow> string \<Rightarrow> (nat \<times> nat) option" where
  "field_at k [] f = None"
| "field_at k ((g, n) # L) f = (if f = g then Some (k, n) else field_at (k + n) L f)"

definition get_field :: "layout \<Rightarrow> string \<Rightarrow> u64 \<Rightarrow> u64 option" where
  "get_field L f v = map_option (\<lambda>(k, n). take_bit n (drop_bit k v)) (field_at 0 L f)"

definition set_field :: "layout \<Rightarrow> string \<Rightarrow> u64 \<Rightarrow> u64 \<Rightarrow> u64 option" where
  "set_field L f x v = map_option (\<lambda>(k, n).
     (v AND NOT (push_bit k (mask n))) OR push_bit k (take_bit n x)) (field_at 0 L f)"

definition layout_width :: "layout \<Rightarrow> nat" where
  "layout_width L = sum_list (map snd L)"

section \<open>The registers\<close>

definition EventSelectRegister :: layout where
  "EventSelectRegister = [(''event_select'', 8), (''umask'', 8), (''usr'', 1), (''os'', 1), (''edge'', 1),
     (''pin_control'', 1), (''apic_int'', 1), (''any_thread'', 1), (''enable'', 1), (''invert'', 1),
     (''cmask'', 8), (''in_tx'', 1), (''in_txcp'', 1), (''reservedX'', 30)]"

definition FixedEventControlRegister :: layout where
  "FixedEventControlRegister = [(''os0'', 1), (''usr0'', 1), (''any_thread0'', 1), (''enable_pmi0'', 1),
     (''os1'', 1), (''usr1'', 1), (''any_thread1'', 1), (''enable_pmi1'', 1),
     (''os2'', 1), (''usr2'', 1), (''any_thread2'', 1), (''enable_pmi2'', 1), (''reserved1'', 52)]"

definition UncoreEventSelectRegister :: layout where
  "UncoreEventSelectRegister = [(''event_select'', 8), (''umask'', 8), (''reserved1'', 1), (''occ_ctr_rst'', 1),
     (''edge'', 1), (''reserved2'', 1), (''enable_pmi'', 1), (''reserved3'', 1), (''enable'', 1),
     (''invert'', 1), (''cmask'', 8), (''reservedx'', 32)]"

definition BecktonZDP_fields :: layout where
  "BecktonZDP_fields = [(''fvid'', 5), (''bcmd'', 3), (''resp'', 3), (''evnt0'', 3), (''evnt1'', 3),
     (''evnt2'', 3), (''evnt3'', 3), (''pbox_init_err'', 1)]"

definition BecktonZDP_fields_wsm :: layout where
  "BecktonZDP_fields_wsm = [(''fvid'', 6), (''bcmd'', 3), (''resp'', 3), (''evnt0'', 3), (''evnt1'', 3),
     (''evnt2'', 3), (''evnt3'', 3), (''pbox_init_err'', 1)]"

definition BecktonUncorePMUCNTCTLRegister :: layout where
  "BecktonUncorePMUCNTCTLRegister = [(''en'', 1), (''pmi_en'', 1), (''count_mode'', 2), (''storage_mode'', 2),
     (''wrap_mode'', 1), (''flag_mode'', 1), (''rsv1'', 1), (''inc_sel'', 5), (''rsv2'', 5), (''set_flag_sel'', 3)]"

text \<open>\<open>operator <<\<close> for the fixed control register: the labels and values in the order they are printed.\<close>

definition print_fixed :: "u64 \<Rightarrow> (string \<times> u64 option) list" where
  "print_fixed v = (let g = (\<lambda>f. get_field FixedEventControlRegister f v) in
     [(''os0'', g ''os0''), (''usr0'', g ''usr0''), (''any_thread0'', g ''any_thread0''), (''enable_pmi0'', g ''enable_pmi0''),
      (''os1'', g ''os1''), (''usr1'', g ''usr1''), (''any_thread1'', g ''any_thread1''), (''enable_pmi10'', g ''enable_pmi1''),
      (''os2'', g ''os2''), (''usr2'', g ''usr2''), (''any_thread2'', g ''any_thread2''), (''enable_pmi2'', g ''enable_pmi2''),
      (''reserved1'', g ''reserved1'')])"

section \<open>Laws of a layout\<close>

lemma field_at_bounds:
  "field_at k L f = Some (j, n) \<Longrightarrow> k \<le> j \<and> j + n \<le> k + layout_width L"
  by (induction k L f rule: field_at.induct) (auto simp: layout_width_def split: if_splits)

lemma field_at_defined: "f \<in> fst ` set L \<longleftrightarrow> (\<exists>p. field_at k L f = Some p)"
  by (induction k L f rule: field_at.induct) auto

lemma field_at_disjoint:
  assumes "field_at k L f = Some (i, n)" "field_at k L g = Some (j, m)" "f \<noteq> g"
  shows "i + n \<le> j \<or> j + m \<le> i"
  using assms
proof (induction k L f rule: field_at.induct)
  case (2 k h w L f)
  then show ?case
    using field_at_bounds [of "k + w" L] by (fastforce split: if_splits)
qed simp

lemma bit_get: "field_at 0 L f = Some (k, n) \<Longrightarrow> get_field L f v = Some x \<Longrightarrow> bit x i \<longleftrightarrow> i < n \<and> bit v (k + i)"
  by (auto simp: get_field_def bit_simps ac_simps)

lemma bit_set: "field_at 0 L f = Some (k, n) \<Longrightarrow> set_field L f x v = Some v' \<Longrightarrow> i < 64 \<Longrightarrow>
   bit v' i \<longleftrightarrow> (if k \<le> i \<and> i < k + n then bit x (i - k) else bit v i)"
  by (auto simp: set_field_def bit_simps)

locale bit_layout =
  fixes L :: layout
  assumes fits: "layout_width L \<le> 64"
begin

lemma set_defined: "f \<in> fst ` set L \<Longrightarrow> \<exists>v'. set_field L f x v = Some v'"
  using field_at_defined [of f L 0] by (auto simp: set_field_def)

lemma get_set_same:
  assumes "field_at 0 L f = Some (k, n)" "set_field L f x v = Some v'"
  shows "get_field L f v' = Some (take_bit n x)"
proof -
  have b: "k + n \<le> 64"
    using field_at_bounds [OF assms(1)] fits by simp
  obtain y where y: "get_field L f v' = Some y"
    using assms(1) by (auto simp: get_field_def)
  have "y = take_bit n x"
  proof (rule bit_word_eqI)
    fix i assume "i < LENGTH(64)"
    then show "bit y i \<longleftrightarrow> bit (take_bit n x) i"
      using bit_get [OF assms(1) y, of i] bit_set [OF assms, of "k + i"] b by (auto simp: bit_simps)
  qed
  with y show ?thesis by simp
qed

lemma get_set_other:
  assumes "set_field L f x v = Some v'" "f \<noteq> g"
  shows "get_field L g v' = get_field L g v"
proof (cases "field_at 0 L g")
  case None
  then show ?thesis by (simp add: get_field_def)
next
  case (Some p)
  obtain k n where f: "field_at 0 L f = Some (k, n)"
    using assms(1) by (auto simp: set_field_def)
  obtain j m where g: "field_at 0 L g = Some (j, m)"
    using Some by (cases p) auto
  have b: "j + m \<le> 64"
    using field_at_bounds [OF g] fits by simp
  have "take_bit m (drop_bit j v') = take_bit m (drop_bit j v)"
  proof (rule bit_word_eqI)
    fix i assume "i < LENGTH(64)"
    show "bit (take_bit m (drop_bit j v')) i \<longleftrightarrow> bit (take_bit m (drop_bit j v)) i"
      using bit_set [OF f assms(1), of "j + i"] field_at_disjoint [OF f g assms(2)] b
      by (auto simp: bit_simps)
  qed
  then show ?thesis by (simp add: get_field_def g)
qed

lemma bits_outside:
  assumes "set_field L f x v = Some v'" "layout_width L \<le> i" "i < 64"
  shows "bit v' i = bit v i"
proof -
  obtain k n where f: "field_at 0 L f = Some (k, n)"
    using assms(1) by (auto simp: set_field_def)
  then show ?thesis
    using bit_set [OF f assms(1,3)] field_at_bounds [OF f] assms(2) by auto
qed

end

lemmas layout_defs = EventSelectRegister_def FixedEventControlRegister_def UncoreEventSelectRegister_def
  BecktonZDP_fields_def BecktonZDP_fields_wsm_def BecktonUncorePMUCNTCTLRegister_def

interpretation event_select: bit_layout EventSelectRegister
  by unfold_locales (simp add: layout_width_def layout_defs)

interpretation fixed_control: bit_layout FixedEventControlRegister
  by unfold_locales (simp add: layout_width_def layout_defs)

interpretation uncore_select: bit_layout UncoreEventSelectRegister
  by unfold_locales (simp add: layout_width_def layout_defs)

interpretation beckton_zdp: bit_layout BecktonZDP_fields
  by unfold_locales (simp add: layout_width_def layout_defs)

interpretation beckton_zdp_wsm: bit_layout BecktonZDP_fields_wsm
  by unfold_locales (simp add: layout_width_def layout_defs)

interpretation beckton_cnt: bit_layout BecktonUncorePMUCNTCTLRegister
  by unfold_locales (simp add: layout_width_def layout_defs)

text \<open>Together the fields of a full layout are the value.\<close>

lemma field_covers:
  assumes "distinct (map fst L)" "k \<le> i" "i < k + layout_width L"
  shows "\<exists>f j n. f \<in> fst ` set L \<and> field_at k L f = Some (j, n) \<and> j \<le> i \<and> i < j + n"
  using assms
proof (induction L arbitrary: k)
  case (Cons p L)
  obtain g w where p: "p = (g, w)" by (cases p)
  show ?case
  proof (cases "i < k + w")
    case True
    with Cons.prems(2) show ?thesis by (intro exI [of _ g]) (auto simp: p)
  next
    case False
    with Cons.prems Cons.IH [of "k + w"] obtain f j n where
      f: "f \<in> fst ` set L" "field_at (k + w) L f = Some (j, n)" "j \<le> i" "i < j + n"
      by (auto simp: p layout_width_def ac_simps)
    moreover have "f \<noteq> g" using f(1) Cons.prems(1) by (auto simp: p)
    ultimately show ?thesis by (intro exI [of _ f]) (auto simp: p)
  qed
qed (simp add: layout_width_def)

lemma fields_determine:
  assumes "distinct (map fst L)" "layout_width L = 64"
    and same: "\<And>f. f \<in> fst ` set L \<Longrightarrow> get_field L f v = get_field L f w"
  shows "v = w"
proof (rule bit_word_eqI)
  fix i assume i: "i < LENGTH(64)"
  obtain f j n where f: "f \<in> fst ` set L" "field_at 0 L f = Some (j, n)" "j \<le> i" "i < j + n"
    using field_covers [OF assms(1), of 0 i] assms(2) i by auto
  then have "take_bit n (drop_bit j v) = take_bit n (drop_bit j w)"
    using same [OF f(1)] by (simp add: get_field_def)
  then have "bit (take_bit n (drop_bit j v)) (i - j) = bit (take_bit n (drop_bit j w)) (i - j)"
    by simp
  then show "bit v i = bit w i"
    using f(3,4) by (simp add: bit_simps less_diff_conv2 add.commute)
qed

section \<open>The ACPI MCFG table\<close>

text \<open>
  \<open>sizeof(MCFGHeader)\<close> is 44 and \<open>sizeof(MCFGRecord)\<close> is 16; the subtraction and the division are done
  in \<open>size_t\<close>, the result is cut to \<open>unsigned\<close>.
\<close>

definition sizeof_MCFGHeader :: u64 where "sizeof_MCFGHeader = 44"
definition sizeof_MCFGRecord :: u64 where "sizeof_MCFGRecord = 16"

definition nrecords :: "u32 \<Rightarrow> u32" where
  "nrecords len = ucast ((ucast len - sizeof_MCFGHeader) div sizeof_MCFGRecord)"

section \<open>Properties\<close>

definition pcm_registers :: "layout list" where
  "pcm_registers = [EventSelectRegister, FixedEventControlRegister, UncoreEventSelectRegister,
     BecktonZDP_fields, BecktonZDP_fields_wsm, BecktonUncorePMUCNTCTLRegister]"

lemma pcm_register_layout: "L \<in> set pcm_registers \<Longrightarrow> bit_layout L"
  unfolding pcm_registers_def
  by (simp, elim disjE; hypsubst, rule event_select.bit_layout_axioms fixed_control.bit_layout_axioms
      uncore_select.bit_layout_axioms beckton_zdp.bit_layout_axioms beckton_zdp_wsm.bit_layout_axioms
      beckton_cnt.bit_layout_axioms)



text \<open>
  What \<open>operator <<\<close> prints of a fixed control register determines its value: the printed fields
  cover all 64 bits.
\<close>

lemma print_fixed_injective: "print_fixed v = print_fixed w \<longleftrightarrow> v = w"
proof
  assume "print_fixed v = print_fixed w"
  then have "f \<in> fst ` set FixedEventControlRegister \<Longrightarrow>
      get_field FixedEventControlRegister f v = get_field FixedEventControlRegister f w" for f
    by (auto simp: print_fixed_def Let_def layout_defs)
  then show "v = w"
    by (rule fields_determine [rotated 2]) (simp_all add: layout_defs layout_width_def)
qed simp

lemma unat_widen: "unat (ucast (x :: u32) :: u64) = unat x"
  by transfer simp

lemma nrecords_full:
  assumes "44 + 16 * k < 2 ^ 32"
  shows "nrecords (of_nat (44 + 16 * k)) = of_nat k"
proof -
  have "unat (ucast (of_nat (44 + 16 * k) :: u32) :: u64) = 44 + 16 * k"
    unfolding unat_widen by (rule unat_of_nat_small) (use assms in simp)
  then have "(ucast (of_nat (44 + 16 * k) :: u32) :: u64) = of_nat (44 + 16 * k)"
    by (metis of_nat_unat ucast_id)
  then have "(ucast (of_nat (44 + 16 * k) :: u32) :: u64) - sizeof_MCFGHeader = of_nat (16 * k)"
    by (simp only: of_nat_add sizeof_MCFGHeader_def) simp
  moreover have "(of_nat (16 * k) :: u64) div 16 = of_nat k"
  proof -
    have "unat (of_nat (16 * k) :: u64) = 16 * k" "unat (of_nat k :: u64) = k"
      by (rule unat_of_nat_small; use assms in simp)+
    then show ?thesis by (simp only: word_unat_eq_iff unat_div) simp
  qed
  ultimately have "nrecords (of_nat (44 + 16 * k)) = ucast (of_nat k :: u64)"
    by (simp only: nrecords_def sizeof_MCFGRecord_def)
  also have "(ucast (of_nat k :: u64) :: u32) = of_nat k"
    by transfer simp
  finally show ?thesis .
qed

lemma nrecords_short:
  assumes "len < 44"
  shows "nrecords len \<ge> 2 ^ 32 - 3"
proof -
  define n where "n = unat len"
  have n: "n < 44"
    using assms by (simp add: n_def word_less_nat_alt)
  have "unat ((ucast len :: u64) - 44) = 2 ^ 64 - 44 + n"
    using n unat_sub_if' [of "ucast len :: u64" 44] by (simp add: unat_widen n_def)
  then have "unat (((ucast len :: u64) - 44) div 16) = (2 ^ 64 - 44 + n) div 16"
    by (simp add: unat_div)
  also have "\<dots> = 2 ^ 60 - 3 + (n + 4) div 16"
  proof -
    have "2 ^ 64 - 44 + n = (n + 4) + (2 ^ 60 - 3) * 16" by simp
    then show ?thesis by (simp only: div_mult_self1 [of 16 "n + 4" "2 ^ 60 - 3"])
  qed
  finally have "unat (nrecords len) = (2 ^ 60 - 3 + (n + 4) div 16) mod 2 ^ 32"
    by (simp add: nrecords_def sizeof_MCFGHeader_def sizeof_MCFGRecord_def unsigned_ucast_eq take_bit_eq_mod)
  moreover have "(n + 4) div 16 = 0 \<or> (n + 4) div 16 = 1 \<or> (n + 4) div 16 = 2"
    using n by linarith
  ultimately show ?thesis
    unfolding word_le_nat_alt by (elim disjE) simp_all
qed

text \<open>
  A well-formed MCFG table of \<open>k\<close> records has \<open>nrecords = k\<close>; a table whose length is smaller than
  the header wraps around to a huge number of records.
\<close>

lemma mcfg_nrecords:
  "(\<forall>k. 44 + 16 * k < 2 ^ 32 \<longrightarrow> nrecords (of_nat (44 + 16 * k)) = of_nat k) \<and>
   (\<forall>len. len < 44 \<longrightarrow> nrecords len \<ge> 2 ^ 32 - 3)"
  using nrecords_full nrecords_short by blast

end
