(* ===== verification/Pcm_Registers.thy ===== *)
theory Pcm_Registers
  imports Pcm_Types
begin

text \<open>
  The register addresses and control words of src/pcm/types.h: which model specific registers and
  PCI functions each processor has, that no two of them have the same address, and that the macros
  which build the control word of a counter put its fields where the register format has them.
\<close>

section \<open>Addresses\<close>

type_synonym registers = "(string \<times> nat) list"

definition core_msrs :: registers where
  "core_msrs =
    [(''INST_RETIRED_ANY_ADDR'', 0x309), (''CPU_CLK_UNHALTED_THREAD_ADDR'', 0x30A),
     (''CPU_CLK_UNHALTED_REF_ADDR'', 0x30B), (''IA32_CR_PERF_GLOBAL_CTRL'', 0x38F),
     (''IA32_CR_FIXED_CTR_CTRL'', 0x38D), (''IA32_PERFEVTSEL0_ADDR'', 0x186),
     (''IA32_PERFEVTSEL1_ADDR'', 0x187), (''IA32_PERFEVTSEL2_ADDR'', 0x188),
     (''IA32_PERFEVTSEL3_ADDR'', 0x189), (''IA32_DEBUGCTL'', 0x1D9), (''IA32_PMC0'', 0xC1),
     (''IA32_PMC1'', 0xC2), (''IA32_PMC2'', 0xC3), (''IA32_PMC3'', 0xC4),
     (''MSR_OFFCORE_RSP0'', 0x1A6), (''MSR_OFFCORE_RSP1'', 0x1A7), (''PLATFORM_INFO_ADDR'', 0xCE),
     (''IA32_TIME_STAMP_COUNTER'', 0x10)]"

definition nehalem_uncore_msrs :: registers where
  "nehalem_uncore_msrs =
    [(''MSR_UNCORE_PERF_GLOBAL_CTRL_ADDR'', 0x391), (''MSR_UNCORE_PERFEVTSEL0_ADDR'', 0x3C0),
     (''MSR_UNCORE_PERFEVTSEL1_ADDR'', 0x3C1), (''MSR_UNCORE_PERFEVTSEL2_ADDR'', 0x3C2),
     (''MSR_UNCORE_PERFEVTSEL3_ADDR'', 0x3C3), (''MSR_UNCORE_PERFEVTSEL4_ADDR'', 0x3C4),
     (''MSR_UNCORE_PERFEVTSEL5_ADDR'', 0x3C5), (''MSR_UNCORE_PERFEVTSEL6_ADDR'', 0x3C6),
     (''MSR_UNCORE_PERFEVTSEL7_ADDR'', 0x3C7), (''MSR_UNCORE_PMC0'', 0x3B0),
     (''MSR_UNCORE_PMC1'', 0x3B1), (''MSR_UNCORE_PMC2'', 0x3B2), (''MSR_UNCORE_PMC3'', 0x3B3),
     (''MSR_UNCORE_PMC4'', 0x3B4), (''MSR_UNCORE_PMC5'', 0x3B5), (''MSR_UNCORE_PMC6'', 0x3B6),
     (''MSR_UNCORE_PMC7'', 0x3B7)]"

definition beckton_msrs :: registers where
  "beckton_msrs =
    [(''U_MSR_PMON_GLOBAL_CTL'', 0xC00), (''MB0_MSR_PERF_GLOBAL_CTL'', 0xCA0),
     (''MB0_MSR_PMU_CNT_0'', 0xCB1), (''MB0_MSR_PMU_CNT_CTL_0'', 0xCB0),
     (''MB0_MSR_PMU_CNT_1'', 0xCB3), (''MB0_MSR_PMU_CNT_CTL_1'', 0xCB2),
     (''MB0_MSR_PMU_ZDP_CTL_FVC'', 0xCAB), (''MB1_MSR_PERF_GLOBAL_CTL'', 0xCE0),
     (''MB1_MSR_PMU_CNT_0'', 0xCF1), (''MB1_MSR_PMU_CNT_CTL_0'', 0xCF0),
     (''MB1_MSR_PMU_CNT_1'', 0xCF3), (''MB1_MSR_PMU_CNT_CTL_1'', 0xCF2),
     (''MB1_MSR_PMU_ZDP_CTL_FVC'', 0xCEB), (''BB0_MSR_PERF_GLOBAL_CTL'', 0xC20),
     (''BB0_MSR_PERF_CNT_1'', 0xC33), (''BB0_MSR_PERF_CNT_CTL_1'', 0xC32),
     (''BB1_MSR_PERF_GLOBAL_CTL'', 0xC60), (''BB1_MSR_PERF_CNT_1'', 0xC73),
     (''BB1_MSR_PERF_CNT_CTL_1'', 0xC72), (''R_MSR_PMON_CTL0'', 0xE10), (''R_MSR_PMON_CTR0'', 0xE11),
     (''R_MSR_PMON_CTL1'', 0xE12), (''R_MSR_PMON_CTR1'', 0xE13), (''R_MSR_PMON_CTL2'', 0xE14),
     (''R_MSR_PMON_CTR2'', 0xE15), (''R_MSR_PMON_CTL3'', 0xE16), (''R_MSR_PMON_CTR3'', 0xE17),
     (''R_MSR_PMON_CTL4'', 0xE18), (''R_MSR_PMON_CTR4'', 0xE19), (''R_MSR_PMON_CTL5'', 0xE1A),
     (''R_MSR_PMON_CTR5'', 0xE1B), (''R_MSR_PMON_CTL6'', 0xE1C), (''R_MSR_PMON_CTR6'', 0xE1D),
     (''R_MSR_PMON_CTL7'', 0xE1E), (''R_MSR_PMON_CTR7'', 0xE1F), (''R_MSR_PMON_CTL8'', 0xE30),
     (''R_MSR_PMON_CTR8'', 0xE31), (''R_MSR_PMON_CTL9'', 0xE32), (''R_MSR_PMON_CTR9'', 0xE33),
     (''R_MSR_PMON_CTL10'', 0xE34), (''R_MSR_PMON_CTR10'', 0xE35), (''R_MSR_PMON_CTL11'', 0xE36),
     (''R_MSR_PMON_CTR11'', 0xE37), (''R_MSR_PMON_CTL12'', 0xE38), (''R_MSR_PMON_CTR12'', 0xE39),
     (''R_MSR_PMON_CTL13'', 0xE3A), (''R_MSR_PMON_CTR13'', 0xE3B), (''R_MSR_PMON_CTL14'', 0xE3C),
     (''R_MSR_PMON_CTR14'', 0xE3D), (''R_MSR_PMON_CTL15'', 0xE3E), (''R_MSR_PMON_CTR15'', 0xE3F),
     (''R_MSR_PORT0_IPERF_CFG0'', 0xE04), (''R_MSR_PORT1_IPERF_CFG0'', 0xE05),
     (''R_MSR_PORT2_IPERF_CFG0'', 0xE06), (''R_MSR_PORT3_IPERF_CFG0'', 0xE07),
     (''R_MSR_PORT4_IPERF_CFG0'', 0xE08), (''R_MSR_PORT5_IPERF_CFG0'', 0xE09),
     (''R_MSR_PORT6_IPERF_CFG0'', 0xE0A), (''R_MSR_PORT7_IPERF_CFG0'', 0xE0B),
     (''R_MSR_PORT0_IPERF_CFG1'', 0xE24), (''R_MSR_PORT1_IPERF_CFG1'', 0xE25),
     (''R_MSR_PORT2_IPERF_CFG1'', 0xE26), (''R_MSR_PORT3_IPERF_CFG1'', 0xE27),
     (''R_MSR_PORT4_IPERF_CFG1'', 0xE28), (''R_MSR_PORT5_IPERF_CFG1'', 0xE29),
     (''R_MSR_PORT6_IPERF_CFG1'', 0xE2A), (''R_MSR_PORT7_IPERF_CFG1'', 0xE2B),
     (''R_MSR_PMON_GLOBAL_CTL_7_0'', 0xE00), (''R_MSR_PMON_GLOBAL_CTL_15_8'', 0xE20),
     (''W_MSR_PMON_GLOBAL_CTL'', 0xC80), (''W_MSR_PMON_FIXED_CTR_CTL'', 0x395),
     (''W_MSR_PMON_FIXED_CTR'', 0x394)]"

definition qm_msrs :: registers where
  "qm_msrs =
    [(''IA32_PQR_ASSOC'', 0xC8F), (''IA32_QM_EVTSEL'', 0xC8D), (''IA32_QM_CTR'', 0xC8E)]"

definition energy_msrs :: registers where
  "energy_msrs =
    [(''MSR_PKG_ENERGY_STATUS'', 0x611), (''MSR_RAPL_POWER_UNIT'', 0x606),
     (''MSR_PKG_POWER_INFO'', 0x614)]"

definition status_msrs :: registers where
  "status_msrs =
    [(''MSR_PACKAGE_THERM_STATUS'', 0x1B1), (''MSR_IA32_THERM_STATUS'', 0x19C),
     (''MSR_DRAM_ENERGY_STATUS'', 0x619), (''MSR_PKG_C2_RESIDENCY'', 0x60D),
     (''MSR_PKG_C3_RESIDENCY'', 0x3F8), (''MSR_PKG_C6_RESIDENCY'', 0x3F9),
     (''MSR_PKG_C7_RESIDENCY'', 0x3FA), (''MSR_CORE_C3_RESIDENCY'', 0x3FC),
     (''MSR_CORE_C6_RESIDENCY'', 0x3FD), (''MSR_CORE_C7_RESIDENCY'', 0x3FE)]"

definition jktivt_pcu_msrs :: registers where
  "jktivt_pcu_msrs =
    [(''JKTIVT_PCU_MSR_PMON_CTR3_ADDR'', 0xC39), (''JKTIVT_PCU_MSR_PMON_CTR2_ADDR'', 0xC38),
     (''JKTIVT_PCU_MSR_PMON_CTR1_ADDR'', 0xC37), (''JKTIVT_PCU_MSR_PMON_CTR0_ADDR'', 0xC36),
     (''JKTIVT_PCU_MSR_PMON_BOX_FILTER_ADDR'', 0xC34), (''JKTIVT_PCU_MSR_PMON_CTL3_ADDR'', 0xC33),
     (''JKTIVT_PCU_MSR_PMON_CTL2_ADDR'', 0xC32), (''JKTIVT_PCU_MSR_PMON_CTL1_ADDR'', 0xC31),
     (''JKTIVT_PCU_MSR_PMON_CTL0_ADDR'', 0xC30), (''JKTIVT_PCU_MSR_PMON_BOX_CTL_ADDR'', 0xC24)]"

definition hsx_pcu_msrs :: registers where
  "hsx_pcu_msrs =
    [(''HSX_PCU_MSR_PMON_CTR3_ADDR'', 0x71A), (''HSX_PCU_MSR_PMON_CTR2_ADDR'', 0x719),
     (''HSX_PCU_MSR_PMON_CTR1_ADDR'', 0x718), (''HSX_PCU_MSR_PMON_CTR0_ADDR'', 0x717),
     (''HSX_PCU_MSR_PMON_BOX_FILTER_ADDR'', 0x715), (''HSX_PCU_MSR_PMON_CTL3_ADDR'', 0x714),
     (''HSX_PCU_MSR_PMON_CTL2_ADDR'', 0x713), (''HSX_PCU_MSR_PMON_CTL1_ADDR'', 0x712),
     (''HSX_PCU_MSR_PMON_CTL0_ADDR'', 0x711), (''HSX_PCU_MSR_PMON_BOX_CTL_ADDR'', 0x710)]"

text \<open>The registers of CBo 0, and the distance between the boxes.\<close>

definition jktivt_cbo_msrs :: registers where
  "jktivt_cbo_msrs =
    [(''JKT_C0_MSR_PMON_CTR3'', 0xD19), (''JKT_C0_MSR_PMON_CTR2'', 0xD18),
     (''JKT_C0_MSR_PMON_CTR1'', 0xD17), (''JKT_C0_MSR_PMON_CTR0'', 0xD16),
     (''JKT_C0_MSR_PMON_BOX_FILTER'', 0xD14), (''JKT_C0_MSR_PMON_CTL3'', 0xD13),
     (''JKT_C0_MSR_PMON_CTL2'', 0xD12), (''JKT_C0_MSR_PMON_CTL1'', 0xD11),
     (''JKT_C0_MSR_PMON_CTL0'', 0xD10), (''JKT_C0_MSR_PMON_BOX_CTL'', 0xD04),
     (''IVT_C0_MSR_PMON_BOX_FILTER1'', 0xD1A)]"

definition hsx_cbo_msrs :: registers where
  "hsx_cbo_msrs =
    [(''HSX_C0_MSR_PMON_CTR3'', 0xE0B), (''HSX_C0_MSR_PMON_CTR2'', 0xE0A),
     (''HSX_C0_MSR_PMON_CTR1'', 0xE09), (''HSX_C0_MSR_PMON_CTR0'', 0xE08),
     (''HSX_C0_MSR_PMON_BOX_FILTER1'', 0xE06), (''HSX_C0_MSR_PMON_BOX_FILTER'', 0xE05),
     (''HSX_C0_MSR_PMON_CTL3'', 0xE04), (''HSX_C0_MSR_PMON_CTL2'', 0xE03),
     (''HSX_C0_MSR_PMON_CTL1'', 0xE02), (''HSX_C0_MSR_PMON_CTL0'', 0xE01),
     (''HSX_C0_MSR_PMON_BOX_STATUS'', 0xE07), (''HSX_C0_MSR_PMON_BOX_CTL'', 0xE00)]"

definition JKTIVT_CBO_MSR_STEP :: nat where "JKTIVT_CBO_MSR_STEP = 0x20"
definition HSX_CBO_MSR_STEP :: nat where "HSX_CBO_MSR_STEP = 0x10"

text \<open>PCI device and function of the memory channels and QPI ports, and the offsets of their registers.\<close>

definition jktivt_mc_channels :: "(string \<times> nat \<times> nat) list" where
  "jktivt_mc_channels =
    [(''JKTIVT_MC0_CH0'', (16, 4)), (''JKTIVT_MC0_CH1'', (16, 5)), (''JKTIVT_MC0_CH2'', (16, 0)),
     (''JKTIVT_MC0_CH3'', (16, 1)), (''JKTIVT_MC1_CH0'', (30, 4)), (''JKTIVT_MC1_CH1'', (30, 5)),
     (''JKTIVT_MC1_CH2'', (30, 0)), (''JKTIVT_MC1_CH3'', (30, 1))]"

definition hsx_mc_channels :: "(string \<times> nat \<times> nat) list" where
  "hsx_mc_channels =
    [(''HSX_MC0_CH0'', (20, 0)), (''HSX_MC0_CH1'', (20, 1)), (''HSX_MC0_CH2'', (21, 0)),
     (''HSX_MC0_CH3'', (21, 1)), (''HSX_MC1_CH0'', (23, 0)), (''HSX_MC1_CH1'', (23, 1)),
     (''HSX_MC1_CH2'', (24, 0)), (''HSX_MC1_CH3'', (24, 1))]"

definition jktivt_qpi_ports :: "(string \<times> nat \<times> nat) list" where
  "jktivt_qpi_ports =
    [(''JKTIVT_QPI_PORT0'', (8, 2)), (''JKTIVT_QPI_PORT1'', (9, 2)), (''JKTIVT_QPI_PORT2'', (24, 2))]"

definition hsx_qpi_ports :: "(string \<times> nat \<times> nat) list" where
  "hsx_qpi_ports =
    [(''HSX_QPI_PORT0'', (8, 2)), (''HSX_QPI_PORT1'', (9, 2)), (''HSX_QPI_PORT2'', (10, 2))]"

definition mc_ch_regs :: registers where
  "mc_ch_regs =
    [(''MC_CH_PCI_PMON_BOX_CTL_ADDR'', 0xF4), (''MC_CH_PCI_PMON_FIXED_CTL_ADDR'', 0xF0),
     (''MC_CH_PCI_PMON_CTL3_ADDR'', 0xE4), (''MC_CH_PCI_PMON_CTL2_ADDR'', 0xE0),
     (''MC_CH_PCI_PMON_CTL1_ADDR'', 0xDC), (''MC_CH_PCI_PMON_CTL0_ADDR'', 0xD8),
     (''MC_CH_PCI_PMON_FIXED_CTR_ADDR'', 0xD0), (''MC_CH_PCI_PMON_CTR3_ADDR'', 0xB8),
     (''MC_CH_PCI_PMON_CTR2_ADDR'', 0xB0), (''MC_CH_PCI_PMON_CTR1_ADDR'', 0xA8),
     (''MC_CH_PCI_PMON_CTR0_ADDR'', 0xA0)]"

definition q_p_regs :: registers where
  "q_p_regs =
    [(''Q_P_PCI_PMON_BOX_CTL_ADDR'', 0xF4), (''Q_P_PCI_PMON_CTL3_ADDR'', 0xE4),
     (''Q_P_PCI_PMON_CTL2_ADDR'', 0xE0), (''Q_P_PCI_PMON_CTL1_ADDR'', 0xDC),
     (''Q_P_PCI_PMON_CTL0_ADDR'', 0xD8), (''Q_P_PCI_PMON_CTR3_ADDR'', 0xB8),
     (''Q_P_PCI_PMON_CTR2_ADDR'', 0xB0), (''Q_P_PCI_PMON_CTR1_ADDR'', 0xA8),
     (''Q_P_PCI_PMON_CTR0_ADDR'', 0xA0)]"

section \<open>Control words\<close>

text \<open>The macros shift a 32-bit value; flags are single bits.\<close>

definition MC_CH_PCI_PMON_CTL_EVENT :: "u32 \<Rightarrow> u32" where "MC_CH_PCI_PMON_CTL_EVENT x = push_bit 0 x"
definition MC_CH_PCI_PMON_CTL_UMASK :: "u32 \<Rightarrow> u32" where "MC_CH_PCI_PMON_CTL_UMASK x = push_bit 8 x"
definition MC_CH_PCI_PMON_CTL_RST :: u32 where "MC_CH_PCI_PMON_CTL_RST = push_bit 17 1"
definition MC_CH_PCI_PMON_CTL_EDGE_DET :: u32 where "MC_CH_PCI_PMON_CTL_EDGE_DET = push_bit 18 1"
definition MC_CH_PCI_PMON_CTL_EN :: u32 where "MC_CH_PCI_PMON_CTL_EN = push_bit 22 1"
definition MC_CH_PCI_PMON_CTL_INVERT :: u32 where "MC_CH_PCI_PMON_CTL_INVERT = push_bit 23 1"
definition MC_CH_PCI_PMON_CTL_THRESH :: "u32 \<Rightarrow> u32" where "MC_CH_PCI_PMON_CTL_THRESH x = push_bit 24 x"

definition Q_P_PCI_PMON_CTL_EVENT :: "u32 \<Rightarrow> u32" where "Q_P_PCI_PMON_CTL_EVENT x = push_bit 0 x"
definition Q_P_PCI_PMON_CTL_UMASK :: "u32 \<Rightarrow> u32" where "Q_P_PCI_PMON_CTL_UMASK x = push_bit 8 x"
definition Q_P_PCI_PMON_CTL_RST :: u32 where "Q_P_PCI_PMON_CTL_RST = push_bit 17 1"
definition Q_P_PCI_PMON_CTL_EDGE_DET :: u32 where "Q_P_PCI_PMON_CTL_EDGE_DET = push_bit 18 1"
definition Q_P_PCI_PMON_CTL_EVENT_EXT :: u32 where "Q_P_PCI_PMON_CTL_EVENT_EXT = push_bit 21 1"
definition Q_P_PCI_PMON_CTL_EN :: u32 where "Q_P_PCI_PMON_CTL_EN = push_bit 22 1"
definition Q_P_PCI_PMON_CTL_INVERT :: u32 where "Q_P_PCI_PMON_CTL_INVERT = push_bit 23 1"
definition Q_P_PCI_PMON_CTL_THRESH :: "u32 \<Rightarrow> u32" where "Q_P_PCI_PMON_CTL_THRESH x = push_bit 24 x"

definition PCU_MSR_PMON_CTL_EVENT :: "u32 \<Rightarrow> u32" where "PCU_MSR_PMON_CTL_EVENT x = push_bit 0 x"
definition PCU_MSR_PMON_CTL_OCC_SEL :: "u32 \<Rightarrow> u32" where "PCU_MSR_PMON_CTL_OCC_SEL x = push_bit 14 x"
definition PCU_MSR_PMON_CTL_RST :: u32 where "PCU_MSR_PMON_CTL_RST = push_bit 17 1"
definition PCU_MSR_PMON_CTL_EDGE_DET :: u32 where "PCU_MSR_PMON_CTL_EDGE_DET = push_bit 18 1"
definition PCU_MSR_PMON_CTL_EXTRA_SEL :: u32 where "PCU_MSR_PMON_CTL_EXTRA_SEL = push_bit 21 1"
definition PCU_MSR_PMON_CTL_EN :: u32 where "PCU_MSR_PMON_CTL_EN = push_bit 22 1"
definition PCU_MSR_PMON_CTL_INVERT :: u32 where "PCU_MSR_PMON_CTL_INVERT = push_bit 23 1"
definition PCU_MSR_PMON_CTL_THRESH :: "u32 \<Rightarrow> u32" where "PCU_MSR_PMON_CTL_THRESH x = push_bit 24 x"
definition PCU_MSR_PMON_CTL_OCC_INVERT :: u32 where "PCU_MSR_PMON_CTL_OCC_INVERT = push_bit 30 1"
definition PCU_MSR_PMON_CTL_OCC_EDGE_DET :: u32 where "PCU_MSR_PMON_CTL_OCC_EDGE_DET = push_bit 31 1"

definition CBO_MSR_PMON_CTL_EVENT :: "u32 \<Rightarrow> u32" where "CBO_MSR_PMON_CTL_EVENT x = push_bit 0 x"
definition CBO_MSR_PMON_CTL_UMASK :: "u32 \<Rightarrow> u32" where "CBO_MSR_PMON_CTL_UMASK x = push_bit 8 x"
definition CBO_MSR_PMON_CTL_RST :: u32 where "CBO_MSR_PMON_CTL_RST = push_bit 17 1"
definition CBO_MSR_PMON_CTL_EDGE_DET :: u32 where "CBO_MSR_PMON_CTL_EDGE_DET = push_bit 18 1"
definition CBO_MSR_PMON_CTL_TID_EN :: u32 where "CBO_MSR_PMON_CTL_TID_EN = push_bit 19 1"
definition CBO_MSR_PMON_CTL_EN :: u32 where "CBO_MSR_PMON_CTL_EN = push_bit 22 1"
definition CBO_MSR_PMON_CTL_INVERT :: u32 where "CBO_MSR_PMON_CTL_INVERT = push_bit 23 1"
definition CBO_MSR_PMON_CTL_THRESH :: "u32 \<Rightarrow> u32" where "CBO_MSR_PMON_CTL_THRESH x = push_bit 24 x"

text \<open>Box control: reset, freeze and enable bits, and the mask of the bits a box has.\<close>

definition MC_CH_PCI_PMON_BOX_CTL_RST_CONTROL :: u32 where "MC_CH_PCI_PMON_BOX_CTL_RST_CONTROL = push_bit 0 1"
definition MC_CH_PCI_PMON_BOX_CTL_RST_COUNTERS :: u32 where "MC_CH_PCI_PMON_BOX_CTL_RST_COUNTERS = push_bit 1 1"
definition MC_CH_PCI_PMON_BOX_CTL_FRZ :: u32 where "MC_CH_PCI_PMON_BOX_CTL_FRZ = push_bit 8 1"
definition MC_CH_PCI_PMON_BOX_CTL_FRZ_EN :: u32 where "MC_CH_PCI_PMON_BOX_CTL_FRZ_EN = push_bit 16 1"

definition Q_P_PCI_PMON_BOX_CTL_RST_CONTROL :: u32 where "Q_P_PCI_PMON_BOX_CTL_RST_CONTROL = push_bit 0 1"
definition Q_P_PCI_PMON_BOX_CTL_RST_COUNTERS :: u32 where "Q_P_PCI_PMON_BOX_CTL_RST_COUNTERS = push_bit 1 1"
definition Q_P_PCI_PMON_BOX_CTL_RST_FRZ :: u32 where "Q_P_PCI_PMON_BOX_CTL_RST_FRZ = push_bit 8 1"
definition Q_P_PCI_PMON_BOX_CTL_RST_FRZ_EN :: u32 where "Q_P_PCI_PMON_BOX_CTL_RST_FRZ_EN = push_bit 16 1"

definition PCU_MSR_PMON_BOX_CTL_RST_CONTROL :: u32 where "PCU_MSR_PMON_BOX_CTL_RST_CONTROL = push_bit 0 1"
definition PCU_MSR_PMON_BOX_CTL_RST_COUNTERS :: u32 where "PCU_MSR_PMON_BOX_CTL_RST_COUNTERS = push_bit 1 1"
definition PCU_MSR_PMON_BOX_CTL_FRZ :: u32 where "PCU_MSR_PMON_BOX_CTL_FRZ = push_bit 8 1"
definition PCU_MSR_PMON_BOX_CTL_FRZ_EN :: u32 where "PCU_MSR_PMON_BOX_CTL_FRZ_EN = push_bit 16 1"

definition CBO_MSR_PMON_BOX_CTL_RST_CONTROL :: u32 where "CBO_MSR_PMON_BOX_CTL_RST_CONTROL = push_bit 0 1"
definition CBO_MSR_PMON_BOX_CTL_RST_COUNTERS :: u32 where "CBO_MSR_PMON_BOX_CTL_RST_COUNTERS = push_bit 1 1"
definition CBO_MSR_PMON_BOX_CTL_FRZ :: u32 where "CBO_MSR_PMON_BOX_CTL_FRZ = push_bit 8 1"
definition CBO_MSR_PMON_BOX_CTL_FRZ_EN :: u32 where "CBO_MSR_PMON_BOX_CTL_FRZ_EN = push_bit 16 1"

definition UNCORE_PMON_BOX_CTL_VALID_BITS_MASK :: u32 where
  "UNCORE_PMON_BOX_CTL_VALID_BITS_MASK = push_bit 17 1 - 1"

text \<open>The four bands of the frequency filter.\<close>

definition PCU_MSR_PMON_BOX_FILTER_BAND_0 :: "u32 \<Rightarrow> u32" where "PCU_MSR_PMON_BOX_FILTER_BAND_0 x = push_bit 0 x"
definition PCU_MSR_PMON_BOX_FILTER_BAND_1 :: "u32 \<Rightarrow> u32" where "PCU_MSR_PMON_BOX_FILTER_BAND_1 x = push_bit 8 x"
definition PCU_MSR_PMON_BOX_FILTER_BAND_2 :: "u32 \<Rightarrow> u32" where "PCU_MSR_PMON_BOX_FILTER_BAND_2 x = push_bit 16 x"
definition PCU_MSR_PMON_BOX_FILTER_BAND_3 :: "u32 \<Rightarrow> u32" where "PCU_MSR_PMON_BOX_FILTER_BAND_3 x = push_bit 24 x"

section \<open>No two registers have the same address\<close>

text \<open>The registers of \<open>n\<close> boxes, each \<open>dist\<close> addresses after the one before.\<close>

fun boxes :: "registers \<Rightarrow> nat \<Rightarrow> nat \<Rightarrow> nat list" where
  "boxes regs dist 0 = []"
| "boxes regs dist (Suc n) = boxes regs dist n @ map (\<lambda>(_, a). a + dist * n) regs"

definition jktivt_msrs :: "nat \<Rightarrow> nat list" where
  "jktivt_msrs n = map snd (core_msrs @ energy_msrs @ status_msrs @ jktivt_pcu_msrs) @
     boxes jktivt_cbo_msrs JKTIVT_CBO_MSR_STEP n"

definition hsx_msrs :: "nat \<Rightarrow> nat list" where
  "hsx_msrs n = map snd (core_msrs @ energy_msrs @ status_msrs @ qm_msrs @ hsx_pcu_msrs) @
     boxes hsx_cbo_msrs HSX_CBO_MSR_STEP n"

text \<open>A box whose registers lie within the distance of the boxes.\<close>

locale box_registers =
  fixes regs :: registers and base dist :: nat
  assumes within: "(r, a) \<in> set regs \<Longrightarrow> base \<le> a \<and> a < base + dist"
    and different: "distinct (map snd regs)"
begin

lemma boxes_bounds: "a \<in> set (boxes regs dist n) \<Longrightarrow> base \<le> a \<and> a < base + dist * n"
proof (induction n)
  case (Suc n)
  then show ?case using within by (fastforce simp: algebra_simps)
qed simp

lemma distinct_boxes: "distinct (boxes regs dist n)"
proof (induction n)
  case (Suc n)
  have "map (\<lambda>(_, a). a + dist * n) regs = map (\<lambda>a. a + dist * n) (map snd regs)"
    by auto
  then have "distinct (map (\<lambda>(_, a). a + dist * n) regs)"
    using different by (simp add: distinct_map inj_on_def)
  moreover have "set (boxes regs dist n) \<inter> set (map (\<lambda>(_, a). a + dist * n) regs) = {}"
    using boxes_bounds [of _ n] within by fastforce
  ultimately show ?case
    using Suc by simp
qed simp

lemma distinct_with_boxes:
  assumes "distinct xs" "\<forall>x \<in> set xs. x < base"
  shows "distinct (xs @ boxes regs dist n)"
  using assms distinct_boxes [of n] boxes_bounds [of _ n] by fastforce

end

interpretation jktivt_cbo: box_registers jktivt_cbo_msrs "0xD00" JKTIVT_CBO_MSR_STEP
  by unfold_locales (auto simp: jktivt_cbo_msrs_def JKTIVT_CBO_MSR_STEP_def)

interpretation hsx_cbo: box_registers hsx_cbo_msrs "0xE00" HSX_CBO_MSR_STEP
  by unfold_locales (auto simp: hsx_cbo_msrs_def HSX_CBO_MSR_STEP_def)

lemmas msr_defs = core_msrs_def energy_msrs_def status_msrs_def qm_msrs_def jktivt_pcu_msrs_def hsx_pcu_msrs_def

lemma jktivt_distinct: "distinct (jktivt_msrs n)"
  unfolding jktivt_msrs_def by (rule jktivt_cbo.distinct_with_boxes) (simp_all add: msr_defs)

lemma hsx_distinct: "distinct (hsx_msrs n)"
  unfolding hsx_msrs_def by (rule hsx_cbo.distinct_with_boxes) (simp_all add: msr_defs)

lemma nehalem_distinct: "distinct (map snd (core_msrs @ nehalem_uncore_msrs))"
  by (simp add: core_msrs_def nehalem_uncore_msrs_def)

lemma beckton_distinct: "distinct (map snd (core_msrs @ beckton_msrs))"
  by (simp add: core_msrs_def beckton_msrs_def)

lemma pci_distinct:
  "distinct (map snd (jktivt_mc_channels @ jktivt_qpi_ports))" "distinct (map snd (hsx_mc_channels @ hsx_qpi_ports))"
  "distinct (map snd mc_ch_regs)" "distinct (map snd q_p_regs)"
  by (simp_all add: jktivt_mc_channels_def jktivt_qpi_ports_def hsx_mc_channels_def hsx_qpi_ports_def
      mc_ch_regs_def q_p_regs_def)

text \<open>
  On every processor family the performance registers have different addresses: the model specific
  registers of Nehalem, Beckton, and of Jaketown, Ivytown and Haswell servers with any number of
  cache boxes, the PCI functions of their memory channels and QPI ports, and the registers within
  one such function.
\<close>

lemma register_addresses_distinct:
  "distinct (map snd (core_msrs @ nehalem_uncore_msrs)) \<and> distinct (map snd (core_msrs @ beckton_msrs)) \<and>
   (\<forall>n. distinct (jktivt_msrs n)) \<and> (\<forall>n. distinct (hsx_msrs n)) \<and>
   distinct (map snd (jktivt_mc_channels @ jktivt_qpi_ports)) \<and> distinct (map snd (hsx_mc_channels @ hsx_qpi_ports)) \<and>
   distinct (map snd mc_ch_regs) \<and> distinct (map snd q_p_regs)"
  using nehalem_distinct beckton_distinct jktivt_distinct hsx_distinct pci_distinct by blast

section \<open>The control word of a counter\<close>

lemmas control_word_macros =
  MC_CH_PCI_PMON_CTL_EVENT_def
  MC_CH_PCI_PMON_CTL_UMASK_def
  MC_CH_PCI_PMON_CTL_RST_def
  MC_CH_PCI_PMON_CTL_EDGE_DET_def
  MC_CH_PCI_PMON_CTL_EN_def
  MC_CH_PCI_PMON_CTL_INVERT_def
  MC_CH_PCI_PMON_CTL_THRESH_def
  Q_P_PCI_PMON_CTL_EVENT_def
  Q_P_PCI_PMON_CTL_UMASK_def
  Q_P_PCI_PMON_CTL_RST_def
  Q_P_PCI_PMON_CTL_EDGE_DET_def
  Q_P_PCI_PMON_CTL_EVENT_EXT_def
  Q_P_PCI_PMON_CTL_EN_def
  Q_P_PCI_PMON_CTL_INVERT_def
  Q_P_PCI_PMON_CTL_THRESH_def
  CBO_MSR_PMON_CTL_EVENT_def
  CBO_MSR_PMON_CTL_UMASK_def
  CBO_MSR_PMON_CTL_RST_def
  CBO_MSR_PMON_CTL_EDGE_DET_def
  CBO_MSR_PMON_CTL_TID_EN_def
  CBO_MSR_PMON_CTL_EN_def
  CBO_MSR_PMON_CTL_INVERT_def
  CBO_MSR_PMON_CTL_THRESH_def

definition flag :: "bool \<Rightarrow> u32 \<Rightarrow> u32" where
  "flag b x = (if b then x else 0)"

text \<open>The words the macros of the memory channels, the QPI ports and the cache boxes build.\<close>

definition control_words :: "u32 \<Rightarrow> u32 \<Rightarrow> bool \<Rightarrow> bool \<Rightarrow> bool \<Rightarrow> bool \<Rightarrow> u32 \<Rightarrow> u32 list" where
  "control_words e u rst edge en invert t =
     [MC_CH_PCI_PMON_CTL_EVENT e OR MC_CH_PCI_PMON_CTL_UMASK u OR flag rst MC_CH_PCI_PMON_CTL_RST OR
        flag edge MC_CH_PCI_PMON_CTL_EDGE_DET OR flag en MC_CH_PCI_PMON_CTL_EN OR
        flag invert MC_CH_PCI_PMON_CTL_INVERT OR MC_CH_PCI_PMON_CTL_THRESH t,
      Q_P_PCI_PMON_CTL_EVENT e OR Q_P_PCI_PMON_CTL_UMASK u OR flag rst Q_P_PCI_PMON_CTL_RST OR
        flag edge Q_P_PCI_PMON_CTL_EDGE_DET OR flag en Q_P_PCI_PMON_CTL_EN OR
        flag invert Q_P_PCI_PMON_CTL_INVERT OR Q_P_PCI_PMON_CTL_THRESH t,
      CBO_MSR_PMON_CTL_EVENT e OR CBO_MSR_PMON_CTL_UMASK u OR flag rst CBO_MSR_PMON_CTL_RST OR
        flag edge CBO_MSR_PMON_CTL_EDGE_DET OR flag en CBO_MSR_PMON_CTL_EN OR
        flag invert CBO_MSR_PMON_CTL_INVERT OR CBO_MSR_PMON_CTL_THRESH t]"

definition shifted_word :: "u32 \<Rightarrow> u32 \<Rightarrow> bool \<Rightarrow> bool \<Rightarrow> bool \<Rightarrow> bool \<Rightarrow> u32 \<Rightarrow> u32" where
  "shifted_word e u rst edge en invert t = e OR push_bit 8 u OR flag rst (push_bit 17 1) OR flag edge (push_bit 18 1) OR
     flag en (push_bit 22 1) OR flag invert (push_bit 23 1) OR push_bit 24 t"

lemma control_words_shifted: "w \<in> set (control_words e u rst edge en invert t) \<Longrightarrow> w = shifted_word e u rst edge en invert t"
  by (auto simp: control_words_def shifted_word_def control_word_macros)

lemma bounded_bits:
  fixes x :: u32
  assumes "x < 2 ^ k" "bit x n"
  shows "n < k"
proof -
  have "take_bit k x = x"
    using less_mask_eq [OF assms(1)] by (simp add: take_bit_eq_mask)
  with assms(2) show ?thesis
    by (metis bit_take_bit_iff)
qed

lemma bit_flag: "bit (flag b (push_bit k 1)) n \<longleftrightarrow> b \<and> n = k \<and> k < 32"
  by (cases b) (auto simp: flag_def bit_exp_iff)

lemma bit_shifted:
  "bit (shifted_word e u rst edge en invert t) n \<longleftrightarrow>
     bit e n \<or> 8 \<le> n \<and> n < 32 \<and> bit u (n - 8) \<or> rst \<and> n = 17 \<or> edge \<and> n = 18 \<or> en \<and> n = 22 \<or> invert \<and> n = 23 \<or>
      24 \<le> n \<and> n < 32 \<and> bit t (n - 24)"
  unfolding shifted_word_def bit_or_iff bit_flag bit_push_bit_iff by auto

lemma get_fieldI:
  assumes "field_at 0 L f = Some (k, n)" "\<And>i. i < 64 \<Longrightarrow> bit x i \<longleftrightarrow> i < n \<and> bit v (k + i)"
  shows "get_field L f v = Some x"
proof -
  have "take_bit n (drop_bit k v) = x"
    by (rule bit_word_eqI) (simp add: bit_simps assms(2) add.commute)
  then show ?thesis
    by (simp add: get_field_def assms(1))
qed

text \<open>
  The control words that the macros for memory channels, QPI ports and cache boxes build have the
  format of \<open>UncoreEventSelectRegister\<close>: event, mask and threshold of at most 8 bits read back
  unchanged, and each flag is the bit of its name.
\<close>

theorem control_word_fields:
  assumes "e < 256" "u < 256" "t < 256" "w \<in> set (control_words e u rst edge en invert t)"
  shows "get_field UncoreEventSelectRegister ''event_select'' (ucast w) = Some (ucast e) \<and>
    get_field UncoreEventSelectRegister ''umask'' (ucast w) = Some (ucast u) \<and>
    get_field UncoreEventSelectRegister ''occ_ctr_rst'' (ucast w) = Some (of_bool rst) \<and>
    get_field UncoreEventSelectRegister ''edge'' (ucast w) = Some (of_bool edge) \<and>
    get_field UncoreEventSelectRegister ''enable'' (ucast w) = Some (of_bool en) \<and>
    get_field UncoreEventSelectRegister ''invert'' (ucast w) = Some (of_bool invert) \<and>
    get_field UncoreEventSelectRegister ''cmask'' (ucast w) = Some (ucast t)"
proof -
  let ?L = UncoreEventSelectRegister
  note w = control_words_shifted [OF assms(4)]
  have small: "bit e n \<Longrightarrow> n < 8" "bit u n \<Longrightarrow> n < 8" "bit t n \<Longrightarrow> n < 8" for n
    using bounded_bits [where k = 8] assms(1-3) by simp_all
  have L: "field_at 0 ?L ''event_select'' = Some (0, 8)" "field_at 0 ?L ''umask'' = Some (8, 8)"
    "field_at 0 ?L ''occ_ctr_rst'' = Some (17, 1)" "field_at 0 ?L ''edge'' = Some (18, 1)"
    "field_at 0 ?L ''enable'' = Some (22, 1)" "field_at 0 ?L ''invert'' = Some (23, 1)" "field_at 0 ?L ''cmask'' = Some (24, 8)"
    by (simp_all add: UncoreEventSelectRegister_def)
  show ?thesis
    unfolding w
    by (intro conjI; rule get_fieldI, rule L) (auto simp: bit_unsigned_iff bit_shifted bit_of_bool_iff dest: small)
qed

theorem control_word_fields_witness:
  "get_field UncoreEventSelectRegister ''umask''
     (ucast (CBO_MSR_PMON_CTL_EVENT 0x35 OR CBO_MSR_PMON_CTL_UMASK 3 OR flag True CBO_MSR_PMON_CTL_RST OR
       flag False CBO_MSR_PMON_CTL_EDGE_DET OR flag True CBO_MSR_PMON_CTL_EN OR flag False CBO_MSR_PMON_CTL_INVERT OR
       CBO_MSR_PMON_CTL_THRESH 1)) = Some 3"
proof -
  let ?w = "CBO_MSR_PMON_CTL_EVENT 0x35 OR CBO_MSR_PMON_CTL_UMASK 3 OR flag True CBO_MSR_PMON_CTL_RST OR
       flag False CBO_MSR_PMON_CTL_EDGE_DET OR flag True CBO_MSR_PMON_CTL_EN OR flag False CBO_MSR_PMON_CTL_INVERT OR
       CBO_MSR_PMON_CTL_THRESH 1"
  have hyps: "(0x35 :: u32) < 256" "(3 :: u32) < 256" "(1 :: u32) < 256"
    "?w \<in> set (control_words 0x35 3 True False True False 1)"
    by (simp_all add: control_words_def)
  from control_word_fields [OF hyps] show ?thesis
    by simp
qed

text \<open>The frequency filter holds four bands, the control word of the power control unit its own fields.\<close>

lemma filter_bands:
  assumes "b0 < 2 ^ 8" "b1 < 2 ^ 8" "b2 < 2 ^ 8" "b3 < 2 ^ 8"
  defines "w \<equiv> PCU_MSR_PMON_BOX_FILTER_BAND_0 b0 OR PCU_MSR_PMON_BOX_FILTER_BAND_1 b1 OR
    PCU_MSR_PMON_BOX_FILTER_BAND_2 b2 OR PCU_MSR_PMON_BOX_FILTER_BAND_3 b3"
  shows "take_bit 8 w = b0" "take_bit 8 (drop_bit 8 w) = b1" "take_bit 8 (drop_bit 16 w) = b2" "drop_bit 24 w = b3"
proof -
  have small: "bit b0 n \<Longrightarrow> n < 8" "bit b1 n \<Longrightarrow> n < 8" "bit b2 n \<Longrightarrow> n < 8" "bit b3 n \<Longrightarrow> n < 8" for n
    using bounded_bits [where k = 8] assms(1-4) by simp_all
  have w: "bit w n \<longleftrightarrow> bit b0 n \<or> 8 \<le> n \<and> n < 32 \<and> bit b1 (n - 8) \<or> 16 \<le> n \<and> n < 32 \<and> bit b2 (n - 16) \<or>
      24 \<le> n \<and> n < 32 \<and> bit b3 (n - 24)" for n
    unfolding w_def PCU_MSR_PMON_BOX_FILTER_BAND_0_def PCU_MSR_PMON_BOX_FILTER_BAND_1_def
      PCU_MSR_PMON_BOX_FILTER_BAND_2_def PCU_MSR_PMON_BOX_FILTER_BAND_3_def bit_or_iff bit_push_bit_iff
    by (auto dest: small(1))
  show "take_bit 8 w = b0" "take_bit 8 (drop_bit 8 w) = b1" "take_bit 8 (drop_bit 16 w) = b2" "drop_bit 24 w = b3"
    by (rule bit_word_eqI; auto simp: bit_take_bit_iff bit_drop_bit_eq w dest: small)+
qed

lemma pcu_control_fields:
  fixes i d :: bool
  assumes "e < 2 ^ 8" "s < 2 ^ 2" "t < 2 ^ 5"
  defines "w \<equiv> PCU_MSR_PMON_CTL_EVENT e OR PCU_MSR_PMON_CTL_OCC_SEL s OR PCU_MSR_PMON_CTL_THRESH t OR
    flag i PCU_MSR_PMON_CTL_OCC_INVERT OR flag d PCU_MSR_PMON_CTL_OCC_EDGE_DET"
  shows "take_bit 8 w = e" "take_bit 2 (drop_bit 14 w) = s" "take_bit 5 (drop_bit 24 w) = t"
    "bit w 30 = i" "bit w 31 = d"
proof -
  have small: "bit e n \<Longrightarrow> n < 8" "bit s n \<Longrightarrow> n < 2" "bit t n \<Longrightarrow> n < 5" for n
    using bounded_bits [of e 8] bounded_bits [of s 2] bounded_bits [of t 5] assms(1-3) by simp_all
  have w: "bit w n \<longleftrightarrow> bit e n \<or> 14 \<le> n \<and> n < 32 \<and> bit s (n - 14) \<or> 24 \<le> n \<and> n < 32 \<and> bit t (n - 24) \<or>
      i \<and> n = 30 \<or> d \<and> n = 31" for n
    unfolding w_def PCU_MSR_PMON_CTL_EVENT_def PCU_MSR_PMON_CTL_OCC_SEL_def PCU_MSR_PMON_CTL_THRESH_def
      PCU_MSR_PMON_CTL_OCC_INVERT_def PCU_MSR_PMON_CTL_OCC_EDGE_DET_def bit_or_iff bit_flag bit_push_bit_iff
    by (auto dest: small(1))
  show "take_bit 8 w = e" "take_bit 2 (drop_bit 14 w) = s" "take_bit 5 (drop_bit 24 w) = t"
    by (rule bit_word_eqI; auto simp: bit_take_bit_iff bit_drop_bit_eq w dest: small)+
  show "bit w 30 = i" "bit w 31 = d"
    by (auto simp: w dest: small)
qed

text \<open>The control bits of a box are among its valid bits.\<close>

lemmas box_control_macros =
  MC_CH_PCI_PMON_BOX_CTL_RST_CONTROL_def
  MC_CH_PCI_PMON_BOX_CTL_RST_COUNTERS_def
  MC_CH_PCI_PMON_BOX_CTL_FRZ_def
  MC_CH_PCI_PMON_BOX_CTL_FRZ_EN_def
  Q_P_PCI_PMON_BOX_CTL_RST_CONTROL_def
  Q_P_PCI_PMON_BOX_CTL_RST_COUNTERS_def
  Q_P_PCI_PMON_BOX_CTL_RST_FRZ_def
  Q_P_PCI_PMON_BOX_CTL_RST_FRZ_EN_def
  PCU_MSR_PMON_BOX_CTL_RST_CONTROL_def
  PCU_MSR_PMON_BOX_CTL_RST_COUNTERS_def
  PCU_MSR_PMON_BOX_CTL_FRZ_def
  PCU_MSR_PMON_BOX_CTL_FRZ_EN_def
  CBO_MSR_PMON_BOX_CTL_RST_CONTROL_def
  CBO_MSR_PMON_BOX_CTL_RST_COUNTERS_def
  CBO_MSR_PMON_BOX_CTL_FRZ_def
  CBO_MSR_PMON_BOX_CTL_FRZ_EN_def
  UNCORE_PMON_BOX_CTL_VALID_BITS_MASK_def

lemma box_control_valid:
  "x \<in> {MC_CH_PCI_PMON_BOX_CTL_RST_CONTROL, MC_CH_PCI_PMON_BOX_CTL_RST_COUNTERS, MC_CH_PCI_PMON_BOX_CTL_FRZ,
      MC_CH_PCI_PMON_BOX_CTL_FRZ_EN, Q_P_PCI_PMON_BOX_CTL_RST_CONTROL, Q_P_PCI_PMON_BOX_CTL_RST_COUNTERS,
      Q_P_PCI_PMON_BOX_CTL_RST_FRZ, Q_P_PCI_PMON_BOX_CTL_RST_FRZ_EN, PCU_MSR_PMON_BOX_CTL_RST_CONTROL,
      PCU_MSR_PMON_BOX_CTL_RST_COUNTERS, PCU_MSR_PMON_BOX_CTL_FRZ, PCU_MSR_PMON_BOX_CTL_FRZ_EN,
      CBO_MSR_PMON_BOX_CTL_RST_CONTROL, CBO_MSR_PMON_BOX_CTL_RST_COUNTERS, CBO_MSR_PMON_BOX_CTL_FRZ,
      CBO_MSR_PMON_BOX_CTL_FRZ_EN} \<Longrightarrow> x AND UNCORE_PMON_BOX_CTL_VALID_BITS_MASK = x"
  by (auto simp: box_control_macros)

end
