(* ===== verification/Pcm_Report.thy ===== *)
theory Pcm_Report
  imports Double_Rounding Pcm_Model Pcm_Registers C_Numbers
begin

text \<open>
  What the headers of the PCM library print: the QPI speeds (src/pcm/cpucounters.h) and the ACPI MCFG
  table (src/pcm/types.h); \<open>null_stream\<close> (src/pcm/utils.h); the memory-mapped counters of
  src/pcm/client_bw.h and the constants of src/pcm/types.h that stand alone.
\<close>

section \<open>reportQPISpeed\<close>

text \<open>
  \<open>std::fixed\<close> with one digit: the C library rounds the exact value of the double to tenths, ties to even.
\<close>

definition tenths :: "real \<Rightarrow> int" where
  "tenths x = nearest_even (10 * x)"

definition fixed1 :: "real \<Rightarrow> string" where
  "fixed1 x = (let n = nat (tenths x) in decimal (n div 10) @ ''.'' @ decimal (n mod 10))"

text \<open>\<open>speed / 1e9\<close>; the integer is converted to \<open>double\<close> first.\<close>

definition giga :: "rounding \<Rightarrow> u64 \<Rightarrow> real \<Rightarrow> real" where
  "giga rnd speed divisor = rnd (rnd (u64_real speed) / divisor)"

definition qpi_line :: "rounding \<Rightarrow> nat \<Rightarrow> u64 \<Rightarrow> string" where
  "qpi_line rnd i speed = ''Max QPI link '' @ decimal i @ '' speed: '' @ fixed1 (giga rnd speed 1000000000) @
     '' GBytes/second ('' @ fixed1 (giga rnd speed 2000000000) @ '' GT/second)'' @ [CHR 0x0A]"

definition reportQPISpeed :: "rounding \<Rightarrow> ServerPCICFGUncore \<Rightarrow> string" where
  "reportQPISpeed rnd u = concat (map (\<lambda>i. qpi_line rnd i (qpi_speed u ! i)) [0..<length (qpi_speed u)])"

lemma giga_error:
  assumes "1000000000 \<le> d"
  shows "\<bar>giga double_round s d - u64_real s / d\<bar> \<le> 1 / 20000"
proof -
  let ?x = "u64_real s" and ?y = "double_round (u64_real s)"
  have "unat s < 2 ^ 64"
    using unsigned_less [of s, where ?'a = nat] by simp
  then have "real (unat s) < real (2 ^ 64)"
    by (simp only: of_nat_less_iff)
  then have x: "0 \<le> ?x" "?x < 2 ^ 64"
    by (simp_all add: u64_real_def del: of_nat_unat)
  have y: "\<bar>?y - ?x\<bar> \<le> 2048"
    using double_round_error [of ?x] x by simp
  have "\<bar>?y\<bar> \<le> 2 ^ 64 + 2048"
    using x y by linarith
  then have "\<bar>?y / d\<bar> \<le> (2 ^ 64 + 2048) / 1000000000"
    unfolding abs_divide using assms by (intro frac_le) auto
  then have "\<bar>?y / d\<bar> / 2 ^ 53 \<le> (2 ^ 64 + 2048) / 1000000000 / 2 ^ 53"
    by (rule divide_right_mono) simp
  also have "\<dots> \<le> 1 / 40000"
    by simp
  finally have "\<bar>double_round (?y / d) - ?y / d\<bar> \<le> 1 / 40000"
    using double_round_error [of "?y / d"] by (rule order_trans [rotated])
  moreover have "\<bar>?y / d - ?x / d\<bar> = \<bar>?y - ?x\<bar> / d"
    using assms by (simp flip: diff_divide_distrib)
  then have "\<bar>?y / d - ?x / d\<bar> \<le> 2048 / 1000000000"
    using y assms by (simp only:) (intro frac_le; simp)
  ultimately show ?thesis
    unfolding giga_def by linarith
qed

text \<open>
  Each number printed is the nearest tenth of the exact speed, but for a thousandth of a tenth.
\<close>

lemma reported_speed:
  assumes "1000000000 \<le> d"
  shows "\<bar>of_int (tenths (giga double_round s d)) - 10 * (u64_real s / d)\<bar> \<le> 501 / 1000"
  using giga_error [OF assms, of s] nearest_even_error [of "10 * giga double_round s d"]
  unfolding tenths_def by linarith

lemma report_8_gbytes:
  "reportQPISpeed double_round \<lparr>num_imc_channels = 4, num_qpi_ports = 2, qpi_speed = [16000000000], num_imc = 1\<rparr> =
     ''Max QPI link '' @ decimal 0 @ '' speed: '' @ (decimal 16 @ ''.'' @ decimal 0) @ '' GBytes/second ('' @
       (decimal 8 @ ''.'' @ decimal 0) @ '' GT/second)'' @ [CHR 0x0A]"
proof -
  have r: "double_round 16000000000 = 16000000000" "double_round 16 = 16" "double_round 8 = 8"
    using double_round_int [of 16000000000] double_round_int [of 16] double_round_int [of 8] by simp_all
  have "giga double_round 16000000000 1000000000 = 16" "giga double_round 16000000000 2000000000 = 8"
    using r by (simp_all add: giga_def u64_real_def)
  moreover have "tenths 16 = 160" "tenths 8 = 80"
    using nearest_even_of_int [of 160] nearest_even_of_int [of 80] by (simp_all add: tenths_def)
  ultimately show ?thesis
    by (simp add: reportQPISpeed_def qpi_line_def fixed1_def)
qed

section \<open>The MCFG table\<close>

record MCFGRecord =
  baseAddress :: u64
  PCISegmentGroupNumber :: u16
  startBusNumber :: u8
  endBusNumber :: u8
  record_reserved :: "u8 list"

record MCFGHeader =
  signature :: "u8 list"
  table_length :: u32
  revision :: u8
  checksum :: u8
  OEMID :: "u8 list"
  OEMTableID :: "u8 list"
  OEMRevision :: u32
  creatorID :: u32
  creatorRevision :: u32
  header_reserved :: "u8 list"

text \<open>\<open>std::cout\<close>: its text, and the number base, which stays as it was set.\<close>

record ostream =
  hex_base :: bool
  shown :: string

fun hexadecimal :: "nat \<Rightarrow> string" where
  "hexadecimal n =
     (let d = (\<lambda>k. char_of (if k < 10 then 48 + k else 87 + k))
      in if n < 16 then [d n] else hexadecimal (n div 16) @ [d (n mod 16)])"

declare hexadecimal.simps [simp del]

definition put_text :: "string \<Rightarrow> ostream \<Rightarrow> ostream" where
  "put_text t s = s\<lparr>shown := shown s @ t\<rparr>"

definition put_number :: "nat \<Rightarrow> ostream \<Rightarrow> ostream" where
  "put_number n s = put_text (if hex_base s then hexadecimal n else decimal n) s"

definition MCFGRecord_print :: "MCFGRecord \<Rightarrow> ostream \<Rightarrow> ostream" where
  "MCFGRecord_print r s =
     (let s = (put_text ''BaseAddress='' s)\<lparr>hex_base := True\<rparr>;
          s = put_number (unat (baseAddress r)) (put_text ''0x'' s);
          s = put_number (unat (PCISegmentGroupNumber r)) (put_text '' PCISegmentGroupNumber=0x'' s);
          s = put_number (unat (startBusNumber r)) (put_text '' startBusNumber=0x'' s);
          s = put_number (unat (endBusNumber r)) (put_text '' endBusNumber=0x'' s)
      in put_text [CHR 0x0A] s)"

definition MCFGHeader_print :: "MCFGHeader \<Rightarrow> ostream \<Rightarrow> ostream" where
  "MCFGHeader_print h s =
     (let s = put_number (unat (table_length h)) (put_text ''Header: length='' s);
          s = put_number (unat (nrecords (table_length h))) (put_text '' nrecords='' s)
      in put_text [CHR 0x0A] s)"

lemma text_put [simp]: "shown (put_text t s) = shown s @ t" "hex_base (put_text t s) = hex_base s"
  by (simp_all add: put_text_def)

lemma text_put_number [simp]:
  "shown (put_number n s) = shown s @ (if hex_base s then hexadecimal n else decimal n)"
  "hex_base (put_number n s) = hex_base s"
  by (simp_all add: put_number_def)

text \<open>
  A record is always printed in hexadecimal and leaves the stream so: the numbers of a header are printed
  in decimal before the first record, and in hexadecimal without a mark after it.
\<close>

lemma MCFGRecord_print_text:
  "hex_base (MCFGRecord_print r s)"
  "shown (MCFGRecord_print r s) = shown s @ ''BaseAddress=0x'' @ hexadecimal (unat (baseAddress r)) @
     '' PCISegmentGroupNumber=0x'' @ hexadecimal (unat (PCISegmentGroupNumber r)) @
     '' startBusNumber=0x'' @ hexadecimal (unat (startBusNumber r)) @
     '' endBusNumber=0x'' @ hexadecimal (unat (endBusNumber r)) @ [CHR 0x0A]"
  by (simp_all add: MCFGRecord_print_def Let_def)

lemma MCFGHeader_print_text:
  "shown (MCFGHeader_print h s) = shown s @ (let num = (if hex_base s then hexadecimal else decimal) in
     ''Header: length='' @ num (unat (table_length h)) @ '' nrecords='' @ num (unat (nrecords (table_length h))) @ [CHR 0x0A])"
  by (simp add: MCFGHeader_print_def Let_def)

lemma header_after_record:
  assumes "44 + 16 * k < 2 ^ 32" "table_length h = of_nat (44 + 16 * k)"
  shows "shown (MCFGHeader_print h (MCFGRecord_print r s)) = shown (MCFGRecord_print r s) @
    ''Header: length='' @ hexadecimal (44 + 16 * k) @ '' nrecords='' @ hexadecimal k @ [CHR 0x0A]"
proof -
  have "unat (table_length h) = 44 + 16 * k"
    unfolding assms(2) by (rule unat_of_nat_small) (use assms(1) in simp)
  moreover have "unat (nrecords (table_length h)) = k"
    unfolding assms(2) nrecords_full [OF assms(1)] by (rule unat_of_nat_small) (use assms(1) in simp)
  ultimately show ?thesis
    by (simp add: MCFGHeader_print_text MCFGRecord_print_text Let_def)
qed

section \<open>null_stream\<close>

text \<open>
  An \<open>ostream\<close> hands a character to its buffer, which calls the virtual \<open>overflow(int)\<close> when it has no room;
  the default returns \<open>EOF\<close>, and the stream is bad from then on. \<open>null_stream\<close> of src/pcm/utils.h declares
  an \<open>overflow(char)\<close>, which is another function: the virtual one remains the default.
\<close>

record streambuf =
  overflow_int :: "int \<Rightarrow> int"

definition default_streambuf :: streambuf where
  "default_streambuf = \<lparr>overflow_int = (\<lambda>_. - 1)\<rparr>"

record null_stream = streambuf +
  overflow_char :: "char \<Rightarrow> unit"

definition null_stream :: null_stream where
  "null_stream = streambuf.extend default_streambuf \<lparr>overflow_char = (\<lambda>_. ())\<rparr>"

definition put_char :: "'a streambuf_scheme \<Rightarrow> char \<Rightarrow> bool \<Rightarrow> bool" where
  "put_char b c badbit \<longleftrightarrow> badbit \<or> overflow_int b (of_char c) = - 1"

lemma null_stream_goes_bad: "fold (put_char null_stream) cs False \<longleftrightarrow> cs \<noteq> []"
proof -
  have "fold (put_char null_stream) ds True" for ds
    by (induction ds) (simp_all add: put_char_def)
  then show ?thesis
    by (cases cs) (simp_all add: put_char_def null_stream_def default_streambuf_def streambuf.defs)
qed

section \<open>Remaining registers\<close>

definition client_imc_regs :: registers where
  "client_imc_regs = [(''PCM_CLIENT_IMC_DRAM_IO_REQESTS'', 0x5048), (''PCM_CLIENT_IMC_DRAM_DATA_READS'', 0x5050),
     (''PCM_CLIENT_IMC_DRAM_DATA_WRITES'', 0x5054)]"

definition PCM_CLIENT_IMC_BAR_OFFSET :: nat where "PCM_CLIENT_IMC_BAR_OFFSET = 0x48"
definition PCM_CLIENT_IMC_MMAP_SIZE :: nat where "PCM_CLIENT_IMC_MMAP_SIZE = 0x6000"

text \<open>The counters are different aligned 32-bit words inside the mapping.\<close>

lemma client_imc_in_mapping:
  "distinct (map snd client_imc_regs) \<and>
   (\<forall>a \<in> set (map snd client_imc_regs). 4 dvd a \<and> a + 4 \<le> PCM_CLIENT_IMC_MMAP_SIZE)"
  by (simp add: client_imc_regs_def PCM_CLIENT_IMC_MMAP_SIZE_def)

text \<open>The miscellaneous registers of the QPI ports are function 0 of the device of the port.\<close>

definition qpi_misc_functions :: "(string \<times> nat) list" where
  "qpi_misc_functions = [(''QPI_PORT0'', 0), (''QPI_PORT1'', 0), (''QPI_PORT2'', 0)]"

definition QPI_RATE_STATUS_ADDR :: nat where "QPI_RATE_STATUS_ADDR = 0xD4"

lemma qpi_misc_apart:
  "snd (snd p) \<noteq> snd q" if "p \<in> set (jktivt_qpi_ports @ hsx_qpi_ports)" "q \<in> set qpi_misc_functions"
  using that by (auto simp: jktivt_qpi_ports_def hsx_qpi_ports_def qpi_misc_functions_def)

lemma qpi_rate_status_new: "QPI_RATE_STATUS_ADDR \<notin> set (map snd q_p_regs)"
  by (simp add: QPI_RATE_STATUS_ADDR_def q_p_regs_def)

definition PCM_INTEL_PCI_VENDOR_ID :: u32 where "PCM_INTEL_PCI_VENDOR_ID = 0x8086"
definition PCM_PCI_VENDOR_ID_OFFSET :: nat where "PCM_PCI_VENDOR_ID_OFFSET = 0"

definition MC_CH_PCI_PMON_FIXED_CTL_RST :: u32 where "MC_CH_PCI_PMON_FIXED_CTL_RST = push_bit 19 1"
definition MC_CH_PCI_PMON_FIXED_CTL_EN :: u32 where "MC_CH_PCI_PMON_FIXED_CTL_EN = push_bit 22 1"

text \<open>The enable bit of the fixed counter is that of the others, its reset bit is another one.\<close>

lemma fixed_control_bits:
  "MC_CH_PCI_PMON_FIXED_CTL_EN = MC_CH_PCI_PMON_CTL_EN" "MC_CH_PCI_PMON_FIXED_CTL_RST \<noteq> MC_CH_PCI_PMON_CTL_RST"
  by (simp_all add: MC_CH_PCI_PMON_FIXED_CTL_EN_def MC_CH_PCI_PMON_CTL_EN_def MC_CH_PCI_PMON_FIXED_CTL_RST_def
      MC_CH_PCI_PMON_CTL_RST_def)

definition PCM_INVALID_L3_CACHE_OCCUPANCY :: u64 where
  "PCM_INVALID_L3_CACHE_OCCUPANCY = - 1"

lemma invalid_occupancy: "x \<le> PCM_INVALID_L3_CACHE_OCCUPANCY"
  by (simp add: PCM_INVALID_L3_CACHE_OCCUPANCY_def)

end
