(* ===== verification/Clocks.thy ===== *)
theory Clocks
  imports CS_Prelude "HOL-Library.Signed_Division" "HOL-Library.Monad_Syntax"
begin

text \<open>
  The two clocks of the benchmarks: the inline functions of src/clock.h and the stop watch
  src/clc/MyClock.cpp. What \<open>gettimeofday\<close> and \<open>rdtsc\<close> deliver is an argument of each operation. A
  \<open>long\<close> is an integer whose overflow, undefined in the source, is \<open>None\<close>. The theory shows that the stop
  watch adds up exactly the times between its starts and stops.
\<close>

section \<open>clock.h\<close>

record timeval =
  tv_sec :: int
  tv_usec :: int

text \<open>\<open>rdtsc\<close> leaves the halves of the time stamp counter in two registers.\<close>

definition getCycleCount :: "u64 \<Rightarrow> u64 \<Rightarrow> u64" where
  "getCycleCount lo hi = lo OR push_bit 32 hi"

definition long :: "int \<Rightarrow> int option" where
  "long x = (if - (2 ^ 63) \<le> x \<and> x < 2 ^ 63 then Some x else None)"

definition getTimeOfMs :: "timeval \<Rightarrow> u64 option" where
  "getTimeOfMs val = do {
     us \<leftarrow> long (tv_sec val * 1000000);
     us \<leftarrow> long (us + tv_usec val);
     Some (word_of_int us) }"

section \<open>MyClock.cpp\<close>

record MyClock =
  m_begin :: timeval
  m_end :: timeval
  m_timeByUSec :: int

text \<open>The constructor sets only the time; \<open>m_begin\<close> and \<open>m_end\<close> keep what the memory held.\<close>

definition MyClock :: "timeval \<Rightarrow> timeval \<Rightarrow> MyClock" where
  "MyClock b e = \<lparr>m_begin = b, m_end = e, m_timeByUSec = 0\<rparr>"

definition getInstance :: "MyClock \<Rightarrow> MyClock option \<Rightarrow> MyClock option" where
  "getInstance fresh m_ins = (case m_ins of None \<Rightarrow> Some fresh | Some c \<Rightarrow> Some c)"

definition clock_begin :: "timeval \<Rightarrow> MyClock \<Rightarrow> MyClock" where
  "clock_begin now c = c\<lparr>m_begin := now, m_timeByUSec := 0\<rparr>"

definition clock_stop :: "timeval \<Rightarrow> MyClock \<Rightarrow> MyClock option" where
  "clock_stop now c = do {
     let c = c\<lparr>m_end := now\<rparr>;
     d \<leftarrow> long (tv_sec (m_end c) - tv_sec (m_begin c));
     d \<leftarrow> long (1000000 * d);
     d \<leftarrow> long (d + tv_usec (m_end c));
     d \<leftarrow> long (d - tv_usec (m_begin c));
     t \<leftarrow> long (m_timeByUSec c + d);
     Some (c\<lparr>m_timeByUSec := t\<rparr>) }"

definition clock_resume :: "timeval \<Rightarrow> MyClock \<Rightarrow> MyClock" where
  "clock_resume now c = c\<lparr>m_begin := now\<rparr>"

definition clock_end :: "timeval \<Rightarrow> MyClock \<Rightarrow> MyClock option" where
  "clock_end now c = do {
     let c = c\<lparr>m_end := now\<rparr>;
     d \<leftarrow> long (tv_sec (m_end c) - tv_sec (m_begin c));
     d \<leftarrow> long (1000000 * d);
     d \<leftarrow> long (d + tv_usec (m_end c));
     d \<leftarrow> long (d - tv_usec (m_begin c));
     t \<leftarrow> long (m_timeByUSec c + d);
     Some (c\<lparr>m_timeByUSec := t\<rparr>) }"

definition getTimeBySec :: "MyClock \<Rightarrow> int" where
  "getTimeBySec c = m_timeByUSec c sdiv 1000000"

definition getTimeByMSec :: "MyClock \<Rightarrow> int" where
  "getTimeByMSec c = m_timeByUSec c sdiv 1000"

definition getTimeByUSec :: "MyClock \<Rightarrow> int" where
  "getTimeByUSec c = m_timeByUSec c"

section \<open>Stop watch\<close>

text \<open>Calls of the stop watch, in the order they are made.\<close>

datatype watch_call = Begin | Stop | Resume | End

fun watch_step :: "watch_call \<times> timeval \<Rightarrow> MyClock \<Rightarrow> MyClock option" where
  "watch_step (Begin, t) c = Some (clock_begin t c)"
| "watch_step (Stop, t) c = clock_stop t c"
| "watch_step (Resume, t) c = Some (clock_resume t c)"
| "watch_step (End, t) c = clock_end t c"

primrec watch :: "(watch_call \<times> timeval) list \<Rightarrow> MyClock \<Rightarrow> MyClock option" where
  "watch [] c = Some c"
| "watch (x # xs) c = Option.bind (watch_step x c) (watch xs)"

text \<open>
  The specification: time is a number of microseconds, and the watch shows the sum of the
  intervals from a start (\<open>Begin\<close> or \<open>Resume\<close>) to a stop.
\<close>

definition usec :: "timeval \<Rightarrow> int" where
  "usec t = 1000000 * tv_sec t + tv_usec t"

text \<open>What \<open>gettimeofday\<close> delivers in the next thirty thousand years.\<close>

definition tv_ok :: "timeval \<Rightarrow> bool" where
  "tv_ok t \<longleftrightarrow> 0 \<le> tv_sec t \<and> tv_sec t < 2 ^ 40 \<and> 0 \<le> tv_usec t \<and> tv_usec t < 1000000"

primrec intervals :: "(timeval \<times> timeval) list \<Rightarrow> int" where
  "intervals [] = 0"
| "intervals (p # ps) = usec (snd p) - usec (fst p) + intervals ps"

text \<open>The calls that measure a list of intervals, closed by a \<open>Stop\<close> each.\<close>

primrec resumed :: "(timeval \<times> timeval) list \<Rightarrow> (watch_call \<times> timeval) list" where
  "resumed [] = []"
| "resumed (p # ps) = (Resume, fst p) # (Stop, snd p) # resumed ps"

definition measured :: "timeval \<times> timeval \<Rightarrow> (timeval \<times> timeval) list \<Rightarrow> (watch_call \<times> timeval) list" where
  "measured p ps = (Begin, fst p) # (Stop, snd p) # resumed ps"

text \<open>Clock readings that do not go back.\<close>

fun forward :: "int \<Rightarrow> (timeval \<times> timeval) list \<Rightarrow> bool" where
  "forward t [] \<longleftrightarrow> True"
| "forward t (p # ps) \<longleftrightarrow> tv_ok (fst p) \<and> tv_ok (snd p) \<and> t \<le> usec (fst p) \<and> usec (fst p) \<le> usec (snd p) \<and>
     forward (usec (snd p)) ps"

lemma long_Some: "- (2 ^ 62) \<le> x \<Longrightarrow> x \<le> 2 ^ 62 \<Longrightarrow> long x = Some x"
  by (simp add: long_def)

lemma sdiv_nonneg: "0 \<le> x \<Longrightarrow> x sdiv 1000 = x div 1000 \<and> x sdiv 1000000 = x div (1000000 :: int)"
  by (cases "x = 0") (simp_all add: signed_divide_int_def)

lemma usec_bounds: "tv_ok t \<Longrightarrow> 0 \<le> usec t \<and> usec t < 1000000 * 2 ^ 40"
  by (auto simp: tv_ok_def usec_def)

text \<open>\<open>stop\<close> and \<open>end\<close> are the same operation: they add the time since the last start.\<close>

lemma stop_adds:
  assumes "tv_ok now" "tv_ok (m_begin c)" "0 \<le> m_timeByUSec c" "m_timeByUSec c \<le> 2 ^ 61"
  shows "clock_stop now c = Some (c\<lparr>m_end := now, m_timeByUSec := m_timeByUSec c + (usec now - usec (m_begin c))\<rparr>)"
    and "clock_end now c = clock_stop now c"
proof -
  let ?d = "tv_sec now - tv_sec (m_begin c)"
  have "long ?d = Some ?d" "long (1000000 * ?d) = Some (1000000 * ?d)"
    "long (1000000 * ?d + tv_usec now) = Some (1000000 * ?d + tv_usec now)"
    "long (1000000 * ?d + tv_usec now - tv_usec (m_begin c)) = Some (1000000 * ?d + tv_usec now - tv_usec (m_begin c))"
    "long (m_timeByUSec c + (usec now - usec (m_begin c))) = Some (m_timeByUSec c + (usec now - usec (m_begin c)))"
    using assms by (auto simp: tv_ok_def usec_def intro!: long_Some)
  moreover have "1000000 * ?d + tv_usec now - tv_usec (m_begin c) = usec now - usec (m_begin c)"
    by (simp add: usec_def)
  ultimately show "clock_stop now c = Some (c\<lparr>m_end := now, m_timeByUSec := m_timeByUSec c + (usec now - usec (m_begin c))\<rparr>)"
    by (simp add: clock_stop_def Let_def)
qed (simp add: clock_stop_def clock_end_def)

lemma resumed_adds:
  assumes "forward t ps" "0 \<le> m_timeByUSec c" "m_timeByUSec c \<le> t" "tv_ok (m_begin c)"
  shows "\<exists>c'. watch (resumed ps) c = Some c' \<and> m_timeByUSec c' = m_timeByUSec c + intervals ps \<and>
    tv_ok (m_begin c') \<and> 0 \<le> intervals ps"
  using assms
proof (induction ps arbitrary: t c)
  case (Cons p ps)
  let ?c = "clock_resume (fst p) c"
  let ?c' = "?c\<lparr>m_end := snd p, m_timeByUSec := m_timeByUSec c + (usec (snd p) - usec (fst p))\<rparr>"
  have p: "tv_ok (fst p)" "tv_ok (snd p)" "t \<le> usec (fst p)" "usec (fst p) \<le> usec (snd p)" "forward (usec (snd p)) ps"
    using Cons.prems(1) by simp_all
  have "m_timeByUSec c \<le> 2 ^ 61"
    using Cons.prems(3) p usec_bounds [OF p(1)] by simp
  then have st: "clock_stop (snd p) ?c = Some ?c'"
    using stop_adds(1) [of "snd p" ?c] p Cons.prems by (simp add: clock_resume_def)
  obtain c' where "watch (resumed ps) ?c' = Some c'" "m_timeByUSec c' = m_timeByUSec ?c' + intervals ps"
    "tv_ok (m_begin c')" "0 \<le> intervals ps"
    using Cons.IH [OF p(5), of ?c'] p Cons.prems by (auto simp: clock_resume_def)
  then show ?case
    using st p(4) by simp
qed simp

section \<open>Properties\<close>

text \<open>
  C19: the stop watch is exact. When it is begun and stopped, and resumed and stopped any number of
  times, with readings of a clock that is not set back, it shows the sum of the measured intervals
  in microseconds, whatever it held before; the other two units are that sum rounded down.
\<close>

theorem stop_watch_exact:
  assumes "forward 0 (p # ps)"
  shows "\<exists>c'. watch (measured p ps) c = Some c' \<and> getTimeByUSec c' = intervals (p # ps) \<and>
    0 \<le> getTimeByUSec c' \<and>
    getTimeByMSec c' = intervals (p # ps) div 1000 \<and> getTimeBySec c' = intervals (p # ps) div 1000000"
proof -
  let ?c = "clock_begin (fst p) c"
  let ?c' = "?c\<lparr>m_end := snd p, m_timeByUSec := usec (snd p) - usec (fst p)\<rparr>"
  have p: "tv_ok (fst p)" "tv_ok (snd p)" "usec (fst p) \<le> usec (snd p)" "forward (usec (snd p)) ps"
    using assms by simp_all
  have st: "clock_stop (snd p) ?c = Some ?c'"
    using stop_adds(1) [of "snd p" ?c] p by (simp add: clock_begin_def)
  have "0 \<le> m_timeByUSec ?c'" "m_timeByUSec ?c' \<le> usec (snd p)" "tv_ok (m_begin ?c')"
    using p usec_bounds [OF p(1)] by (simp_all add: clock_begin_def)
  from resumed_adds [OF p(4) this] obtain c' where c':
    "watch (resumed ps) ?c' = Some c'" "m_timeByUSec c' = intervals (p # ps)" "0 \<le> intervals ps"
    by auto
  then have "0 \<le> m_timeByUSec c'"
    using p(3) by simp
  moreover have "watch (measured p ps) c = Some c'"
    using st c'(1) by (simp add: measured_def)
  ultimately show ?thesis
    unfolding getTimeByUSec_def getTimeByMSec_def getTimeBySec_def
    by (intro exI [of _ c']) (simp only: c'(2) sdiv_nonneg simp_thms)
qed

theorem stop_watch_exact_witness:
  "\<exists>c'. watch (measured (\<lparr>tv_sec = 1411344000, tv_usec = 999000\<rparr>, \<lparr>tv_sec = 1411344001, tv_usec = 1500\<rparr>)
       [(\<lparr>tv_sec = 1411344010, tv_usec = 0\<rparr>, \<lparr>tv_sec = 1411344012, tv_usec = 500\<rparr>)])
       (MyClock \<lparr>tv_sec = 7, tv_usec = 8\<rparr> \<lparr>tv_sec = 9, tv_usec = 1\<rparr>) = Some c' \<and>
     getTimeByUSec c' = 2003000 \<and> getTimeByMSec c' = 2003 \<and> getTimeBySec c' = 2"
proof -
  let ?p = "(\<lparr>tv_sec = 1411344000, tv_usec = 999000\<rparr>, \<lparr>tv_sec = 1411344001, tv_usec = 1500\<rparr>)"
  let ?q = "(\<lparr>tv_sec = 1411344010, tv_usec = 0\<rparr>, \<lparr>tv_sec = 1411344012, tv_usec = 500\<rparr>)"
  let ?c = "MyClock \<lparr>tv_sec = 7, tv_usec = 8\<rparr> \<lparr>tv_sec = 9, tv_usec = 1\<rparr>"
  have "forward 0 [?p, ?q]" "intervals [?p, ?q] = 2003000"
    by (simp_all add: tv_ok_def usec_def)
  with stop_watch_exact [of ?p "[?q]" ?c] show ?thesis
    by (simp del: forward.simps intervals.simps) blast
qed

text \<open>
  \<open>end\<close> after \<open>stop\<close> counts the time from the last start to the stop a second time: the
  watch has no notion of being stopped, and both operations add the time since \<open>m_begin\<close>.
\<close>

lemma end_after_stop_counts_twice:
  assumes "tv_ok t0" "tv_ok t1" "tv_ok t2" "usec t0 \<le> usec t1" "usec t1 \<le> usec t2"
  shows "\<exists>c'. watch [(Begin, t0), (Stop, t1), (End, t2)] c = Some c' \<and>
    getTimeByUSec c' = (usec t2 - usec t0) + (usec t1 - usec t0)"
proof -
  let ?c = "clock_begin t0 c"
  let ?c1 = "?c\<lparr>m_end := t1, m_timeByUSec := usec t1 - usec t0\<rparr>"
  have "clock_stop t1 ?c = Some ?c1"
    using stop_adds(1) [of t1 ?c] assms by (simp add: clock_begin_def)
  moreover have "clock_end t2 ?c1 = Some (?c1\<lparr>m_end := t2, m_timeByUSec := usec t1 - usec t0 + (usec t2 - usec t0)\<rparr>)"
    using stop_adds [of t2 ?c1] assms usec_bounds [of t0] usec_bounds [of t1] by (simp add: clock_begin_def)
  ultimately show ?thesis
    by (simp add: getTimeByUSec_def)
qed

text \<open>
  The readings of clock.h. The cycle count is the time stamp counter whose halves \<open>rdtsc\<close>
  delivers, and \<open>getTimeOfMs\<close> is the time in microseconds (not milliseconds, as its name says):
  later readings are larger exactly when the clock has moved on.
\<close>

lemma clock_readings:
  assumes "tv_ok s" "tv_ok t"
  shows "getCycleCount (take_bit 32 tsc) (drop_bit 32 tsc) = tsc \<and>
    (\<exists>x y. getTimeOfMs s = Some x \<and> getTimeOfMs t = Some y \<and> uint x = usec s \<and> uint y = usec t \<and>
       (x < y \<longleftrightarrow> usec s < usec t) \<and> (usec s \<le> usec t \<longrightarrow> uint (y - x) = usec t - usec s))"
proof -
  have "getCycleCount (take_bit 32 tsc) (drop_bit 32 tsc) = tsc"
  proof (rule bit_word_eqI)
    fix n
    show "bit (getCycleCount (take_bit 32 tsc) (drop_bit 32 tsc)) n = bit tsc n" if "n < LENGTH(64)"
      using that by (cases "n < 32") (auto simp: getCycleCount_def bit_simps)
  qed
  moreover have get: "getTimeOfMs u = Some (word_of_int (usec u))" "uint (word_of_int (usec u) :: u64) = usec u" if "tv_ok u" for u
  proof -
    have "long (tv_sec u * 1000000) = Some (tv_sec u * 1000000)"
      "long (tv_sec u * 1000000 + tv_usec u) = Some (tv_sec u * 1000000 + tv_usec u)"
      using that by (auto simp: tv_ok_def intro!: long_Some)
    then show "getTimeOfMs u = Some (word_of_int (usec u))"
      by (simp add: getTimeOfMs_def usec_def mult.commute)
    show "uint (word_of_int (usec u) :: u64) = usec u"
      using usec_bounds [OF that] by (simp add: uint_word_of_int)
  qed
  moreover have "uint (word_of_int (usec t) - word_of_int (usec s) :: u64) = usec t - usec s" if "usec s \<le> usec t"
    using usec_bounds [OF assms(1)] usec_bounds [OF assms(2)] that
    by (simp add: uint_word_of_int flip: of_int_diff)
  ultimately show ?thesis
    using assms by (simp add: word_less_def)
qed

end
