(* ===== verification/Counter_States.thy ===== *)
theory Counter_States
  imports CS_Prelude "HOL-Library.Multiset"
begin

text \<open>
  The counter states of src/pcm/cpucounters.h and their accumulation: core states are added up to
  socket states, socket states to the system state, all counters modulo \<open>2 ^ 64\<close>.
\<close>

section \<open>Core counters\<close>

definition MAX_C_STATE :: nat where "MAX_C_STATE = 10"
definition PCM_INVALID_THERMAL_HEADROOM :: int where "PCM_INVALID_THERMAL_HEADROOM = - (2 ^ 31)"

text \<open>
  The unions give one field two or three names: \<open>L3Miss\<close> and \<open>ArchLLCMiss\<close> are \<open>Event0\<close>,
  \<open>L3UnsharedHit\<close> and \<open>ArchLLCRef\<close> are \<open>Event1\<close>, \<open>L2HitM\<close> is \<open>Event2\<close>, \<open>L2Hit\<close> is \<open>Event3\<close>.
\<close>

record BasicCounterState =
  InstRetiredAny :: u64
  CpuClkUnhaltedThread :: u64
  CpuClkUnhaltedRef :: u64
  Event0 :: u64
  Event1 :: u64
  Event2 :: u64
  Event3 :: u64
  InvariantTSC :: u64
  CStateResidency :: "u64 list"
  ThermalHeadroom :: int
  L3Occupancy :: u64

abbreviation L3Miss where "L3Miss \<equiv> Event0"
abbreviation ArchLLCMiss where "ArchLLCMiss \<equiv> Event0"
abbreviation L3UnsharedHit where "L3UnsharedHit \<equiv> Event1"
abbreviation ArchLLCRef where "ArchLLCRef \<equiv> Event1"
abbreviation L2HitM where "L2HitM \<equiv> Event2"
abbreviation L2Hit where "L2Hit \<equiv> Event3"

definition no_residency :: "u64 list" where
  "no_residency = replicate (MAX_C_STATE + 1) 0"

definition basic_init :: BasicCounterState where
  "basic_init = \<lparr>InstRetiredAny = 0, CpuClkUnhaltedThread = 0, CpuClkUnhaltedRef = 0, Event0 = 0, Event1 = 0,
     Event2 = 0, Event3 = 0, InvariantTSC = 0, CStateResidency = no_residency,
     ThermalHeadroom = PCM_INVALID_THERMAL_HEADROOM, L3Occupancy = 0\<rparr>"

text \<open>\<open>operator +=\<close>: the thermal headroom is not accumulated. Both residency arrays have 11 elements.\<close>

definition residency_add :: "u64 list \<Rightarrow> u64 list \<Rightarrow> u64 list" where
  "residency_add xs ys = map (\<lambda>i. xs ! i + ys ! i) [0..<MAX_C_STATE + 1]"

definition basic_add :: "BasicCounterState \<Rightarrow> BasicCounterState \<Rightarrow> BasicCounterState" where
  "basic_add s x = \<lparr>InstRetiredAny = InstRetiredAny s + InstRetiredAny x,
     CpuClkUnhaltedThread = CpuClkUnhaltedThread s + CpuClkUnhaltedThread x,
     CpuClkUnhaltedRef = CpuClkUnhaltedRef s + CpuClkUnhaltedRef x,
     Event0 = Event0 s + Event0 x, Event1 = Event1 s + Event1 x, Event2 = Event2 s + Event2 x,
     Event3 = Event3 s + Event3 x, InvariantTSC = InvariantTSC s + InvariantTSC x,
     CStateResidency = residency_add (CStateResidency s) (CStateResidency x),
     ThermalHeadroom = ThermalHeadroom s, L3Occupancy = L3Occupancy s + L3Occupancy x\<rparr>"

definition basic_ok :: "BasicCounterState \<Rightarrow> bool" where
  "basic_ok s \<longleftrightarrow> length (CStateResidency s) = MAX_C_STATE + 1"

section \<open>Uncore counters\<close>

record UncoreCounterState =
  UncMCFullWrites :: u64
  UncMCNormalReads :: u64
  UncMCIORequests :: u64
  PackageEnergyStatus :: u64
  DRAMEnergyStatus :: u64
  PackageCStateResidency :: "u64 list"

definition uncore_init :: UncoreCounterState where
  "uncore_init = \<lparr>UncMCFullWrites = 0, UncMCNormalReads = 0, UncMCIORequests = 0, PackageEnergyStatus = 0,
     DRAMEnergyStatus = 0, PackageCStateResidency = no_residency\<rparr>"

definition uncore_add :: "UncoreCounterState \<Rightarrow> UncoreCounterState \<Rightarrow> UncoreCounterState" where
  "uncore_add s x = \<lparr>UncMCFullWrites = UncMCFullWrites s + UncMCFullWrites x,
     UncMCNormalReads = UncMCNormalReads s + UncMCNormalReads x,
     UncMCIORequests = UncMCIORequests s + UncMCIORequests x,
     PackageEnergyStatus = PackageEnergyStatus s + PackageEnergyStatus x,
     DRAMEnergyStatus = DRAMEnergyStatus s + DRAMEnergyStatus x,
     PackageCStateResidency = residency_add (PackageCStateResidency s) (PackageCStateResidency x)\<rparr>"

definition uncore_ok :: "UncoreCounterState \<Rightarrow> bool" where
  "uncore_ok s \<longleftrightarrow> length (PackageCStateResidency s) = MAX_C_STATE + 1"

text \<open>The power counters of a server's uncore.\<close>

record ServerUncorePowerState = UncoreCounterState +
  QPIClocks :: "u64 list"
  QPIL0pTxCycles :: "u64 list"
  QPIL1Cycles :: "u64 list"
  DRAMClocks :: "u64 list"
  MCCounter :: "u64 list list"
  PCUCounter :: "u64 list"
  PackageThermalHeadroom :: int
  ServerInvariantTSC :: u64

definition server_init :: ServerUncorePowerState where
  "server_init = UncoreCounterState.extend uncore_init
     (ServerUncorePowerState.fields (replicate 3 0) (replicate 3 0) (replicate 3 0) (replicate 8 0)
       (replicate 8 (replicate 4 0)) (replicate 4 0) 0 0)"

section \<open>Cores, sockets and the system\<close>

type_synonym CoreCounterState = BasicCounterState

record SocketCounterState =
  skt_basic :: BasicCounterState
  skt_uncore :: UncoreCounterState

text \<open>\<open>readAndAggregate\<close> of the two parts is in the library; a socket reads its core part first.\<close>

definition socket_readAndAggregate ::
  "('h \<Rightarrow> BasicCounterState \<Rightarrow> 'w \<Rightarrow> BasicCounterState \<times> 'w) \<Rightarrow>
   ('h \<Rightarrow> UncoreCounterState \<Rightarrow> 'w \<Rightarrow> UncoreCounterState \<times> 'w) \<Rightarrow>
   'h \<Rightarrow> SocketCounterState \<Rightarrow> 'w \<Rightarrow> SocketCounterState \<times> 'w" where
  "socket_readAndAggregate read_basic read_uncore handle s w =
     (let (b, w) = read_basic handle (skt_basic s) w; (u, w) = read_uncore handle (skt_uncore s) w
      in (s\<lparr>skt_basic := b, skt_uncore := u\<rparr>, w))"

definition accumulateCoreState :: "SocketCounterState \<Rightarrow> CoreCounterState \<Rightarrow> SocketCounterState" where
  "accumulateCoreState s x = s\<lparr>skt_basic := basic_add (skt_basic s) x\<rparr>"

record SystemCounterState =
  sys_basic :: BasicCounterState
  sys_uncore :: UncoreCounterState
  incomingQPIPackets :: "u64 list list"
  outgoingQPIIdleFlits :: "u64 list list"
  outgoingQPIDataNonDataFlits :: "u64 list list"
  uncoreTSC :: u64

definition system_readAndAggregate ::
  "('h \<Rightarrow> BasicCounterState \<Rightarrow> 'w \<Rightarrow> BasicCounterState \<times> 'w) \<Rightarrow>
   ('h \<Rightarrow> UncoreCounterState \<Rightarrow> 'w \<Rightarrow> UncoreCounterState \<times> 'w) \<Rightarrow>
   'h \<Rightarrow> SystemCounterState \<Rightarrow> 'w \<Rightarrow> SystemCounterState \<times> 'w" where
  "system_readAndAggregate read_basic read_uncore handle s w =
     (let (b, w) = read_basic handle (sys_basic s) w; (u, w) = read_uncore handle (sys_uncore s) w
      in (s\<lparr>sys_basic := b, sys_uncore := u\<rparr>, w))"

text \<open>The constructor: one entry per socket and QPI link.\<close>

definition system_init :: "nat \<Rightarrow> nat \<Rightarrow> SystemCounterState" where
  "system_init sockets links = \<lparr>sys_basic = basic_init, sys_uncore = uncore_init,
     incomingQPIPackets = replicate sockets (replicate links 0),
     outgoingQPIIdleFlits = replicate sockets (replicate links 0),
     outgoingQPIDataNonDataFlits = replicate sockets (replicate links 0), uncoreTSC = 0\<rparr>"

text \<open>The argument is a reference; the code accepts a null one and then does nothing.\<close>

definition accumulateSocketState :: "SystemCounterState \<Rightarrow> SocketCounterState option \<Rightarrow> SystemCounterState" where
  "accumulateSocketState s ob = (case ob of None \<Rightarrow> s
     | Some x \<Rightarrow> s\<lparr>sys_basic := basic_add (sys_basic s) (skt_basic x),
                   sys_uncore := uncore_add (sys_uncore s) (skt_uncore x)\<rparr>)"

section \<open>Accumulation\<close>

locale accumulator =
  fixes add :: "'s \<Rightarrow> 's \<Rightarrow> 's" and zero :: 's and ok :: "'s \<Rightarrow> bool"
  assumes assoc: "add s (add x y) = add (add s x) y"
    and left_comm: "add (add s x) y = add (add s y) x"
    and neutral: "ok s \<Longrightarrow> add s zero = s"
    and add_ok: "ok (add s x)"
begin

lemma foldl_ok: "ok s \<Longrightarrow> ok (foldl add s xs)"
  by (induction xs arbitrary: s) (auto simp: add_ok)

lemma foldl_snoc_comm: "foldl add (add s x) xs = add (foldl add s xs) x"
  by (induction xs arbitrary: s) (simp_all add: left_comm)

lemma foldl_mset: "mset xs = mset ys \<Longrightarrow> foldl add s xs = foldl add s ys"
proof (induction xs arbitrary: ys s)
  case (Cons x xs)
  then have "x \<in> set ys"
    by (metis list.set_intros(1) set_mset_mset)
  then obtain us vs where ys: "ys = us @ x # vs"
    by (auto simp: in_set_conv_decomp)
  with Cons.prems have "mset xs = mset (us @ vs)"
    by simp
  from Cons.IH [OF this] show ?case
    by (simp add: ys foldl_snoc_comm)
qed simp

lemma add_foldl: "add s (foldl add x xs) = foldl add (add s x) xs"
  by (induction xs arbitrary: x) (simp_all add: assoc foldl_snoc_comm)

lemma foldl_groups: "ok s \<Longrightarrow> foldl add s (map (foldl add zero) xss) = foldl add s (concat xss)"
proof (induction xss arbitrary: s)
  case (Cons xs xss)
  then show ?case
    by (simp add: add_foldl neutral foldl_ok)
qed simp

end

lemma length_residency_add [simp]: "length (residency_add xs ys) = MAX_C_STATE + 1"
  by (simp add: residency_add_def)

lemma nth_residency_add [simp]: "i \<le> MAX_C_STATE \<Longrightarrow> residency_add xs ys ! i = xs ! i + ys ! i"
  by (simp add: residency_add_def del: upt_Suc)

lemma nth_no_residency [simp]: "i \<le> MAX_C_STATE \<Longrightarrow> no_residency ! i = 0"
  by (simp add: no_residency_def nth_replicate del: replicate_Suc)

lemma residency_laws:
  "residency_add xs (residency_add ys zs) = residency_add (residency_add xs ys) zs"
  "residency_add (residency_add xs ys) zs = residency_add (residency_add xs zs) ys"
  by (auto simp: ac_simps intro!: nth_equalityI)

lemma residency_add_zero: "length xs = MAX_C_STATE + 1 \<Longrightarrow> residency_add xs no_residency = xs"
  by (auto intro!: nth_equalityI)

interpretation basic: accumulator basic_add basic_init basic_ok
proof
  show "basic_ok s \<Longrightarrow> basic_add s basic_init = s" for s
    by (cases s) (simp add: basic_add_def basic_init_def basic_ok_def residency_add_zero)
qed (simp_all add: basic_add_def basic_ok_def residency_laws(1) ac_simps, simp add: residency_laws(2))

interpretation uncore: accumulator uncore_add uncore_init uncore_ok
proof
  show "uncore_ok s \<Longrightarrow> uncore_add s uncore_init = s" for s
    by (cases s) (simp add: uncore_add_def uncore_init_def uncore_ok_def residency_add_zero)
qed (simp_all add: uncore_add_def uncore_ok_def residency_laws(1) ac_simps, simp add: residency_laws(2))

section \<open>Properties\<close>

text \<open>A socket state accumulated from its uncore counters and its cores.\<close>

definition socket_from :: "UncoreCounterState \<times> CoreCounterState list \<Rightarrow> SocketCounterState" where
  "socket_from p = foldl accumulateCoreState \<lparr>skt_basic = basic_init, skt_uncore = fst p\<rparr> (snd p)"

lemma accumulate_cores:
  "foldl accumulateCoreState s cs = s\<lparr>skt_basic := foldl basic_add (skt_basic s) cs\<rparr>"
  by (induction cs arbitrary: s) (simp_all add: accumulateCoreState_def)

lemma accumulate_sockets:
  "foldl (\<lambda>s x. accumulateSocketState s (Some x)) s xs =
     s\<lparr>sys_basic := foldl basic_add (sys_basic s) (map skt_basic xs),
       sys_uncore := foldl uncore_add (sys_uncore s) (map skt_uncore xs)\<rparr>"
  by (induction xs arbitrary: s) (simp_all add: accumulateSocketState_def)



end
