(* ===== verification/Pcm_Metrics.thy ===== *)
theory Pcm_Metrics
  imports Pcm_Model Counter_States Double_Rounding "HOL-Library.Monad_Syntax"
begin

text \<open>
  The metrics of src/pcm/cpucounters.h: functions of the counter states before and after an
  experiment. A template over the kind of counter state is defined on the part it reads. Array
  accesses of the source are unchecked; outside the array the result is \<open>None\<close>. A pointer to the
  \<open>PCM\<close> object is an option where the code tests it and the object itself where it does not.
\<close>

section \<open>Core metrics\<close>

definition getIPC :: "rounding \<Rightarrow> BasicCounterState \<Rightarrow> BasicCounterState \<Rightarrow> dbl" where
  "getIPC rnd before after =
     (let clocks = CpuClkUnhaltedThread after - CpuClkUnhaltedThread before
      in if clocks \<noteq> 0 then ddiv rnd (dbl_u rnd (InstRetiredAny after - InstRetiredAny before)) (dbl_s rnd clocks)
         else Num (- 1))"

definition getInstructionsRetired :: "BasicCounterState \<Rightarrow> BasicCounterState \<Rightarrow> u64" where
  "getInstructionsRetired before after = InstRetiredAny after - InstRetiredAny before"

definition getExecUsage :: "rounding \<Rightarrow> BasicCounterState \<Rightarrow> BasicCounterState \<Rightarrow> dbl" where
  "getExecUsage rnd before after =
     (let timer_clocks = InvariantTSC after - InvariantTSC before
      in if timer_clocks \<noteq> 0
         then ddiv rnd (dbl_u rnd (InstRetiredAny after - InstRetiredAny before)) (dbl_s rnd timer_clocks)
         else Num (- 1))"

definition getInstructionsRetired_now :: "BasicCounterState \<Rightarrow> u64" where
  "getInstructionsRetired_now now = InstRetiredAny now"

definition getCycles :: "BasicCounterState \<Rightarrow> BasicCounterState \<Rightarrow> u64" where
  "getCycles before after = CpuClkUnhaltedThread after - CpuClkUnhaltedThread before"

definition getRefCycles :: "BasicCounterState \<Rightarrow> BasicCounterState \<Rightarrow> u64" where
  "getRefCycles before after = CpuClkUnhaltedRef after - CpuClkUnhaltedRef before"

definition getCycles_now :: "BasicCounterState \<Rightarrow> u64" where
  "getCycles_now now = CpuClkUnhaltedThread now"

definition getCoreIPC :: "rounding \<Rightarrow> pcm option \<Rightarrow> BasicCounterState \<Rightarrow> BasicCounterState \<Rightarrow> dbl" where
  "getCoreIPC rnd m before after =
     (let ipc = getIPC rnd before after
      in case m of
           Some m \<Rightarrow> if dle (Num 0) ipc \<and> numCores m = numOnlineCores m
                      then dmul rnd ipc (dbl_u rnd (ucast (threadsPerCore m))) else Num (- 1)
         | None \<Rightarrow> Num (- 1))"

definition getTotalExecUsage :: "rounding \<Rightarrow> pcm option \<Rightarrow> BasicCounterState \<Rightarrow> BasicCounterState \<Rightarrow> dbl" where
  "getTotalExecUsage rnd m before after =
     (let usage = getExecUsage rnd before after
      in case m of
           Some m \<Rightarrow> if dle (Num 0) usage \<and> numCores m = numOnlineCores m
                      then dmul rnd usage (dbl_u rnd (ucast (threadsPerCore m))) else Num (- 1)
         | None \<Rightarrow> Num (- 1))"

definition getAverageFrequency :: "rounding \<Rightarrow> pcm option \<Rightarrow> BasicCounterState \<Rightarrow> BasicCounterState \<Rightarrow> dbl" where
  "getAverageFrequency rnd m before after =
     (let clocks = CpuClkUnhaltedThread after - CpuClkUnhaltedThread before;
          timer_clocks = InvariantTSC after - InvariantTSC before
      in case m of
           Some m \<Rightarrow> if timer_clocks \<noteq> 0
             then ddiv rnd (dmul rnd (dbl_u rnd (nominalFrequency m)) (dbl_s rnd clocks)) (dbl_s rnd timer_clocks)
             else Num (- 1)
         | None \<Rightarrow> Num (- 1))"

definition getActiveAverageFrequency :: "rounding \<Rightarrow> pcm option \<Rightarrow> BasicCounterState \<Rightarrow> BasicCounterState \<Rightarrow> dbl" where
  "getActiveAverageFrequency rnd m before after =
     (let clocks = CpuClkUnhaltedThread after - CpuClkUnhaltedThread before;
          ref_clocks = CpuClkUnhaltedRef after - CpuClkUnhaltedRef before
      in case m of
           Some m \<Rightarrow> if ref_clocks \<noteq> 0
             then ddiv rnd (dmul rnd (dbl_u rnd (nominalFrequency m)) (dbl_s rnd clocks)) (dbl_s rnd ref_clocks)
             else Num (- 1)
         | None \<Rightarrow> Num (- 1))"

definition getRelativeFrequency :: "rounding \<Rightarrow> BasicCounterState \<Rightarrow> BasicCounterState \<Rightarrow> dbl" where
  "getRelativeFrequency rnd before after =
     (let clocks = CpuClkUnhaltedThread after - CpuClkUnhaltedThread before;
          timer_clocks = InvariantTSC after - InvariantTSC before
      in if timer_clocks \<noteq> 0 then ddiv rnd (dbl_s rnd clocks) (dbl_s rnd timer_clocks) else Num (- 1))"

definition getActiveRelativeFrequency :: "rounding \<Rightarrow> BasicCounterState \<Rightarrow> BasicCounterState \<Rightarrow> dbl" where
  "getActiveRelativeFrequency rnd before after =
     (let clocks = CpuClkUnhaltedThread after - CpuClkUnhaltedThread before;
          ref_clocks = CpuClkUnhaltedRef after - CpuClkUnhaltedRef before
      in if ref_clocks \<noteq> 0 then ddiv rnd (dbl_s rnd clocks) (dbl_s rnd ref_clocks) else Num (- 1))"

text \<open>A constant of the source, rounded by the compiler.\<close>

definition lit :: "rounding \<Rightarrow> real \<Rightarrow> dbl" where "lit rnd x = Num (rnd x)"

definition getCyclesLostDueL3CacheMisses :: "rounding \<Rightarrow> pcm \<Rightarrow> BasicCounterState \<Rightarrow> BasicCounterState \<Rightarrow> dbl" where
  "getCyclesLostDueL3CacheMisses rnd m before after =
     (if is_model m [ATOM] then Num (- 1)
      else let clocks = CpuClkUnhaltedThread after - CpuClkUnhaltedThread before
           in if clocks \<noteq> 0
              then ddiv rnd (dmul rnd (lit rnd 180) (dbl_u rnd (L3Miss after - L3Miss before))) (dbl_s rnd clocks)
              else Num (- 1))"

definition getCyclesLostDueL2CacheMisses :: "rounding \<Rightarrow> pcm \<Rightarrow> BasicCounterState \<Rightarrow> BasicCounterState \<Rightarrow> dbl" where
  "getCyclesLostDueL2CacheMisses rnd m before after =
     (if is_model m [ATOM] then Num (- 1)
      else let clocks = CpuClkUnhaltedThread after - CpuClkUnhaltedThread before
           in if clocks \<noteq> 0
              then (let unshared = dbl_u rnd (L3UnsharedHit after - L3UnsharedHit before);
                        hitm = dbl_u rnd (L2HitM after - L2HitM before)
                    in ddiv rnd (dadd rnd (dmul rnd (lit rnd 35) unshared) (dmul rnd (lit rnd 74) hitm))
                         (dbl_s rnd clocks))
              else Num (- 1))"

definition getL2CacheHitRatio :: "rounding \<Rightarrow> pcm \<Rightarrow> BasicCounterState \<Rightarrow> BasicCounterState \<Rightarrow> dbl" where
  "getL2CacheHitRatio rnd m before after =
     (if is_model m [ATOM] then
        (let L2Miss = ArchLLCMiss after - ArchLLCMiss before; L2Ref = ArchLLCRef after - ArchLLCRef before
         in if L2Ref \<noteq> 0 then dsub rnd (Num 1) (ddiv rnd (dbl_u rnd L2Miss) (dbl_u rnd L2Ref)) else Num 1)
      else
        (let l3miss = L3Miss after - L3Miss before;
             unshared = L3UnsharedHit after - L3UnsharedHit before;
             hitm = L2HitM after - L2HitM before;
             hits = L2Hit after - L2Hit before;
             al = hits + hitm + unshared + l3miss
         in if al \<noteq> 0 then ddiv rnd (dbl_u rnd hits) (dbl_u rnd al) else Num 1))"

definition getL3CacheHitRatio :: "rounding \<Rightarrow> pcm \<Rightarrow> BasicCounterState \<Rightarrow> BasicCounterState \<Rightarrow> dbl" where
  "getL3CacheHitRatio rnd m before after =
     (if is_model m [ATOM] then Num (- 1)
      else
        (let l3miss = L3Miss after - L3Miss before;
             unshared = L3UnsharedHit after - L3UnsharedHit before;
             hitm = L2HitM after - L2HitM before;
             hits = unshared + hitm;
             al = hitm + unshared + l3miss
         in if al \<noteq> 0 then ddiv rnd (dbl_u rnd hits) (dbl_u rnd al) else Num 1))"

definition getL3CacheMisses :: "pcm \<Rightarrow> BasicCounterState \<Rightarrow> BasicCounterState \<Rightarrow> u64" where
  "getL3CacheMisses m before after = (if is_model m [ATOM] then 0 else L3Miss after - L3Miss before)"

definition getL2CacheMisses :: "pcm \<Rightarrow> BasicCounterState \<Rightarrow> BasicCounterState \<Rightarrow> u64" where
  "getL2CacheMisses m before after =
     (if is_model m [ATOM] then ArchLLCMiss after - ArchLLCMiss before
      else (let l3miss = L3Miss after - L3Miss before;
                unshared = L3UnsharedHit after - L3UnsharedHit before;
                hitm = L2HitM after - L2HitM before
            in hitm + unshared + l3miss))"

definition getL2CacheHits :: "pcm \<Rightarrow> BasicCounterState \<Rightarrow> BasicCounterState \<Rightarrow> u64" where
  "getL2CacheHits m before after =
     (if is_model m [ATOM] then
        (let L2Miss = ArchLLCMiss after - ArchLLCMiss before; L2Ref = ArchLLCRef after - ArchLLCRef before
         in L2Ref - L2Miss)
      else L2Hit after - L2Hit before)"

definition getL3CacheOccupancy :: "BasicCounterState \<Rightarrow> u64" where
  "getL3CacheOccupancy now = L3Occupancy now"

definition getL3CacheHitsNoSnoop :: "pcm \<Rightarrow> BasicCounterState \<Rightarrow> BasicCounterState \<Rightarrow> u64" where
  "getL3CacheHitsNoSnoop m before after =
     (if is_model m [ATOM] then 0 else L3UnsharedHit after - L3UnsharedHit before)"

definition getL3CacheHitsSnoop :: "pcm \<Rightarrow> BasicCounterState \<Rightarrow> BasicCounterState \<Rightarrow> u64" where
  "getL3CacheHitsSnoop m before after = (if is_model m [ATOM] then 0 else L2HitM after - L2HitM before)"

definition getL3CacheHits :: "pcm \<Rightarrow> BasicCounterState \<Rightarrow> BasicCounterState \<Rightarrow> u64" where
  "getL3CacheHits m before after =
     (if is_model m [ATOM] then 0 else getL3CacheHitsSnoop m before after + getL3CacheHitsNoSnoop m before after)"

definition getInvariantTSC :: "BasicCounterState \<Rightarrow> BasicCounterState \<Rightarrow> u64" where
  "getInvariantTSC before after = InvariantTSC after - InvariantTSC before"

definition getThermalHeadroom :: "BasicCounterState \<Rightarrow> BasicCounterState \<Rightarrow> int" where
  "getThermalHeadroom before after = ThermalHeadroom after"

text \<open>\<open>(&after.Event0)[eventCounterNr]\<close>.\<close>

definition getNumberOfCustomEvents :: "int \<Rightarrow> BasicCounterState \<Rightarrow> BasicCounterState \<Rightarrow> u64 option" where
  "getNumberOfCustomEvents nr before after =
     do { a \<leftarrow> at_index [Event0 after, Event1 after, Event2 after, Event3 after] nr;
          b \<leftarrow> at_index [Event0 before, Event1 before, Event2 before, Event3 before] nr;
          Some (a - b) }"

section \<open>Residency in the C-states\<close>

text \<open>
  The loop of the C1 case subtracts the residency of each deeper state \<open>i\<close> if the metric is supported for
  \<open>state\<close>, that is for C1.
\<close>

primrec c1_loop ::
  "rounding \<Rightarrow> pcm \<Rightarrow> int \<Rightarrow> BasicCounterState \<Rightarrow> BasicCounterState \<Rightarrow> dbl \<Rightarrow> nat list \<Rightarrow> dbl \<Rightarrow> dbl option" where
  "c1_loop rnd m state before after tsc [] result = Some result"
| "c1_loop rnd m state before after tsc (i # is) result =
     do { supported \<leftarrow> isCoreCStateResidencySupported m state;
          result \<leftarrow> (if supported then
               do { a \<leftarrow> at_index (CStateResidency after) (int i);
                    b \<leftarrow> at_index (CStateResidency before) (int i);
                    Some (dsub rnd result (ddiv rnd (dbl_u rnd (a - b)) tsc)) }
             else Some result);
          c1_loop rnd m state before after tsc is result }"

definition getCoreCStateResidency :: "rounding \<Rightarrow> pcm \<Rightarrow> int \<Rightarrow> BasicCounterState \<Rightarrow> BasicCounterState \<Rightarrow> dbl option" where
  "getCoreCStateResidency rnd m state before after =
     (let tsc = dbl_u rnd (getInvariantTSC before after)
      in if state = 0 then Some (ddiv rnd (dbl_u rnd (getRefCycles before after)) tsc)
         else if state = 1 then
           map_option clamp01 (c1_loop rnd m state before after tsc [2..<11]
             (dsub rnd (Num 1) (ddiv rnd (dbl_u rnd (getRefCycles before after)) tsc)))
         else do { a \<leftarrow> at_index (CStateResidency after) state;
                   b \<leftarrow> at_index (CStateResidency before) state;
                   Some (ddiv rnd (dbl_u rnd (a - b)) tsc) })"

definition getPackageCStateResidency ::
  "rounding \<Rightarrow> int \<Rightarrow> SocketCounterState \<Rightarrow> SocketCounterState \<Rightarrow> dbl option" where
  "getPackageCStateResidency rnd state before after =
     do { a \<leftarrow> at_index (PackageCStateResidency (skt_uncore after)) state;
          b \<leftarrow> at_index (PackageCStateResidency (skt_uncore before)) state;
          Some (ddiv rnd (dbl_u rnd (a - b)) (dbl_u rnd (getInvariantTSC (skt_basic before) (skt_basic after)))) }"

section \<open>Uncore metrics\<close>

definition getBytesReadFromMC :: "UncoreCounterState \<Rightarrow> UncoreCounterState \<Rightarrow> u64" where
  "getBytesReadFromMC before after = (UncMCNormalReads after - UncMCNormalReads before) * 64"

definition getBytesWrittenToMC :: "UncoreCounterState \<Rightarrow> UncoreCounterState \<Rightarrow> u64" where
  "getBytesWrittenToMC before after = (UncMCFullWrites after - UncMCFullWrites before) * 64"

definition getIORequestBytesFromMC :: "UncoreCounterState \<Rightarrow> UncoreCounterState \<Rightarrow> u64" where
  "getIORequestBytesFromMC before after = (UncMCIORequests after - UncMCIORequests before) * 64"

definition getConsumedEnergy :: "UncoreCounterState \<Rightarrow> UncoreCounterState \<Rightarrow> u64" where
  "getConsumedEnergy before after = PackageEnergyStatus after - PackageEnergyStatus before"

definition getDRAMConsumedEnergy :: "UncoreCounterState \<Rightarrow> UncoreCounterState \<Rightarrow> u64" where
  "getDRAMConsumedEnergy before after = DRAMEnergyStatus after - DRAMEnergyStatus before"

definition getConsumedJoules :: "rounding \<Rightarrow> pcm option \<Rightarrow> UncoreCounterState \<Rightarrow> UncoreCounterState \<Rightarrow> dbl" where
  "getConsumedJoules rnd m before after =
     (case m of None \<Rightarrow> Num (- 1)
      | Some m \<Rightarrow> dmul rnd (dbl_u rnd (getConsumedEnergy before after)) (Num (joulesPerEnergyUnit m)))"

definition getDRAMConsumedJoules :: "rounding \<Rightarrow> pcm option \<Rightarrow> UncoreCounterState \<Rightarrow> UncoreCounterState \<Rightarrow> dbl" where
  "getDRAMConsumedJoules rnd m before after =
     (case m of None \<Rightarrow> Num (- 1)
      | Some m \<Rightarrow>
          (let dram_joules_per_energy_unit =
             (if is_model m [HASWELLX] then lit rnd (153 / 10 ^ 7) else Num (joulesPerEnergyUnit m))
           in dmul rnd (dbl_u rnd (getDRAMConsumedEnergy before after)) dram_joules_per_energy_unit))"

text \<open>The counters of the server's uncore, by port, channel or number.\<close>

definition counter_diff :: "('s \<Rightarrow> u64 list) \<Rightarrow> u32 \<Rightarrow> 's \<Rightarrow> 's \<Rightarrow> u64 option" where
  "counter_diff field i before after =
     do { a \<leftarrow> at_index (field after) (uint i); b \<leftarrow> at_index (field before) (uint i); Some (a - b) }"

definition getQPIClocks :: "u32 \<Rightarrow> ServerUncorePowerState \<Rightarrow> ServerUncorePowerState \<Rightarrow> u64 option" where
  "getQPIClocks port before after = counter_diff QPIClocks port before after"
definition getQPIL0pTxCycles :: "u32 \<Rightarrow> ServerUncorePowerState \<Rightarrow> ServerUncorePowerState \<Rightarrow> u64 option" where
  "getQPIL0pTxCycles port before after = counter_diff QPIL0pTxCycles port before after"
definition getQPIL1Cycles :: "u32 \<Rightarrow> ServerUncorePowerState \<Rightarrow> ServerUncorePowerState \<Rightarrow> u64 option" where
  "getQPIL1Cycles port before after = counter_diff QPIL1Cycles port before after"
definition getDRAMClocks :: "u32 \<Rightarrow> ServerUncorePowerState \<Rightarrow> ServerUncorePowerState \<Rightarrow> u64 option" where
  "getDRAMClocks channel before after = counter_diff DRAMClocks channel before after"
definition getPCUCounter :: "u32 \<Rightarrow> ServerUncorePowerState \<Rightarrow> ServerUncorePowerState \<Rightarrow> u64 option" where
  "getPCUCounter nr before after = counter_diff PCUCounter nr before after"
definition getPCUClocks :: "ServerUncorePowerState \<Rightarrow> ServerUncorePowerState \<Rightarrow> u64 option" where
  "getPCUClocks before after = getPCUCounter 0 before after"

definition getMCCounter :: "u32 \<Rightarrow> u32 \<Rightarrow> ServerUncorePowerState \<Rightarrow> ServerUncorePowerState \<Rightarrow> u64 option" where
  "getMCCounter channel nr before after =
     do { as \<leftarrow> at_index (MCCounter after) (uint channel); bs \<leftarrow> at_index (MCCounter before) (uint channel);
          a \<leftarrow> at_index as (uint nr); b \<leftarrow> at_index bs (uint nr); Some (a - b) }"

definition getNormalizedQPIL0pTxCycles ::
  "rounding \<Rightarrow> u32 \<Rightarrow> ServerUncorePowerState \<Rightarrow> ServerUncorePowerState \<Rightarrow> dbl option" where
  "getNormalizedQPIL0pTxCycles rnd port before after =
     do { x \<leftarrow> getQPIL0pTxCycles port before after; y \<leftarrow> getQPIClocks port before after;
          Some (ddiv rnd (dbl_u rnd x) (dbl_u rnd y)) }"

definition getNormalizedQPIL1Cycles ::
  "rounding \<Rightarrow> u32 \<Rightarrow> ServerUncorePowerState \<Rightarrow> ServerUncorePowerState \<Rightarrow> dbl option" where
  "getNormalizedQPIL1Cycles rnd port before after =
     do { x \<leftarrow> getQPIL1Cycles port before after; y \<leftarrow> getQPIClocks port before after;
          Some (ddiv rnd (dbl_u rnd x) (dbl_u rnd y)) }"

definition getNumberOfEvents :: "u64 \<Rightarrow> u64 \<Rightarrow> u64" where
  "getNumberOfEvents before after = after - before"

section \<open>QPI metrics of the system\<close>

definition link_counter :: "u64 list list \<Rightarrow> u32 \<Rightarrow> u32 \<Rightarrow> u64 option" where
  "link_counter v socketNr linkNr = do { row \<leftarrow> at_index v (uint socketNr); at_index row (uint linkNr) }"

definition getIncomingQPILinkBytes ::
  "u32 \<Rightarrow> u32 \<Rightarrow> SystemCounterState \<Rightarrow> SystemCounterState \<Rightarrow> u64 option" where
  "getIncomingQPILinkBytes socketNr linkNr before after =
     do { b \<leftarrow> link_counter (incomingQPIPackets before) socketNr linkNr;
          a \<leftarrow> link_counter (incomingQPIPackets after) socketNr linkNr;
          Some (if a > b then 64 * (a - b) else 0) }"

text \<open>The bytes a link can carry in the interval.\<close>

definition link_max_bytes :: "rounding \<Rightarrow> pcm \<Rightarrow> u64 \<Rightarrow> SystemCounterState \<Rightarrow> SystemCounterState \<Rightarrow> dbl" where
  "link_max_bytes rnd m max_speed before after =
     ddiv rnd (dmul rnd (dbl_u rnd max_speed)
         (ddiv rnd (dbl_u rnd (getInvariantTSC (sys_basic before) (sys_basic after))) (dbl_u rnd (ucast (numCores m)))))
       (dbl_u rnd (nominalFrequency m))"

definition getIncomingQPILinkUtilization ::
  "rounding \<Rightarrow> pcm \<Rightarrow> u32 \<Rightarrow> u32 \<Rightarrow> SystemCounterState \<Rightarrow> SystemCounterState \<Rightarrow> dbl option" where
  "getIncomingQPILinkUtilization rnd m socketNr linkNr before after =
     (if \<not> qpiUtilizationMetricsAvailable m then Some (Num 0)
      else do { bytes \<leftarrow> getIncomingQPILinkBytes socketNr linkNr before after;
                max_speed \<leftarrow> getQPILinkSpeed m socketNr linkNr;
                Some (ddiv rnd (dbl_u rnd bytes) (link_max_bytes rnd m max_speed before after)) })"

definition positive_diff :: "u64 \<Rightarrow> u64 \<Rightarrow> u64" where
  "positive_diff a b = (if a > b then a - b else 0)"

definition getOutgoingQPILinkUtilization ::
  "rounding \<Rightarrow> pcm \<Rightarrow> u32 \<Rightarrow> u32 \<Rightarrow> SystemCounterState \<Rightarrow> SystemCounterState \<Rightarrow> dbl option" where
  "getOutgoingQPILinkUtilization rnd m socketNr linkNr before after =
     (if hasBecktonUncore m then
        do { b \<leftarrow> link_counter (outgoingQPIIdleFlits before) socketNr linkNr;
             a \<leftarrow> link_counter (outgoingQPIIdleFlits after) socketNr linkNr;
             let idle_flits = dbl_u rnd (positive_diff a b);
             let tsc = dbl_u rnd (positive_diff (uncoreTSC after) (uncoreTSC before));
             Some (if dless tsc idle_flits then Num 0 else dsub rnd (Num 1) (ddiv rnd idle_flits tsc)) }
      else if hasPCICFGUncore m then
        do { b \<leftarrow> link_counter (outgoingQPIDataNonDataFlits before) socketNr linkNr;
             a \<leftarrow> link_counter (outgoingQPIDataNonDataFlits after) socketNr linkNr;
             speed \<leftarrow> getQPILinkSpeed m socketNr linkNr;
             let flits = dbl_u rnd (positive_diff a b);
             let max_flits =
               ddiv rnd (ddiv rnd (ddiv rnd (dmul rnd (dbl_u rnd (getInvariantTSC (sys_basic before) (sys_basic after)))
                   (dbl_u rnd speed)) (lit rnd 8)) (dbl_u rnd (nominalFrequency m))) (dbl_u rnd (ucast (numCores m)));
             Some (if dless max_flits flits then Num 1 else ddiv rnd flits max_flits) }
      else Some (Num 0))"

definition getOutgoingQPILinkBytes ::
  "rounding \<Rightarrow> pcm \<Rightarrow> u32 \<Rightarrow> u32 \<Rightarrow> SystemCounterState \<Rightarrow> SystemCounterState \<Rightarrow> u64 option" where
  "getOutgoingQPILinkBytes rnd m socketNr linkNr before after =
     (if \<not> outgoingQPITrafficMetricsAvailable m then Some 0
      else do { util \<leftarrow> getOutgoingQPILinkUtilization rnd m socketNr linkNr before after;
                speed \<leftarrow> getQPILinkSpeed m socketNr linkNr;
                dbl_to_u64 (dmul rnd (link_max_bytes rnd m speed before after) util) })"

text \<open>The loops \<open>for (q = 0; q < n; ++q) sum += f(q)\<close>.\<close>

primrec sum_loop :: "nat \<Rightarrow> (u32 \<Rightarrow> u64 option) \<Rightarrow> u64 option" where
  "sum_loop 0 f = Some 0"
| "sum_loop (Suc n) f = do { sm \<leftarrow> sum_loop n f; x \<leftarrow> f (of_nat n); Some (sm + x) }"

definition qpi_links :: "pcm \<Rightarrow> nat option" where
  "qpi_links m = map_option (\<lambda>n. unat (ucast n :: u32)) (getQPILinksPerSocket m)"

definition getAllIncomingQPILinkBytes :: "pcm \<Rightarrow> SystemCounterState \<Rightarrow> SystemCounterState \<Rightarrow> u64 option" where
  "getAllIncomingQPILinkBytes m before after =
     do { n \<leftarrow> qpi_links m;
          sum_loop (unat (numSockets m)) (\<lambda>sk. sum_loop n (\<lambda>q. getIncomingQPILinkBytes sk q before after)) }"

definition getAllOutgoingQPILinkBytes :: "rounding \<Rightarrow> pcm \<Rightarrow> SystemCounterState \<Rightarrow> SystemCounterState \<Rightarrow> u64 option" where
  "getAllOutgoingQPILinkBytes rnd m before after =
     do { n \<leftarrow> qpi_links m;
          sum_loop (unat (numSockets m)) (\<lambda>sk. sum_loop n (\<lambda>q. getOutgoingQPILinkBytes rnd m sk q before after)) }"

definition getIncomingQPILinkBytes_now :: "u32 \<Rightarrow> u32 \<Rightarrow> SystemCounterState \<Rightarrow> u64 option" where
  "getIncomingQPILinkBytes_now socketNr linkNr now =
     map_option ((*) 64) (link_counter (incomingQPIPackets now) socketNr linkNr)"

definition getSocketIncomingQPILinkBytes :: "pcm \<Rightarrow> u32 \<Rightarrow> SystemCounterState \<Rightarrow> u64 option" where
  "getSocketIncomingQPILinkBytes m socketNr now =
     do { n \<leftarrow> qpi_links m; sum_loop n (\<lambda>q. getIncomingQPILinkBytes_now socketNr q now) }"

definition getAllIncomingQPILinkBytes_now :: "pcm \<Rightarrow> SystemCounterState \<Rightarrow> u64 option" where
  "getAllIncomingQPILinkBytes_now m now =
     sum_loop (unat (numSockets m)) (\<lambda>sk. getSocketIncomingQPILinkBytes m sk now)"

definition getQPItoMCTrafficRatio :: "rounding \<Rightarrow> pcm \<Rightarrow> SystemCounterState \<Rightarrow> SystemCounterState \<Rightarrow> dbl option" where
  "getQPItoMCTrafficRatio rnd m before after =
     do { totalQPI \<leftarrow> getAllIncomingQPILinkBytes m before after;
          let memTraffic = getBytesReadFromMC (sys_uncore before) (sys_uncore after) +
                           getBytesWrittenToMC (sys_uncore before) (sys_uncore after);
          Some (ddiv rnd (dbl_u rnd totalQPI) (dbl_u rnd memTraffic)) }"

section \<open>Properties\<close>

text \<open>
  Counts of successive intervals add up. For every counter metric, the count from \<open>s\<close> to \<open>t\<close> plus
  the count from \<open>t\<close> to \<open>u\<close> is the count from \<open>s\<close> to \<open>u\<close>, also when a counter wraps around in between.
\<close>

lemma counts_telescope:
  "getInstructionsRetired s t + getInstructionsRetired t u = getInstructionsRetired s u \<and>
   getCycles s t + getCycles t u = getCycles s u \<and>
   getRefCycles s t + getRefCycles t u = getRefCycles s u \<and>
   getInvariantTSC s t + getInvariantTSC t u = getInvariantTSC s u \<and>
   getL3CacheMisses m s t + getL3CacheMisses m t u = getL3CacheMisses m s u \<and>
   getL2CacheMisses m s t + getL2CacheMisses m t u = getL2CacheMisses m s u \<and>
   getL2CacheHits m s t + getL2CacheHits m t u = getL2CacheHits m s u \<and>
   getL3CacheHits m s t + getL3CacheHits m t u = getL3CacheHits m s u \<and>
   getBytesReadFromMC v w + getBytesReadFromMC w x = getBytesReadFromMC v x \<and>
   getBytesWrittenToMC v w + getBytesWrittenToMC w x = getBytesWrittenToMC v x \<and>
   getIORequestBytesFromMC v w + getIORequestBytesFromMC w x = getIORequestBytesFromMC v x \<and>
   getConsumedEnergy v w + getConsumedEnergy w x = getConsumedEnergy v x \<and>
   getDRAMConsumedEnergy v w + getDRAMConsumedEnergy w x = getDRAMConsumedEnergy v x"
  by (simp add: getInstructionsRetired_def getCycles_def getRefCycles_def getInvariantTSC_def getL3CacheMisses_def
      getL2CacheMisses_def getL2CacheHits_def getL3CacheHits_def getL3CacheHitsSnoop_def getL3CacheHitsNoSnoop_def
      getBytesReadFromMC_def getBytesWrittenToMC_def getIORequestBytesFromMC_def getConsumedEnergy_def
      getDRAMConsumedEnergy_def Let_def algebra_simps)

lemma foldl_basic_counts:
  "InstRetiredAny (foldl basic_add s xs) = InstRetiredAny s + sum_list (map InstRetiredAny xs)"
  "CpuClkUnhaltedThread (foldl basic_add s xs) = CpuClkUnhaltedThread s + sum_list (map CpuClkUnhaltedThread xs)"
  "L3Miss (foldl basic_add s xs) = L3Miss s + sum_list (map L3Miss xs)"
  by (induction xs arbitrary: s) (simp_all add: basic_add_def add.assoc)

lemma sum_list_diffs:
  "sum_list (map (\<lambda>p. f (snd p) - f (fst p)) ps) = sum_list (map f (map snd ps)) - sum_list (map f (map fst ps) :: u64 list)"
  by (induction ps) simp_all

text \<open>
  The counts of an accumulated state are the sums of the counts of the cores: for instructions,
  cycles and L3 misses between two states accumulated from the same cores.
\<close>

lemma accumulated_counts:
  "getInstructionsRetired (foldl basic_add s (map fst cores)) (foldl basic_add t (map snd cores)) =
     getInstructionsRetired s t + sum_list (map (\<lambda>(x, y). getInstructionsRetired x y) cores) \<and>
   getCycles (foldl basic_add s (map fst cores)) (foldl basic_add t (map snd cores)) =
     getCycles s t + sum_list (map (\<lambda>(x, y). getCycles x y) cores) \<and>
   getL3CacheMisses m (foldl basic_add s (map fst cores)) (foldl basic_add t (map snd cores)) =
     getL3CacheMisses m s t + sum_list (map (\<lambda>(x, y). getL3CacheMisses m x y) cores)"
proof (cases "is_model m [ATOM]")
  case True
  then show ?thesis
    by (simp add: getInstructionsRetired_def getCycles_def getL3CacheMisses_def foldl_basic_counts split_def
        sum_list_diffs [unfolded map_map comp_def] comp_def)
next
  case False
  then show ?thesis
    by (simp add: getInstructionsRetired_def getCycles_def getL3CacheMisses_def foldl_basic_counts split_def
        sum_list_diffs [unfolded map_map comp_def] comp_def)
qed


definition demo_pcm :: "SupportedCPUModels \<Rightarrow> pcm" where
  "demo_pcm c = \<lparr>cpu_model = model_id c, original_cpu_model = model_id c, num_sockets = 1, max_qpi_speed = 8,
     topology = [], server_pcicfg_uncore = None, joulesPerEnergyUnit = 1, pkgThermalSpecPower = 0,
     pkgMinimumPower = 0, pkgMaximumPower = 0, coreCStateMsr = None, pkgCStateMsr = None, run_state = 1,
     blocked = False, allow_multiple_instances = False, disable_JKT_workaround = False, numCores = 4,
     numOnlineCores = 4, numSockets = 1, threadsPerCore = 2, nominalFrequency = 1000\<rparr>"


lemma residency_index: "basic_ok s \<Longrightarrow> i < 11 \<Longrightarrow> at_index (CStateResidency s) (int i) = Some (CStateResidency s ! i)"
  by (simp add: basic_ok_def at_index_def MAX_C_STATE_def)

lemma c1_loop_number:
  assumes "basic_ok s" "basic_ok t" "d \<noteq> 0" "\<forall>i \<in> set is. i < 11"
  shows "\<exists>b. \<forall>m. c1_loop rnd m 1 s t (Num d) is (Num a) = Some (Num b)"
  using assms(4)
proof (induction "is" arbitrary: a)
  case (Cons i "is")
  then obtain b where "\<forall>m. c1_loop rnd m 1 s t (Num d) is
      (dsub rnd (Num a) (ddiv rnd (dbl_u rnd (CStateResidency t ! i - CStateResidency s ! i)) (Num d))) = Some (Num b)"
    using assms(3) by (fastforce simp: dsub_def dbl_u_def)
  then show ?case
    using Cons.prems assms(1,2) by (auto simp: isCoreCStateResidencySupported_def residency_index)
qed simp

text \<open>
  C34: when the time stamp counter has advanced, the C1 residency is a number between 0 and 1. It does
  not depend on the PCM object: the test in the loop asks whether C1 is supported, which is always
  so, and never whether the state being subtracted is.
\<close>

theorem c1_residency:
  assumes "ieee rnd" "basic_ok s" "basic_ok t" "InvariantTSC t \<noteq> InvariantTSC s"
  shows "\<exists>x. in_unit x \<and> (\<forall>m. getCoreCStateResidency rnd m 1 s t = Some x)"
proof -
  let ?d = "rnd (u64_real (getInvariantTSC s t))"
  have d: "?d \<noteq> 0"
    using assms(4) ieee_u64_pos [OF assms(1), of "getInvariantTSC s t"] by (simp add: getInvariantTSC_def)
  then obtain a where a: "dsub rnd (Num 1) (ddiv rnd (dbl_u rnd (getRefCycles s t)) (Num ?d)) = Num a"
    by (auto simp: dsub_def dbl_u_def)
  have "\<forall>i \<in> set [2..<11]. i < 11" by simp
  from c1_loop_number [OF assms(2,3) d this] obtain b where
    "\<forall>m. c1_loop rnd m 1 s t (Num ?d) [2..<11] (Num a) = Some (Num b)" by blast
  then have "getCoreCStateResidency rnd m 1 s t = Some (clamp01 (Num b))" for m
    by (simp add: getCoreCStateResidency_def dbl_u_def [of rnd "getInvariantTSC s t"] Let_def a del: upt_rec_numeral)
  then show ?thesis
    using clamp01_in_unit by blast
qed

theorem c1_residency_witness:
  "\<exists>x. in_unit x \<and> (\<forall>m. getCoreCStateResidency double_round m 1 basic_init (basic_init\<lparr>InvariantTSC := 100\<rparr>) = Some x)"
proof (rule c1_residency [OF ieee_double_round])
  show "basic_ok basic_init" "basic_ok (basic_init\<lparr>InvariantTSC := 100\<rparr>)"
    by (simp_all add: basic_ok_def basic_init_def no_residency_def)
  show "InvariantTSC (basic_init\<lparr>InvariantTSC := 100\<rparr>) \<noteq> InvariantTSC basic_init"
    by (simp add: basic_init_def)
qed

text \<open>
  The outgoing QPI traffic metrics are available exactly on the processors with one of the two
  kinds of uncore, which exclude each other; DRAM energy implies package energy; and when the two
  states have the link and time has passed, the utilisation of an outgoing link is between 0 and 1.
\<close>

theorem outgoing_qpi_utilization:
  assumes "ieee rnd"
    and "link_counter (outgoingQPIIdleFlits s) sk l \<noteq> None" "link_counter (outgoingQPIIdleFlits t) sk l \<noteq> None"
    and "uncoreTSC s < uncoreTSC t"
  shows "(outgoingQPITrafficMetricsAvailable m \<longleftrightarrow> hasBecktonUncore m \<or> hasPCICFGUncore m) \<and>
    \<not> (hasBecktonUncore m \<and> hasPCICFGUncore m) \<and>
    (dramEnergyMetricsAvailable m \<longrightarrow> packageEnergyMetricsAvailable m) \<and>
    (hasBecktonUncore m \<longrightarrow> (\<exists>x. getOutgoingQPILinkUtilization rnd m sk l s t = Some x \<and> in_unit x))"
proof -
  have tsc: "positive_diff (uncoreTSC t) (uncoreTSC s) \<noteq> 0"
    using assms(4) by (simp add: positive_diff_def)
  have "in_unit (if dless (dbl_u rnd y) (dbl_u rnd x) then Num 0 else dsub rnd (Num 1) (ddiv rnd (dbl_u rnd x) (dbl_u rnd y)))"
    if "y \<noteq> 0" for x y
  proof (cases "rnd (u64_real y) < rnd (u64_real x)")
    case False
    have "0 \<le> rnd (u64_real x)" "0 < rnd (u64_real y)"
      using assms(1) that by (simp_all add: ieee_nonneg ieee_u64_pos)
    with False have "in_unit (ddiv rnd (dbl_u rnd x) (dbl_u rnd y))"
      using assms(1) by (simp add: dbl_u_def ieee_nonneg ieee_le_1)
    with False show ?thesis
      using one_minus_in_unit [OF assms(1)] by (simp add: dbl_u_def)
  qed (simp add: dbl_u_def)
  then have "hasBecktonUncore m \<Longrightarrow> \<exists>x. getOutgoingQPILinkUtilization rnd m sk l s t = Some x \<and> in_unit x"
    using assms(2,3) tsc by (auto simp: getOutgoingQPILinkUtilization_def Let_def)
  then show ?thesis
    by (auto simp: outgoingQPITrafficMetricsAvailable_def hasBecktonUncore_def hasPCICFGUncore_def is_model_def
        dramEnergyMetricsAvailable_def packageEnergyMetricsAvailable_def)
qed

theorem outgoing_qpi_utilization_witness:
  "\<exists>x. getOutgoingQPILinkUtilization double_round (demo_pcm NEHALEM_EX) 0 0 (system_init 1 4)
     ((system_init 1 4)\<lparr>uncoreTSC := 10\<rparr>) = Some x \<and> in_unit x"
proof -
  let ?s = "system_init 1 4" and ?t = "(system_init 1 4)\<lparr>uncoreTSC := 10\<rparr>"
  have "link_counter (outgoingQPIIdleFlits ?s) 0 0 \<noteq> None" "link_counter (outgoingQPIIdleFlits ?t) 0 0 \<noteq> None"
    "uncoreTSC ?s < uncoreTSC ?t"
    by (simp_all add: system_init_def link_counter_def at_index_def)
  moreover have "hasBecktonUncore (demo_pcm NEHALEM_EX)"
    by (simp add: hasBecktonUncore_def is_model_def demo_pcm_def)
  ultimately show ?thesis
    using outgoing_qpi_utilization [OF ieee_double_round] by blast
qed

end
