(* ===== verification/Mem_Bench.thy ===== *)
theory Mem_Bench
  imports Atomic Permutate Clocks Pcm_Metrics C_Numbers
begin

text \<open>
  The memory benchmarks src/mem/numatest.cpp and src/mem/smptest.cpp with the counters of
  src/mem/mypcm.cpp: for each level of the memory hierarchy they build a ring, warm it up and time a
  walk along it, once reading and once with atomic operations. The operating system, libnuma and the
  PCM library are parameters on a world; what a run prints, allocates and frees is its output.
\<close>

section \<open>Environment and output\<close>

record 'w bench_env =
  pcm_object :: "pcm option"
  double_rounding :: rounding
  pcm_cleanup :: "'w \<Rightarrow> 'w"
  pcm_program :: "'w \<Rightarrow> int \<times> 'w"
  pcm_program_custom :: "CustomCoreEventDescription list \<Rightarrow> 'w \<Rightarrow> int \<times> 'w"
  core_counters :: "'w \<Rightarrow> CoreCounterState \<times> 'w"
  rdtsc :: "'w \<Rightarrow> (u64 \<times> u64) \<times> 'w"
  sched_setaffinity :: "u8 list \<Rightarrow> 'w \<Rightarrow> int \<times> 'w"
  numa_available :: "'w \<Rightarrow> int \<times> 'w"
  numa_alloc_onnode :: "nat \<Rightarrow> int \<Rightarrow> 'w \<Rightarrow> (nat \<Rightarrow> u32) option \<times> 'w"
  c_malloc :: "nat \<Rightarrow> 'w \<Rightarrow> (nat \<Rightarrow> u32) option \<times> 'w"
  processor :: "u32 cpu"

datatype bench_event =
    Warning string
  | Title string
  | Cost string u64 u32
  | Ratios dbl dbl
  | Counts int int int int
  | NumaAlloc int nat
  | Malloc nat
  | NumaFree nat
  | Free

record 'w bench =
  bworld :: 'w
  out :: "bench_event list"

definition put :: "bench_event \<Rightarrow> 'w bench \<Rightarrow> 'w bench" where
  "put e s = s\<lparr>out := out s @ [e]\<rparr>"

definition ask :: "('w \<Rightarrow> 'a \<times> 'w) \<Rightarrow> 'w bench \<Rightarrow> 'a \<times> 'w bench" where
  "ask f s = (let (x, w) = f (bworld s) in (x, s\<lparr>bworld := w\<rparr>))"

section \<open>mypcm.cpp\<close>

definition MEM_UOP_RETIRED :: u32 where "MEM_UOP_RETIRED = 0xD0"
definition LOADS :: u32 where "LOADS = 0x01"
definition MEM_LOAD_UOPS_RETIRED_EVENT :: u32 where "MEM_LOAD_UOPS_RETIRED_EVENT = 0xD1"
definition L1_HIT :: u32 where "L1_HIT = 0x01"
definition L2_HIT :: u32 where "L2_HIT = 0x02"
definition LLC_HIT :: u32 where "LLC_HIT = 0x04"

definition getL1CacheHit :: "rounding \<Rightarrow> CoreCounterState \<Rightarrow> CoreCounterState \<Rightarrow> dbl" where
  "getL1CacheHit rnd a b =
     ddiv rnd (dmul rnd (Num 1) (dbl_u rnd (Event1 b - Event1 a))) (dbl_u rnd (Event0 b - Event0 a))"

definition getL2CacheHit :: "rounding \<Rightarrow> CoreCounterState \<Rightarrow> CoreCounterState \<Rightarrow> dbl" where
  "getL2CacheHit rnd a b =
     ddiv rnd (dmul rnd (Num 1) (dbl_u rnd (Event2 b - Event2 a))) (dbl_u rnd (Event0 b - Event0 a))"

definition getL3CacheHit :: "rounding \<Rightarrow> CoreCounterState \<Rightarrow> CoreCounterState \<Rightarrow> dbl" where
  "getL3CacheHit rnd a b =
     ddiv rnd (dmul rnd (Num 1) (dbl_u rnd (Event3 b - Event3 a))) (dbl_u rnd (Event0 b - Event0 a))"

text \<open>\<open>%d\<close> prints the low 32 bits of the 64-bit difference as a signed number.\<close>

definition as_d :: "u64 \<Rightarrow> int" where
  "as_d x = sint (ucast x :: u32)"

definition dump :: "CoreCounterState \<Rightarrow> CoreCounterState \<Rightarrow> 'w bench \<Rightarrow> 'w bench" where
  "dump a b = put (Counts (as_d (Event1 b - Event1 a)) (as_d (Event2 b - Event2 a))
     (as_d (Event3 b - Event3 a)) (as_d (Event0 b - Event0 a)))"

text \<open>\<open>getCoreCounterState\<close> of core 0.\<close>

definition getCoreCounterState :: "'w bench_env \<Rightarrow> 'w bench \<Rightarrow> CoreCounterState \<times> 'w bench" where
  "getCoreCounterState E = ask (core_counters E)"

text \<open>One element of the array \<open>para\<close>.\<close>

definition para_entry :: "u32 \<times> u32 \<Rightarrow> CustomCoreEventDescription" where
  "para_entry e = \<lparr>event_number = sint (fst e), umask_value = sint (snd e)\<rparr>"

definition initpcm :: "'w bench_env \<Rightarrow> 'w bench \<Rightarrow> int \<times> 'w bench" where
  "initpcm E s =
     (case pcm_object E of
        None \<Rightarrow> (- 1, s)
      | Some m \<Rightarrow> ask (pcm_program_custom E (map para_entry
          [(MEM_UOP_RETIRED, LOADS), (MEM_LOAD_UOPS_RETIRED_EVENT, L1_HIT),
           (MEM_LOAD_UOPS_RETIRED_EVENT, L2_HIT), (MEM_LOAD_UOPS_RETIRED_EVENT, LLC_HIT)])) s)"

section \<open>The timed loops\<close>

text \<open>\<open>atomic::atomic_inc(&ptr[j]); --ptr[j]; j = ptr[j];\<close>\<close>

definition cas_step :: "u32 cpu \<Rightarrow> u32 arr \<Rightarrow> u32 \<Rightarrow> (u32 \<times> u32 arr) option" where
  "cas_step c a j = do {
     v \<leftarrow> arr_read a (unat j);
     (_, v) \<leftarrow> atomic_inc c v;
     a \<leftarrow> arr_write a (unat j) v;
     v \<leftarrow> arr_read a (unat j);
     a \<leftarrow> arr_write a (unat j) (v - 1);
     j \<leftarrow> arr_read a (unat j);
     Some (j, a) }"

primrec cas_chase :: "nat \<Rightarrow> u32 cpu \<Rightarrow> u32 arr \<Rightarrow> u32 \<Rightarrow> (u32 \<times> u32 arr) option" where
  "cas_chase 0 c a j = Some (j, a)"
| "cas_chase (Suc n) c a j = do { (j, a) \<leftarrow> cas_step c a j; cas_chase n c a j }"

definition timed_loop :: "bool \<Rightarrow> u32 cpu \<Rightarrow> u32 \<Rightarrow> u32 arr \<Rightarrow> (u32 \<times> u32 arr) outcome" where
  "timed_loop cas c iter a =
     (case if cas then cas_chase (unat iter) c a 0 else map_option (\<lambda>j. (j, a)) (chase (unat iter) a 0) of
        None \<Rightarrow> OutOfBounds
      | Some r \<Rightarrow> Returned r)"

section \<open>One level\<close>

text \<open>
  What is read before and after the loop and printed: \<open>outputDetailStatistic\<close> of numatest.cpp prints
  two ratios, that of smptest.cpp four counts; \<open>cassmpthread\<close> does neither.
\<close>

datatype probe = RatioProbe | CountProbe | NoProbe

definition read_probe :: "'w bench_env \<Rightarrow> probe \<Rightarrow> 'w bench \<Rightarrow> CoreCounterState \<times> 'w bench" where
  "read_probe E p s = (if p = NoProbe then (basic_init, s) else getCoreCounterState E s)"

definition outputDetailStatistic ::
  "'w bench_env \<Rightarrow> probe \<Rightarrow> CoreCounterState \<Rightarrow> CoreCounterState \<Rightarrow> 'w bench \<Rightarrow> 'w bench outcome" where
  "outputDetailStatistic E p before after s =
     (case p of
        RatioProbe \<Rightarrow>
          (case pcm_object E of
             None \<Rightarrow> OutOfBounds
           | Some m \<Rightarrow> Returned (put (Ratios (getL2CacheHitRatio (double_rounding E) m before after)
               (getL3CacheHitRatio (double_rounding E) m before after)) s))
      | CountProbe \<Rightarrow> Returned (dump before after s)
      | NoProbe \<Rightarrow> Returned s)"

definition cycle_count :: "'w bench_env \<Rightarrow> 'w bench \<Rightarrow> u64 \<times> 'w bench" where
  "cycle_count E s = (let ((lo, hi), s) = ask (rdtsc E) s in (getCycleCount lo hi, s))"

definition bench_size :: u32 where "bench_size = L3CacheSize * 32"

type_synonym level = "string \<times> (u32 arr \<Rightarrow> u32 \<Rightarrow> (u32 \<times> u32 arr) outcome) \<times> (u32 arr \<Rightarrow> u32 \<Rightarrow> (string + u32) outcome)"

definition run_level ::
  "'w bench_env \<Rightarrow> probe \<Rightarrow> bool \<Rightarrow> string \<Rightarrow> u32 \<Rightarrow> level \<Rightarrow> u32 arr \<times> 'w bench \<Rightarrow> (u32 arr \<times> 'w bench) outcome" where
  "run_level E p cas side iter = (\<lambda>(name, build, warm) (a, s).
     on_return (build a bench_size) (\<lambda>(_, a).
     on_return (warm a bench_size) (\<lambda>r.
       let s = (case r of Inl msg \<Rightarrow> put (Warning msg) s | Inr _ \<Rightarrow> s);
           (before, s) = read_probe E p s;
           (begin, s) = cycle_count E s
       in on_return (timed_loop cas (processor E) iter a) (\<lambda>(j, a).
            let (end, s) = cycle_count E s; (after, s) = read_probe E p s
            in if iter = 0 then DividedByZero
               else on_return (outputDetailStatistic E p before after
                      (put (Cost (side @ '' '' @ name) ((end - begin) div ucast iter) j) s))
                    (\<lambda>s. Returned (a, s))))))"

primrec run_levels ::
  "'w bench_env \<Rightarrow> probe \<Rightarrow> bool \<Rightarrow> string \<Rightarrow> u32 \<Rightarrow> level list \<Rightarrow> u32 arr \<times> 'w bench \<Rightarrow> (u32 arr \<times> 'w bench) outcome" where
  "run_levels E p cas side iter [] x = Returned x"
| "run_levels E p cas side iter (l # ls) x =
     on_return (run_level E p cas side iter l x) (run_levels E p cas side iter ls)"

definition levels :: "level list" where
  "levels = [(''L1'', l1h, warmUpL1), (''L2'', l1ml2h, warmUpL2), (''L3'', l2ml3h, warmUpL3), (''me'', l3m, warmUpL4)]"

text \<open>A block of memory as an array of words; a null pointer is an array without elements.\<close>

definition words :: "nat \<Rightarrow> (nat \<Rightarrow> u32) option \<Rightarrow> u32 arr" where
  "words bytes p = (case p of None \<Rightarrow> \<lparr>arr_len = 0, arr_get = (\<lambda>_. 0)\<rparr> | Some f \<Rightarrow> \<lparr>arr_len = bytes div 4, arr_get = f\<rparr>)"

definition bench_bytes :: nat where "bench_bytes = unat sizeof_uint32 * unat bench_size"

section \<open>numatest.cpp\<close>

text \<open>\<open>permuate1\<close>, which no program calls; \<open>rand\<close> is a parameter.\<close>

primrec permuate_loop :: "('w \<Rightarrow> int \<times> 'w) \<Rightarrow> u32 \<Rightarrow> nat \<Rightarrow> u32 arr \<times> 'w \<Rightarrow> (u32 arr \<times> 'w) option" where
  "permuate_loop rand n 0 aw = Some aw"
| "permuate_loop rand n (Suc i) aw =
     do { (a, w) \<leftarrow> permuate_loop rand n i aw;
          let (r, w) = rand w;
          a \<leftarrow> arr_write a i (word_of_int r mod n);
          Some (a, w) }"

definition permuate1 :: "('w \<Rightarrow> int \<times> 'w) \<Rightarrow> u32 arr \<Rightarrow> u32 \<Rightarrow> 'w \<Rightarrow> (u32 arr \<times> 'w) outcome" where
  "permuate1 rand a n w =
     (case permuate_loop rand n (unat n) (a, w) of None \<Rightarrow> OutOfBounds | Some r \<Rightarrow> Returned r)"

lemma permuate_loop_fills:
  assumes "i \<le> arr_len a"
  shows "\<exists>b v. permuate_loop rand n i (a, w) = Some (b, v) \<and> arr_len b = arr_len a \<and>
    (0 < n \<longrightarrow> (\<forall>k < i. arr_get b k < n))"
  using assms
proof (induction i)
  case (Suc i)
  then obtain b v where b: "permuate_loop rand n i (a, w) = Some (b, v)" "arr_len b = arr_len a"
    "0 < n \<longrightarrow> (\<forall>k < i. arr_get b k < n)"
    by auto
  obtain r v' where "rand v = (r, v')"
    by fastforce
  with b Suc.prems show ?case
    by (auto simp: arr_simps less_Suc_eq word_mod_less_divisor)
qed simp

text \<open>Every entry is an index of the array; the array need not become a permutation.\<close>

lemma permuate1_entries:
  assumes "unat n \<le> arr_len a"
  shows "\<exists>b v. permuate1 rand a n w = Returned (b, v) \<and> arr_len b = arr_len a \<and> (\<forall>k < unat n. arr_get b k < n)"
  using permuate_loop_fills [OF assms, of rand n w] by (cases "n = 0") (auto simp: permuate1_def word_gt_0)

text \<open>\<open>Prime\<close> is divisible by 5; no program uses it.\<close>

definition Prime :: int where
  "Prime = 1024 * 1024 * 1024 + 1"

lemma Prime_composite: "Prime = 5 * 214748365"
  by (simp add: Prime_def)

text \<open>
  A \<open>cpu_set_t\<close> is 128 bytes; setting a CPU outside it does nothing. The system call gets the size of
  the set as an argument, which is 1 here: the kernel sees the first byte only.
\<close>

definition CPU_ZERO :: "u8 list" where
  "CPU_ZERO = replicate 128 0"

definition CPU_SET :: "int \<Rightarrow> u8 list \<Rightarrow> u8 list" where
  "CPU_SET cpu bytes =
     (if 0 \<le> cpu \<and> cpu < 1024
      then bytes[nat cpu div 8 := (bytes ! (nat cpu div 8)) OR push_bit (nat cpu mod 8) 1] else bytes)"

definition setAffinity :: "'w bench_env \<Rightarrow> int \<Rightarrow> 'w bench \<Rightarrow> int \<times> 'w bench" where
  "setAffinity E cpu = ask (sched_setaffinity E (take 1 (CPU_SET cpu CPU_ZERO)))"

text \<open>The CPUs in a mask of bytes.\<close>

definition mask_cpus :: "u8 list \<Rightarrow> nat list" where
  "mask_cpus m = filter (\<lambda>i. bit (m ! (i div 8)) (i mod 8)) [0..<8 * length m]"

lemma affinity_first_byte: "take 1 (CPU_SET cpu CPU_ZERO) = [if 0 \<le> cpu \<and> cpu < 8 then push_bit (nat cpu) 1 else 0]"
proof -
  have zero: "CPU_ZERO = 0 # replicate 127 0"
    using replicate_Suc [of 127 "0 :: u8"] by (simp add: CPU_ZERO_def)
  show ?thesis
  proof (cases "0 \<le> cpu \<and> cpu < 8")
    case True
    then have "nat cpu div 8 = 0" "nat cpu mod 8 = nat cpu"
      by (simp_all add: nat_less_iff)
    with True show ?thesis
      by (simp add: CPU_SET_def zero)
  next
    case False
    then have "nat cpu div 8 \<noteq> 0 \<or> cpu < 0"
      by (auto simp: nat_le_iff)
    then have "take 1 (CPU_SET cpu CPU_ZERO) = [0]"
      by (auto simp: CPU_SET_def zero gr0_conv_Suc)
    with False show ?thesis
      by (simp only: if_False)
  qed
qed

lemma affinity_first_cpu [simp]: "take (Suc 0) (CPU_SET 0 CPU_ZERO) = [1]"
  using affinity_first_byte [of 0] by simp

text \<open>Only the first eight CPUs can be chosen; for all others the kernel is given an empty mask.\<close>

lemma affinity_mask: "mask_cpus (take 1 (CPU_SET cpu CPU_ZERO)) = (if 0 \<le> cpu \<and> cpu < 8 then [nat cpu] else [])"
proof (cases "0 \<le> cpu \<and> cpu < 8")
  case True
  then have "nat cpu \<in> {0, 1, 2, 3, 4, 5, 6, 7}"
    by auto
  then have "mask_cpus [push_bit (nat cpu) 1] = [nat cpu]"
    by (auto simp: mask_cpus_def upt_rec bit_push_bit_iff)
  with True show ?thesis
    unfolding affinity_first_byte by simp
next
  case False
  show ?thesis
    unfolding affinity_first_byte if_not_P [OF False] by (simp add: mask_cpus_def)
qed

definition numa_node :: "'w bench_env \<Rightarrow> bool \<Rightarrow> string \<Rightarrow> int \<Rightarrow> u32 \<Rightarrow> 'w bench \<Rightarrow> 'w bench outcome" where
  "numa_node E cas side node iter s =
     (let (p, s) = ask (numa_alloc_onnode E bench_bytes node) s;
          s = (if p = None then s else put (NumaAlloc node bench_bytes) s)
      in on_return (run_levels E RatioProbe cas side iter levels (words bench_bytes p, s))
           (\<lambda>(_, s). Returned (put (NumaFree (unat bench_size)) s)))"

definition numa_thread :: "'w bench_env \<Rightarrow> bool \<Rightarrow> string \<Rightarrow> u32 \<Rightarrow> 'w bench \<Rightarrow> 'w bench outcome" where
  "numa_thread E cas failure iter s =
     (if pcm_object E = None then OutOfBounds
      else
        let s = s\<lparr>bworld := pcm_cleanup E (bworld s)\<rparr>;
            (r, s) = ask (pcm_program E) s;
            s = (if r \<noteq> 0 then put (Warning failure) s else s);
            (r, s) = setAffinity E 0 s
        in if r < 0 then Returned (put (Warning ''bind failure'') s)
           else on_return (numa_node E cas ''local'' 0 iter s) (numa_node E cas ''remote'' 1 iter))"

definition memthread :: "'w bench_env \<Rightarrow> u32 \<Rightarrow> 'w bench \<Rightarrow> 'w bench outcome" where
  "memthread E = numa_thread E False ''pcm open failed''"

definition casthread :: "'w bench_env \<Rightarrow> u32 \<Rightarrow> 'w bench \<Rightarrow> 'w bench outcome" where
  "casthread E = numa_thread E True ''PCM inits not properly''"

text \<open>The option loop of both programs, given the options \<open>getopt\<close> delivers.\<close>

definition ITERCASE :: int where "ITERCASE = 10240000"

primrec iter_options :: "(char \<times> string) list \<Rightarrow> int \<times> 'w bench \<Rightarrow> int \<times> 'w bench" where
  "iter_options [] x = x"
| "iter_options (opt # opts) x =
     iter_options opts
       (if fst opt = CHR ''c'' then (long_to_int (strtol10 (snd opt)), snd x)
        else (fst x, put (Warning ''not support, usage: -c %d'') (snd x)))"

definition bench_main ::
  "'w bench_env \<Rightarrow> (u32 \<Rightarrow> 'w bench \<Rightarrow> 'w bench outcome) \<Rightarrow> (u32 \<Rightarrow> 'w bench \<Rightarrow> 'w bench outcome) \<Rightarrow>
     (char \<times> string) list \<Rightarrow> 'w bench \<Rightarrow> (int \<times> 'w bench) outcome" where
  "bench_main E direct cas opts s =
     (let (iter, s) = iter_options opts (ITERCASE, s);
          (r, s) = ask (numa_available E) s
      in if r = - 1 then Returned (0, put (Warning ''numa lib initilization failed'') s)
         else
           on_return (direct (word_of_int iter) (put (Title ''direct memory access'') s)) (\<lambda>s.
           on_return (cas (word_of_int iter) (put (Title ''cas memory access'') s)) (\<lambda>s.
             Returned (0, s))))"

definition numatest :: "'w bench_env \<Rightarrow> (char \<times> string) list \<Rightarrow> 'w bench \<Rightarrow> (int \<times> 'w bench) outcome" where
  "numatest E = bench_main E (memthread E) (casthread E)"

section \<open>smptest.cpp\<close>

text \<open>\<open>setAffinity\<close> of this file has no argument and chooses CPU 0.\<close>

definition smp_setAffinity :: "'w bench_env \<Rightarrow> 'w bench \<Rightarrow> int \<times> 'w bench" where
  "smp_setAffinity E = ask (sched_setaffinity E (take 1 (CPU_SET 0 CPU_ZERO)))"

lemma smp_setAffinity_eq [simp]: "smp_setAffinity E = setAffinity E 0"
  by (simp add: smp_setAffinity_def setAffinity_def)

definition smp_levels :: "'w bench_env \<Rightarrow> probe \<Rightarrow> bool \<Rightarrow> bench_event \<Rightarrow> u32 \<Rightarrow> 'w bench \<Rightarrow> 'w bench outcome" where
  "smp_levels E p cas release iter s =
     (let (r, s) = smp_setAffinity E s
      in if r < 0 then Returned (put (Warning ''bind failure'') s)
         else
           let (b, s) = ask (c_malloc E bench_bytes) s;
               s = (if b = None then s else put (Malloc bench_bytes) s)
           in on_return (run_levels E p cas ''local'' iter levels (words bench_bytes b, s))
                (\<lambda>(_, s). Returned (put release s)))"

definition smpmemthread :: "'w bench_env \<Rightarrow> u32 \<Rightarrow> 'w bench \<Rightarrow> 'w bench outcome" where
  "smpmemthread E iter s =
     (let (r, s) = initpcm E s;
          s = (if r \<noteq> 0 then put (Warning ''PCM does not open successfully'') s else s)
      in smp_levels E CountProbe False Free iter s)"

definition cassmpthread :: "'w bench_env \<Rightarrow> u32 \<Rightarrow> 'w bench \<Rightarrow> 'w bench outcome" where
  "cassmpthread E iter s = smp_levels E NoProbe True (NumaFree (unat bench_size)) iter s"

definition smptest :: "'w bench_env \<Rightarrow> (char \<times> string) list \<Rightarrow> 'w bench \<Rightarrow> (int \<times> 'w bench) outcome" where
  "smptest E = bench_main E (smpmemthread E) (cassmpthread E)"

end
