(* ===== verification/Pcm_Events.thy ===== *)
theory Pcm_Events
  imports Pcm_Registers Mem_Bench
begin

text \<open>
  The event numbers and unit masks of src/pcm/types.h, the fields of an event select register they are
  written to, and the filters for the PCIe events of src/pcm/cpucounters.h. The events
  that src/mem/mypcm.cpp programs are looked up among them.
\<close>

section \<open>Events\<close>

text \<open>Name, event number and unit mask.\<close>

type_synonym events = "(string \<times> u64 \<times> u64) list"

definition nehalem_events :: events where
  "nehalem_events = [(''MEM_LOAD_RETIRED_L3_MISS'', 0xCB, 0x10), (''MEM_LOAD_RETIRED_L3_UNSHAREDHIT'', 0xCB, 0x04),
     (''MEM_LOAD_RETIRED_L2_HITM'', 0xCB, 0x08), (''MEM_LOAD_RETIRED_L2_HIT'', 0xCB, 0x02)]"

definition sandy_bridge_events :: events where
  "sandy_bridge_events = [(''MEM_LOAD_UOPS_MISC_RETIRED_LLC_MISS'', 0xD4, 0x02),
     (''MEM_LOAD_UOPS_LLC_HIT_RETIRED_XSNP_NONE'', 0xD2, 0x08),
     (''MEM_LOAD_UOPS_LLC_HIT_RETIRED_XSNP_HITM'', 0xD2, 0x04), (''MEM_LOAD_UOPS_LLC_HIT_RETIRED_XSNP'', 0xD2, 0x07),
     (''MEM_LOAD_UOPS_RETIRED_L2_HIT'', 0xD1, 0x02)]"

definition arch_events :: events where
  "arch_events = [(''ARCH_LLC_REFERENCE'', 0x2E, 0x4F), (''ARCH_LLC_MISS'', 0x2E, 0x41)]"

text \<open>These are defined three times in the source, with the same values.\<close>

definition atom_events :: events where
  "atom_events = [(''ATOM_MEM_LOAD_RETIRED_L2_HIT'', 0xCB, 0x01), (''ATOM_MEM_LOAD_RETIRED_L2_MISS'', 0xCB, 0x02)]"

definition uncore_events :: events where
  "uncore_events = [(''UNC_QMC_WRITES_FULL_ANY'', 0x2F, 0x07), (''UNC_QMC_NORMAL_READS_ANY'', 0x2C, 0x07)]"

text \<open>One event with a unit mask for each kind of request.\<close>

definition qhl_events :: events where
  "qhl_events = map (\<lambda>(name, umask). (name, 0x20, umask))
     [(''UNC_QHL_REQUESTS_IOH_READS'', 0x01), (''UNC_QHL_REQUESTS_IOH_WRITES'', 0x02),
      (''UNC_QHL_REQUESTS_REMOTE_READS'', 0x04), (''UNC_QHL_REQUESTS_REMOTE_WRITES'', 0x08),
      (''UNC_QHL_REQUESTS_LOCAL_READS'', 0x10), (''UNC_QHL_REQUESTS_LOCAL_WRITES'', 0x20)]"

lemmas event_tables = nehalem_events_def sandy_bridge_events_def arch_events_def atom_events_def
  uncore_events_def qhl_events_def

text \<open>The events \<open>initpcm\<close> asks for: the loads and the hits in each cache.\<close>

definition cache_events :: "(u32 \<times> u32) list" where
  "cache_events = [(MEM_UOP_RETIRED, LOADS), (MEM_LOAD_UOPS_RETIRED_EVENT, L1_HIT),
     (MEM_LOAD_UOPS_RETIRED_EVENT, L2_HIT), (MEM_LOAD_UOPS_RETIRED_EVENT, LLC_HIT)]"

lemma initpcm_events:
  "pcm_object E = Some m \<Longrightarrow> initpcm E s = ask (pcm_program_custom E (map para_entry cache_events)) s"
  by (simp add: initpcm_def cache_events_def)

text \<open>The second of the hits is the library's own L2 event; the four differ.\<close>

lemma cache_events_of_types_h:
  "(''MEM_LOAD_UOPS_RETIRED_L2_HIT'', ucast MEM_LOAD_UOPS_RETIRED_EVENT, ucast L2_HIT) \<in> set sandy_bridge_events"
  "distinct cache_events"
  by (simp_all add: event_tables cache_events_def MEM_UOP_RETIRED_def LOADS_def
      MEM_LOAD_UOPS_RETIRED_EVENT_def L1_HIT_def L2_HIT_def LLC_HIT_def)

section \<open>Event select registers\<close>

definition select_event :: "layout \<Rightarrow> u64 \<Rightarrow> u64 \<Rightarrow> u64 \<Rightarrow> u64 option" where
  "select_event L event um v = Option.bind (set_field L ''event_select'' event v) (set_field L ''umask'' um)"

lemma bounded_low: "(x :: u64) < 2 ^ k \<Longrightarrow> take_bit k x = x"
  using less_mask_eq [of x k] by (simp add: take_bit_eq_mask)

text \<open>Every event of the tables, and every event the benchmark programs, keeps its number and mask.\<close>

lemma selected_event:
  assumes "event < 2 ^ 8" "um < 2 ^ 8"
  shows "\<exists>w. select_event EventSelectRegister event um v = Some w \<and>
    get_field EventSelectRegister ''event_select'' w = Some event \<and> get_field EventSelectRegister ''umask'' w = Some um"
proof -
  obtain v' where v': "set_field EventSelectRegister ''event_select'' event v = Some v'"
    using event_select.set_defined [of "''event_select''" event v] by (auto simp: EventSelectRegister_def)
  obtain w where w: "set_field EventSelectRegister ''umask'' um v' = Some w"
    using event_select.set_defined [of "''umask''" um v'] by (auto simp: EventSelectRegister_def)
  have at: "field_at 0 EventSelectRegister ''event_select'' = Some (0, 8)" "field_at 0 EventSelectRegister ''umask'' = Some (8, 8)"
    by (simp_all add: EventSelectRegister_def)
  have "get_field EventSelectRegister ''event_select'' w = Some (take_bit 8 event)"
    using event_select.get_set_other [OF w, of "''event_select''"] event_select.get_set_same [OF at(1) v'] by simp
  moreover have "get_field EventSelectRegister ''umask'' w = Some (take_bit 8 um)"
    by (rule event_select.get_set_same [OF at(2) w])
  moreover have "take_bit 8 event = event" "take_bit 8 um = um"
    using assms bounded_low [of _ 8] by simp_all
  ultimately show ?thesis
    using v' w by (simp add: select_event_def)
qed

lemma table_events_fit:
  "(name, event, um) \<in> set (nehalem_events @ sandy_bridge_events @ arch_events @ atom_events @ uncore_events @ qhl_events) \<Longrightarrow>
   event < 2 ^ 8 \<and> um < 2 ^ 8"
  "(e, u) \<in> set cache_events \<Longrightarrow> e < 2 ^ 8 \<and> u < 2 ^ 8"
  by (auto simp: event_tables cache_events_def MEM_UOP_RETIRED_def LOADS_def MEM_LOAD_UOPS_RETIRED_EVENT_def
      L1_HIT_def L2_HIT_def LLC_HIT_def)

section \<open>PCIe events\<close>

definition JKT_CBO_MSR_PMON_BOX_FILTER_OPC :: "u32 \<Rightarrow> u32" where
  "JKT_CBO_MSR_PMON_BOX_FILTER_OPC x = push_bit 23 x"

definition IVTHSX_CBO_MSR_PMON_BOX_FILTER1_OPC :: "u32 \<Rightarrow> u32" where
  "IVTHSX_CBO_MSR_PMON_BOX_FILTER1_OPC x = push_bit 20 x"

text \<open>Every event code has nine bits, so that a filter keeps it and different events have different filters.\<close>

lemma pcie_filters:
  "drop_bit 23 (JKT_CBO_MSR_PMON_BOX_FILTER_OPC (pcie_code e)) = pcie_code e"
  "drop_bit 20 (IVTHSX_CBO_MSR_PMON_BOX_FILTER1_OPC (pcie_code e)) = pcie_code e"
  "JKT_CBO_MSR_PMON_BOX_FILTER_OPC (pcie_code e) = JKT_CBO_MSR_PMON_BOX_FILTER_OPC (pcie_code f) \<longleftrightarrow> e = f"
proof -
  show "drop_bit 23 (JKT_CBO_MSR_PMON_BOX_FILTER_OPC (pcie_code e)) = pcie_code e" for e
    by (cases e) (simp_all add: JKT_CBO_MSR_PMON_BOX_FILTER_OPC_def)
  then show "JKT_CBO_MSR_PMON_BOX_FILTER_OPC (pcie_code e) = JKT_CBO_MSR_PMON_BOX_FILTER_OPC (pcie_code f) \<longleftrightarrow> e = f"
    by (metis pcie_codes_differ)
  show "drop_bit 20 (IVTHSX_CBO_MSR_PMON_BOX_FILTER1_OPC (pcie_code e)) = pcie_code e"
    by (cases e) (simp_all add: IVTHSX_CBO_MSR_PMON_BOX_FILTER1_OPC_def)
qed

end
