(* ===== verification/Pcm_Utils.thy ===== *)
theory Pcm_Utils
  imports C_Numbers
begin

text \<open>
  \<open>unit_format\<close> of src/pcm/utils.h, which prints a count in six columns with a unit; here for \<open>uint64\<close>,
  the type the counters have.
\<close>

section \<open>The function\<close>

text \<open>\<open>%4d\<close>: a signed decimal number, padded with spaces to four columns.\<close>

definition print_d :: "int \<Rightarrow> string" where
  "print_d x = (if x < 0 then CHR ''-'' # decimal (nat (- x)) else decimal (nat x))"

definition pad4 :: "string \<Rightarrow> string" where
  "pad4 s = replicate (4 - length s) (CHR '' '') @ s"

text \<open>\<open>int32(n)\<close>.\<close>

definition int32 :: "u64 \<Rightarrow> int" where
  "int32 n = sint (ucast n :: u32)"

definition unit_format :: "u64 \<Rightarrow> string" where
  "unit_format n =
     (if n \<le> 9999 then pad4 (print_d (int32 n)) @ ''  ''
      else if n \<le> 9999999 then pad4 (print_d (int32 (n div 1000))) @ '' K''
      else if n \<le> 9999999999 then pad4 (print_d (int32 (n div 1000000))) @ '' M''
      else if n \<le> 9999999999999 then pad4 (print_d (int32 (n div 1000000000))) @ '' G''
      else pad4 (print_d (int32 (n div (1000000000 * 1000)))) @ '' T'')"

section \<open>Lengths of decimal numbers\<close>

lemma length_decimal: "n < 10 ^ Suc k \<Longrightarrow> length (decimal n) \<le> Suc k"
proof (induction k arbitrary: n)
  case 0
  then show ?case by (simp add: decimal.simps)
next
  case (Suc k)
  then have "n div 10 < 10 ^ Suc k"
    by (simp add: less_mult_imp_div_less)
  with Suc.IH [of "n div 10"] show ?case
    by (subst decimal.simps) simp
qed

lemma int32_small: "n < 2 ^ 31 \<Longrightarrow> int32 n = int (unat n)"
proof -
  assume n: "n < 2 ^ 31"
  then have u: "unat n < 2 ^ 31"
    by (simp add: word_less_nat_alt)
  have "(ucast n :: u32) = of_nat (unat n)"
    by simp
  then show ?thesis
    using sint_u32_of_nat [of "unat n"] u by (simp add: int32_def)
qed

lemma print_count:
  assumes "unat d = m" "unat n div m < 2 ^ 31"
  shows "print_d (int32 (n div d)) = decimal (unat n div m)"
proof -
  have "unat (n div d) = unat n div m"
    by (simp add: unat_div assms(1))
  with assms(2) show ?thesis
    by (simp add: int32_small word_less_nat_alt print_d_def)
qed

lemma length_pad4: "length s \<le> 4 \<Longrightarrow> length (pad4 s) = 4"
  by (simp add: pad4_def)

lemma print_power:
  "unat n div 1000 ^ k < 2 ^ 31 \<Longrightarrow> unat d = 1000 ^ k \<Longrightarrow> print_d (int32 (n div d)) = decimal (unat n div 1000 ^ k)"
  by (rule print_count)

lemma u64_le_numeral: "(n :: u64) \<le> numeral b \<longleftrightarrow> unat n \<le> unat (numeral b :: u64)"
  by (rule word_le_nat_alt)

lemma div_up: "m < 10000 * d \<Longrightarrow> m div d \<le> (9999 :: nat)"
  using less_mult_imp_div_less [of m 10000 d] by simp

lemma div_low: "10000 * d \<le> m \<Longrightarrow> 0 < d \<Longrightarrow> (9999 :: nat) < m div d"
  using less_eq_div_iff_mult_less_eq [of d 10000 m] by simp

section \<open>Properties\<close>

text \<open>The suffixes of the five ranges.\<close>

definition unit_suffix :: "nat \<Rightarrow> string" where
  "unit_suffix k = ['' '', ''K'', ''M'', ''G'', ''T''] ! k"

definition unit_result :: "u64 \<Rightarrow> nat \<Rightarrow> bool" where
  "unit_result n k \<longleftrightarrow> unit_format n = pad4 (decimal (unat n div 1000 ^ k)) @ '' '' @ unit_suffix k \<and>
     (k < 4 \<longrightarrow> unat n div 1000 ^ k \<le> 9999) \<and> (0 < k \<longrightarrow> 9999 < unat n div 1000 ^ (k - 1))"

lemma unit_0: "unat n \<le> 9999 \<Longrightarrow> unit_result n 0"
  using print_power [of n 0 1] by (simp add: unit_result_def unit_format_def u64_le_numeral unit_suffix_def)

lemma unit_1: "9999 < unat n \<Longrightarrow> unat n \<le> 9999999 \<Longrightarrow> unit_result n 1"
  using print_power [of n 1 1000] div_up [of "unat n" 1000]
  by (simp add: unit_result_def unit_format_def u64_le_numeral unit_suffix_def)

lemma unit_2: "9999999 < unat n \<Longrightarrow> unat n \<le> 9999999999 \<Longrightarrow> unit_result n 2"
  using print_power [of n 2 1000000] div_up [of "unat n" 1000000] div_low [of 1000 "unat n"]
  by (simp add: unit_result_def unit_format_def u64_le_numeral unit_suffix_def)

lemma unit_3: "9999999999 < unat n \<Longrightarrow> unat n \<le> 9999999999999 \<Longrightarrow> unit_result n 3"
  using print_power [of n 3 1000000000] div_up [of "unat n" 1000000000] div_low [of 1000000 "unat n"]
  by (simp add: unit_result_def unit_format_def u64_le_numeral unit_suffix_def)

lemma unit_4:
  assumes "9999999999999 < unat n"
  shows "unit_result n 4"
proof -
  have "unat n < 2 ^ 64"
    using unsigned_less [of n, where ?'a = nat] by simp
  then have "unat n div 1000 ^ 4 < 2 ^ 31"
    by (intro less_mult_imp_div_less) simp
  with assms print_power [of n 4 1000000000000] div_low [of 1000000000 "unat n"] show ?thesis
    by (simp add: unit_result_def unit_format_def u64_le_numeral unit_suffix_def)
qed

lemma six_columns: "unat n div 1000 ^ k < 10 ^ 4 \<Longrightarrow> k \<le> 4 \<Longrightarrow> length (pad4 (decimal (unat n div 1000 ^ k)) @ '' '' @ unit_suffix k) = 6"
proof -
  assume "unat n div 1000 ^ k < 10 ^ 4" "k \<le> 4"
  then have "length (decimal (unat n div 1000 ^ k)) \<le> 4"
    using length_decimal [of "unat n div 1000 ^ k" 3] by simp
  moreover have "length (unit_suffix k) = 1"
    using \<open>k \<le> 4\<close> by (auto simp: unit_suffix_def le_Suc_eq numeral_eq_Suc)
  ultimately show ?thesis
    by (simp add: length_pad4)
qed

text \<open>
  C37: \<open>unit_format\<close> prints the count divided by the smallest power of 1000, up to \<open>1000^4\<close>, that
  leaves at most four digits, rounded down, and the letter of that power; the conversion to \<open>int32\<close>
  never changes the number, and below \<open>10^16\<close> the text has exactly six columns.
\<close>

theorem unit_format_faithful:
  "\<exists>k q. k \<le> 4 \<and> q = unat n div 1000 ^ k \<and> unit_format n = pad4 (decimal q) @ '' '' @ unit_suffix k \<and>
     (k < 4 \<longrightarrow> q \<le> 9999) \<and> (0 < k \<longrightarrow> 9999 < unat n div 1000 ^ (k - 1)) \<and>
     (unat n < 10 ^ 16 \<longrightarrow> length (unit_format n) = 6)"
proof -
  consider "unit_result n 0" | "unit_result n 1" | "unit_result n 2" | "unit_result n 3" | "unit_result n 4"
    using unit_0 [of n] unit_1 [of n] unit_2 [of n] unit_3 [of n] unit_4 [of n] by linarith
  then obtain k where k: "k \<le> 4" "unit_result n k"
    by cases (simp_all add: that [of 0] that [of 1] that [of 2] that [of 3] that [of 4])
  have "unat n div 1000 ^ k < 10 ^ 4" if "unat n < 10 ^ 16"
  proof (cases "k < 4")
    case True
    with k(2) show ?thesis by (simp add: unit_result_def)
  next
    case False
    with k(1) that show ?thesis by (intro less_mult_imp_div_less) simp
  qed
  with six_columns [of n k] k show ?thesis
    unfolding unit_result_def by (intro exI [of _ k] exI [of _ "unat n div 1000 ^ k"]) simp
qed

theorem unit_format_faithful_witness:
  "unit_format 12345678 = pad4 (decimal 12) @ '' M'' \<and> length (unit_format 12345678) = 6"
proof -
  let ?n = "12345678 :: u64"
  obtain k q where *: "k \<le> 4 \<and> q = unat ?n div 1000 ^ k \<and> unit_format ?n = pad4 (decimal q) @ '' '' @ unit_suffix k \<and>
     (k < 4 \<longrightarrow> q \<le> 9999) \<and> (0 < k \<longrightarrow> 9999 < unat ?n div 1000 ^ (k - 1)) \<and>
     (unat ?n < 10 ^ 16 \<longrightarrow> length (unit_format ?n) = 6)"
    using unit_format_faithful [of ?n] by (elim exE)
  then have "k = 0 \<or> k = 1 \<or> k = 2 \<or> k = 3 \<or> k = 4"
    by linarith
  moreover have n: "unat ?n = 12345678"
    by simp
  ultimately have "k = 2"
    using * by (elim disjE) simp_all
  then have "unit_format ?n = pad4 (decimal 12) @ '' M''"
    using * n by (simp add: unit_suffix_def)
  moreover have "unat ?n < 10 ^ 16 \<longrightarrow> length (unit_format ?n) = 6"
    using * by blast
  then have "length (unit_format ?n) = 6"
    using n by simp
  ultimately show ?thesis
    by blast
qed

end
