(* ===== verification/Pcm_Sleep.thy ===== *)
theory Pcm_Sleep
  imports Double_Rounding
begin

text \<open>
  The sleep functions of src/pcm/utils.h, on Linux: what they ask of the operating system. \<open>MySleepMs\<close>
  computes the seconds and nanoseconds of \<open>nanosleep\<close> in \<open>double\<close> arithmetic.
\<close>

section \<open>The functions\<close>

record timespec =
  tv_sec :: int
  tv_nsec :: int

datatype sleep_call = Sleep int | Nanosleep timespec | Usleep int

text \<open>\<open>modf\<close>: the fractional part and the number rounded towards zero, both exact.\<close>

definition truncated :: "real \<Rightarrow> int" where
  "truncated x = (if x < 0 then \<lceil>x\<rceil> else \<lfloor>x\<rfloor>)"

definition modf :: "real \<Rightarrow> real \<times> real" where
  "modf x = (x - of_int (truncated x), of_int (truncated x))"

definition MySleep :: "int \<Rightarrow> sleep_call" where
  "MySleep delay = Sleep delay"

definition MySleepMs :: "rounding \<Rightarrow> int \<Rightarrow> sleep_call" where
  "MySleepMs rnd delay_ms =
     (let (fraction, complete_seconds) = modf (rnd (rnd (of_int delay_ms) / 1000))
      in Nanosleep \<lparr>tv_sec = truncated complete_seconds, tv_nsec = truncated (rnd (1000000000 * fraction))\<rparr>)"

definition MySleepUs :: "int \<Rightarrow> sleep_call" where
  "MySleepUs delay_us = Usleep delay_us"

text \<open>\<open>nanosleep\<close> fails at once with \<open>EINVAL\<close> on a negative second or a nanosecond out of range.\<close>

definition valid_timespec :: "timespec \<Rightarrow> bool" where
  "valid_timespec t \<longleftrightarrow> 0 \<le> tv_sec t \<and> 0 \<le> tv_nsec t \<and> tv_nsec t < 1000000000"

section \<open>The error of the conversion\<close>

lemma truncated_minus: "truncated (- x) = - truncated x"
  by (auto simp: truncated_def ceiling_def)

lemma truncated_of_int [simp]: "truncated (of_int n) = n"
  by (simp add: truncated_def)

lemma modf_minus: "modf (- x) = (- fst (modf x), - snd (modf x))"
  by (simp add: modf_def truncated_minus)

lemma double_round_int32: "\<bar>n\<bar> \<le> 2 ^ 31 \<Longrightarrow> double_round (of_int n) = of_int n"
  by (rule double_round_int) simp

lemma MySleepMs_minus:
  assumes "\<bar>ms\<bar> \<le> 2 ^ 31" "MySleepMs double_round ms = Nanosleep t"
  shows "MySleepMs double_round (- ms) = Nanosleep \<lparr>tv_sec = - tv_sec t, tv_nsec = - tv_nsec t\<rparr>"
proof -
  have t: "t = \<lparr>tv_sec = truncated (snd (modf (double_round (of_int ms / 1000)))),
      tv_nsec = truncated (double_round (1000000000 * fst (modf (double_round (of_int ms / 1000)))))\<rparr>"
    using assms(2) double_round_int32 [OF assms(1)] by (simp add: MySleepMs_def split_def Let_def)
  have "double_round (of_int (- ms)) = of_int (- ms)"
    using assms(1) by (intro double_round_int32) simp
  then have "MySleepMs double_round (- ms) = Nanosleep \<lparr>tv_sec = truncated (snd (modf (- double_round (of_int ms / 1000)))),
      tv_nsec = truncated (double_round (1000000000 * fst (modf (- double_round (of_int ms / 1000)))))\<rparr>"
    by (simp add: MySleepMs_def split_def Let_def flip: double_round_minus)
  then show ?thesis
    by (simp add: t modf_minus double_round_minus truncated_minus)
qed

lemma whole_seconds:
  assumes "ms mod 1000 = 0"
  shows "of_int ms / 1000 = (of_int (ms div 1000) :: real)"
proof -
  obtain k where "ms = 1000 * k"
    using assms by (auto elim: dvdE simp: mod_eq_0_iff_dvd)
  then show ?thesis
    by simp
qed

text \<open>The quotient is off by less than \<open>10 ^ -9 / 4\<close>.\<close>

lemma quotient_error:
  assumes "0 \<le> ms" "ms \<le> 2 ^ 31"
  shows "\<bar>double_round (of_int ms / 1000) - of_int ms / 1000\<bar> \<le> 1 / 4000000000"
proof -
  have "\<bar>of_int ms / 1000\<bar> / 2 ^ 53 \<le> 1 / (4000000000 :: real)"
    using assms by simp
  with double_round_error [of "of_int ms / 1000"] show ?thesis
    by linarith
qed

lemma truncated_quotient:
  assumes "0 \<le> ms" "ms \<le> 2 ^ 31"
  shows "truncated (double_round (of_int ms / 1000)) = ms div 1000"
proof (cases "ms mod 1000 = 0")
  case True
  then have "of_int ms / 1000 = (of_int (ms div 1000) :: real)"
    by (rule whole_seconds)
  then show ?thesis
    using double_round_int [of "ms div 1000"] assms by simp
next
  case False
  define s r where "s = ms div 1000" and "r = ms mod 1000"
  have "ms = 1000 * s + r" "1 \<le> r" "r \<le> 999"
    using False by (simp_all add: s_def r_def)
  then have "of_int s + 1 / 1000 \<le> (of_int ms / 1000 :: real)" "(of_int ms / 1000 :: real) \<le> of_int s + 999 / 1000"
    by (simp_all add: field_simps)
  with quotient_error [OF assms] have "of_int s \<le> double_round (of_int ms / 1000)" "double_round (of_int ms / 1000) < of_int s + 1"
    by linarith+
  moreover have "0 \<le> s"
    using assms by (simp add: s_def)
  ultimately show ?thesis
    unfolding truncated_def s_def [symmetric] by (simp add: floor_eq_iff)
qed

lemma nanoseconds:
  assumes "0 \<le> ms" "ms \<le> 2 ^ 31"
  shows "truncated (double_round (1000000000 * (double_round (of_int ms / 1000) - of_int (ms div 1000))))
     \<in> {1000000 * (ms mod 1000) - 1, 1000000 * (ms mod 1000)} \<and>
    0 \<le> truncated (double_round (1000000000 * (double_round (of_int ms / 1000) - of_int (ms div 1000))))"
proof (cases "ms mod 1000 = 0")
  case True
  then have "of_int ms / 1000 = (of_int (ms div 1000) :: real)"
    by (rule whole_seconds)
  then show ?thesis
    using double_round_int [of "ms div 1000"] assms True by (simp add: double_round_sign truncated_def)
next
  case False
  define s r where "s = ms div 1000" and "r = ms mod 1000"
  have r: "ms = 1000 * s + r" "1 \<le> r" "r \<le> 999"
    using False by (simp_all add: s_def r_def)
  define q where "q = double_round (of_int ms / 1000)"
  define f where "f = 1000000000 * (q - of_int s)"
  have "of_int ms / 1000 = (of_int s + of_int r / 1000 :: real)"
    using r(1) by simp
  moreover have "f - of_int (1000000 * r) = 1000000000 * (q - (of_int s + of_int r / 1000))"
    by (simp add: f_def field_simps)
  ultimately have "f - of_int (1000000 * r) = 1000000000 * (q - of_int ms / 1000)"
    by (simp only:)
  then have "\<bar>f - of_int (1000000 * r)\<bar> = 1000000000 * \<bar>q - of_int ms / 1000\<bar>"
    by (simp only: abs_mult abs_numeral)
  with quotient_error [OF assms] have "\<bar>f - of_int (1000000 * r)\<bar> \<le> 1 / 4"
    unfolding q_def [symmetric] by simp
  moreover have "of_int r \<le> (of_int 999 :: real)"
    using r(3) by (simp only: of_int_le_iff)
  then have "0 \<le> (of_int (1000000 * r) :: real)" "(of_int (1000000 * r) :: real) \<le> 999000000"
    using r(2) by simp_all
  ultimately have "\<bar>f\<bar> \<le> 999000001"
    by linarith
  then have "\<bar>f\<bar> / 2 ^ 53 \<le> 1 / 4"
    by simp
  with \<open>\<bar>f - of_int (1000000 * r)\<bar> \<le> 1 / 4\<close> have "\<bar>double_round f - of_int (1000000 * r)\<bar> \<le> 1 / 2"
    using double_round_error [of f] by linarith
  then have "of_int (1000000 * r) - 1 \<le> double_round f" "double_round f < of_int (1000000 * r) + 1"
    by linarith+
  then have "of_int (1000000 * r - 1) \<le> double_round f" "double_round f < of_int (1000000 * r + 1)"
    by simp_all
  moreover from this(1) r(2) have "0 \<le> double_round f"
    by simp
  then have "truncated (double_round f) = \<lfloor>double_round f\<rfloor>"
    by (simp add: truncated_def)
  moreover have "1000000 * r - 1 \<le> \<lfloor>double_round f\<rfloor>" "\<lfloor>double_round f\<rfloor> < 1000000 * r + 1"
    using calculation(1,2) by (simp_all only: le_floor_iff floor_less_iff)
  ultimately have "truncated (double_round f) \<in> {1000000 * r - 1, 1000000 * r}"
    by auto
  then show ?thesis
    using r(2) unfolding s_def [symmetric] r_def [symmetric] q_def [symmetric] f_def [symmetric] by auto
qed

lemma sleep_ms_nonneg:
  assumes "0 \<le> ms" "ms \<le> 2 ^ 31"
  shows "\<exists>t. MySleepMs double_round ms = Nanosleep t \<and> valid_timespec t \<and>
     tv_sec t = ms div 1000 \<and> tv_nsec t \<in> {1000000 * (ms mod 1000) - 1, 1000000 * (ms mod 1000)}"
proof -
  have "double_round (of_int ms) = of_int ms"
    using assms by (intro double_round_int32) simp
  moreover have "ms mod 1000 \<le> 999" "0 \<le> ms div 1000"
    using assms by (simp_all add: pos_imp_zdiv_nonneg_iff)
  ultimately show ?thesis
    using nanoseconds [OF assms] truncated_quotient [OF assms]
    by (intro exI [of _ "\<lparr>tv_sec = ms div 1000, tv_nsec =
        truncated (double_round (1000000000 * (double_round (of_int ms / 1000) - of_int (ms div 1000))))\<rparr>"])
      (auto simp: MySleepMs_def modf_def valid_timespec_def)
qed

lemma opposite_invalid: "0 < tv_sec t \<or> 0 < tv_nsec t \<Longrightarrow> \<not> valid_timespec \<lparr>tv_sec = - tv_sec t, tv_nsec = - tv_nsec t\<rparr>"
  by (auto simp: valid_timespec_def)

lemma positive_delay:
  assumes "0 < m" "tv_sec t = m div 1000" "tv_nsec t = 1000000 * (m mod 1000) - 1 \<or> tv_nsec t = 1000000 * (m mod 1000)"
  shows "0 < tv_sec t \<or> 0 < tv_nsec t"
proof -
  define d r where "d = m div 1000" and "r = m mod 1000"
  have "m = 1000 * d + r" "0 \<le> r"
    by (simp_all add: d_def r_def)
  with assms(1) have "0 < d \<or> 1 \<le> r"
    by linarith
  with assms(2,3) show ?thesis
    unfolding d_def [symmetric] r_def [symmetric] by (elim disjE) simp_all
qed

lemma sleep_ms_negative:
  assumes "ms < 0" "- (2 ^ 31) \<le> ms"
  shows "\<exists>t. MySleepMs double_round ms = Nanosleep t \<and> \<not> valid_timespec t"
proof -
  obtain m where m: "0 \<le> m" "m \<le> 2 ^ 31" "0 < m" "ms = - m"
    using assms by (intro that [of "- ms"]) simp_all
  from sleep_ms_nonneg [OF m(1,2)] obtain t where t: "MySleepMs double_round m = Nanosleep t"
    "tv_sec t = m div 1000" "tv_nsec t \<in> {1000000 * (m mod 1000) - 1, 1000000 * (m mod 1000)}"
    by (elim exE conjE) (rule that)
  from t(3) have "tv_nsec t = 1000000 * (m mod 1000) - 1 \<or> tv_nsec t = 1000000 * (m mod 1000)"
    by (simp only: insert_iff empty_iff simp_thms)
  from opposite_invalid [OF positive_delay [OF m(3) t(2) this]]
  have "\<not> valid_timespec \<lparr>tv_sec = - tv_sec t, tv_nsec = - tv_nsec t\<rparr>" .
  moreover have "\<bar>m\<bar> \<le> 2 ^ 31"
    using m(1,2) by linarith
  from MySleepMs_minus [OF this t(1)]
  have "MySleepMs double_round ms = Nanosleep \<lparr>tv_sec = - tv_sec t, tv_nsec = - tv_nsec t\<rparr>"
    by (simp only: m(4))
  ultimately show ?thesis
    by (intro exI conjI)
qed

section \<open>Properties\<close>

text \<open>
  C38: for every delay of an \<open>int\<close> of milliseconds, \<open>MySleepMs\<close> asks for the whole seconds exactly and for
  the rest in nanoseconds, at most one nanosecond too few, always in the range \<open>nanosleep\<close> takes; for a
  negative delay the call is invalid, so the program does not sleep.
\<close>

theorem sleep_ms_accurate:
  "(0 \<le> ms \<and> ms < 2 ^ 31 \<longrightarrow> (\<exists>t. MySleepMs double_round ms = Nanosleep t \<and> valid_timespec t \<and>
     tv_sec t = ms div 1000 \<and> tv_nsec t \<in> {1000000 * (ms mod 1000) - 1, 1000000 * (ms mod 1000)})) \<and>
   (ms < 0 \<and> - (2 ^ 31) \<le> ms \<longrightarrow> (\<exists>t. MySleepMs double_round ms = Nanosleep t \<and> \<not> valid_timespec t))"
proof (intro conjI impI)
  show "\<exists>t. MySleepMs double_round ms = Nanosleep t \<and> valid_timespec t \<and> tv_sec t = ms div 1000 \<and>
      tv_nsec t \<in> {1000000 * (ms mod 1000) - 1, 1000000 * (ms mod 1000)}" if "0 \<le> ms \<and> ms < 2 ^ 31"
    by (rule sleep_ms_nonneg) (use that in simp_all)
  show "\<exists>t. MySleepMs double_round ms = Nanosleep t \<and> \<not> valid_timespec t" if "ms < 0 \<and> - (2 ^ 31) \<le> ms"
    by (rule sleep_ms_negative) (use that in simp_all)
qed

theorem sleep_ms_accurate_witness:
  "\<exists>t. MySleepMs double_round 1500 = Nanosleep t \<and> tv_sec t = 1 \<and> tv_nsec t \<in> {499999999, 500000000}"
proof -
  have "(1500 :: int) div 1000 = 1" "(1500 :: int) mod 1000 = 500"
    by simp_all
  with sleep_ms_accurate [of 1500, THEN conjunct1] show ?thesis
    by auto
qed

end
