(* ===== verification/Win_Sleep.thy ===== *)
theory Win_Sleep
  imports CS_Prelude
begin

text \<open>
  The sleep functions of src/pcm/utils.h as they are compiled on Windows: \<open>MySleep\<close> and \<open>MySleepMs\<close> call
  \<open>Sleep\<close>, \<open>MySleepUs\<close> waits in a loop for the performance counter. The system calls are parameters.
\<close>

section \<open>The functions\<close>

text \<open>
  \<open>Sleep\<close> takes an unsigned number of 32 bits, of which the largest means for ever. The results are the
  argument of the call, \<open>None\<close> when there is none; the product of \<open>MySleep\<close> is a signed \<open>int\<close>.
\<close>

definition INFINITE :: u32 where
  "INFINITE = 0xFFFFFFFF"

definition MySleep_win :: "int \<Rightarrow> u32 option outcome" where
  "MySleep_win delay =
     (if delay = 0 then Returned None
      else if - (2 ^ 31) \<le> delay * 1000 \<and> delay * 1000 < 2 ^ 31 then Returned (Some (word_of_int (delay * 1000)))
      else Undefined)"

definition MySleepMs_win :: "int \<Rightarrow> u32 option" where
  "MySleepMs_win delay_ms = (if delay_ms \<noteq> 0 then Some (word_of_int delay_ms) else None)"

text \<open>The loop of \<open>win_usleep\<close>; \<open>qpc\<close> is \<open>QueryPerformanceCounter\<close>.\<close>

partial_function (option) wait_loop :: "('w \<Rightarrow> u64 \<times> 'w) \<Rightarrow> u64 \<Rightarrow> u64 \<Rightarrow> 'w \<Rightarrow> 'w option" where
  "wait_loop qpc t1 wait_tick w =
     (let (t2, w) = qpc w in if t2 - t1 < wait_tick then wait_loop qpc t1 wait_tick w else Some w)"

definition win_usleep :: "('w \<Rightarrow> u64 \<times> 'w) \<Rightarrow> ('w \<Rightarrow> u64 \<times> 'w) \<Rightarrow> int \<Rightarrow> 'w \<Rightarrow> 'w outcome" where
  "win_usleep qpf qpc delay_us w =
     (let (freq, w) = qpf w; wait_tick = freq * word_of_int delay_us div 1000000; (t1, w) = qpc w
      in of_loop (map_option Returned (wait_loop qpc t1 wait_tick w)))"

definition MySleepUs_win :: "('w \<Rightarrow> u64 \<times> 'w) \<Rightarrow> ('w \<Rightarrow> u64 \<times> 'w) \<Rightarrow> int \<Rightarrow> 'w \<Rightarrow> 'w outcome" where
  "MySleepUs_win qpf qpc delay_us w = (if delay_us \<noteq> 0 then win_usleep qpf qpc delay_us w else Returned w)"

section \<open>The calls of \<open>Sleep\<close>\<close>

text \<open>A delay that is not negative is passed on; of all others, \<open>-1\<close> millisecond is the one that never ends.\<close>

lemma MySleepMs_win_argument:
  assumes "- (2 ^ 31) \<le> ms" "ms < 2 ^ 31"
  shows "0 < ms \<Longrightarrow> \<exists>d. MySleepMs_win ms = Some d \<and> uint d = ms"
    and "MySleepMs_win ms = Some INFINITE \<longleftrightarrow> ms = - 1"
proof -
  show "\<exists>d. MySleepMs_win ms = Some d \<and> uint d = ms" if "0 < ms"
    using that assms by (simp add: MySleepMs_win_def uint_word_of_int_eq take_bit_int_eq_self)
  have "(word_of_int ms :: u32) = word_of_int (- 1) \<longleftrightarrow> ms = - 1"
  proof
    assume "(word_of_int ms :: u32) = word_of_int (- 1)"
    then have "sint (word_of_int ms :: u32) = sint (word_of_int (- 1) :: u32)"
      by (simp only:)
    with assms show "ms = - 1"
      by (simp add: sint_sbintrunc' signed_take_bit_int_eq_self)
  qed simp
  moreover have "INFINITE = word_of_int (- 1)"
    by (simp add: INFINITE_def)
  ultimately show "MySleepMs_win ms = Some INFINITE \<longleftrightarrow> ms = - 1"
    by (auto simp only: MySleepMs_win_def split: if_splits)
qed

text \<open>\<open>MySleep\<close> overflows from 2147484 seconds on, which are less than 25 days.\<close>

lemma MySleep_win_overflow:
  "MySleep_win delay = Undefined \<longleftrightarrow> delay < - 2147483 \<or> 2147483 < delay"
  by (auto simp: MySleep_win_def)

section \<open>The waiting loop\<close>

text \<open>A counter whose \<open>i\<close>-th reading is \<open>c i\<close>, and its frequency.\<close>

definition counter_reading :: "(nat \<Rightarrow> nat) \<Rightarrow> nat \<Rightarrow> u64 \<times> nat" where
  "counter_reading c i = (of_nat (c i), Suc i)"

definition counter_frequency :: "nat \<Rightarrow> nat \<Rightarrow> u64 \<times> nat" where
  "counter_frequency f i = (of_nat f, i)"

text \<open>The ticks to wait, with the product as the program computes it.\<close>

definition ticks_to_wait :: "nat \<Rightarrow> int \<Rightarrow> nat" where
  "ticks_to_wait f us = nat ((int f * us) mod 2 ^ 64) div 1000000"

lemma ticks_positive:
  assumes "0 \<le> us" "us < 2 ^ 31" "f < 2 ^ 33"
  shows "ticks_to_wait f us = f * nat us div 1000000"
proof -
  have "int f * us \<le> 2 ^ 33 * 2 ^ 31"
    using assms by (intro mult_mono) auto
  moreover have "int f * us \<noteq> 2 ^ 33 * 2 ^ 31"
    using assms mult_strict_mono [of "int f" "2 ^ 33" us "2 ^ 31"] by auto
  ultimately have "(int f * us) mod 2 ^ 64 = int f * us"
    using assms by (intro mod_pos_pos_trivial) auto
  then show ?thesis
    using assms(1) by (simp add: ticks_to_wait_def nat_mult_distrib)
qed

lemma ticks_negative:
  assumes "us < 0" "- (2 ^ 30) \<le> us" "0 < f" "f < 2 ^ 33"
  shows "2 ^ 63 div 1000000 \<le> ticks_to_wait f us"
proof -
  have "int f * (- us) \<le> 2 ^ 33 * 2 ^ 30"
    using assms by (intro mult_mono) auto
  moreover have "0 < int f * (- us)"
    using assms by (intro mult_pos_pos) auto
  ultimately have "(int f * us) mod 2 ^ 64 = int f * us + 2 ^ 64"
    using mod_add_self2 [of "int f * us" "2 ^ 64"] mod_pos_pos_trivial [of "int f * us + 2 ^ 64" "2 ^ 64"] by simp
  with \<open>int f * (- us) \<le> 2 ^ 33 * 2 ^ 30\<close> have "2 ^ 63 \<le> nat ((int f * us) mod 2 ^ 64)"
    by (simp add: le_nat_iff)
  then show ?thesis
    unfolding ticks_to_wait_def by (rule div_le_mono)
qed

lemma wait_tick_value: "unat ((of_nat f :: u64) * word_of_int us div 1000000) = ticks_to_wait f us"
proof -
  have "(of_nat f :: u64) * word_of_int us = word_of_int (int f * us)"
    by (simp only: of_int_mult of_int_of_nat_eq)
  then have "unat ((of_nat f :: u64) * word_of_int us) = nat ((int f * us) mod 2 ^ LENGTH(64))"
    by (simp only: unat_eq_nat_uint uint_word_of_int)
  moreover have "unat (1000000 :: u64) = 1000000" "LENGTH(64) = 64"
    by simp_all
  ultimately show ?thesis
    by (simp only: unat_div ticks_to_wait_def)
qed

text \<open>The counter does not go back, and no two readings are so far apart that the difference wraps.\<close>

definition steady_counter :: "(nat \<Rightarrow> nat) \<Rightarrow> bool" where
  "steady_counter c \<longleftrightarrow> (\<forall>i. c i \<le> c (Suc i) \<and> c (Suc i) - c i < 2 ^ 63)"

text \<open>The loop ends after reading number \<open>i\<close>, and not before.\<close>

definition first_reached :: "(nat \<Rightarrow> nat) \<Rightarrow> nat \<Rightarrow> nat \<Rightarrow> nat \<Rightarrow> bool" where
  "first_reached c w ticks i \<longleftrightarrow> w < i \<and> ticks \<le> c i - c w \<and> (\<forall>j. w < j \<and> j < i \<longrightarrow> c j - c w < ticks)"

lemma steady_mono: "steady_counter c \<Longrightarrow> i \<le> j \<Longrightarrow> c i \<le> c j"
  by (rule lift_Suc_mono_le) (auto simp: steady_counter_def)

lemma elapsed_word:
  assumes "steady_counter c" "w \<le> i" "c i - c w < 2 ^ 64"
  shows "unat ((of_nat (c i) :: u64) - of_nat (c w)) = c i - c w"
proof -
  have "(of_nat (c i) :: u64) - of_nat (c w) = of_nat (c i - c w)"
    using steady_mono [OF assms(1,2)] by (simp add: of_nat_diff)
  with assms(3) show ?thesis
    by (simp add: unat_of_nat_small)
qed

lemma wait_loop_ends:
  assumes "steady_counter c" "unat d = t" "t < 2 ^ 63"
  shows "first_reached c w t i \<Longrightarrow> w < n \<Longrightarrow> n \<le> i \<Longrightarrow> c (n - 1) - c w < max t 1 \<Longrightarrow>
    wait_loop (counter_reading c) (of_nat (c w)) d n = Some (Suc i)"
proof (induction "i - n" arbitrary: n)
  case (0 n)
  then have "n = i"
    by simp
  have step: "c i - c (i - 1) < 2 ^ 63" "c (i - 1) \<le> c i" "c w \<le> c (i - 1)"
    using assms(1) steady_mono [OF assms(1), of w "i - 1"] 0(3) \<open>n = i\<close>
    by (auto simp: steady_counter_def dest!: spec [of _ "i - 1"])
  then have "c i - c w < 2 ^ 64"
    using 0(5) \<open>n = i\<close> assms(3) by auto
  then have "\<not> (of_nat (c i) :: u64) - of_nat (c w) < d"
    using elapsed_word [OF assms(1), of w i] 0(2,3) \<open>n = i\<close> assms(2) by (simp add: word_less_nat_alt first_reached_def)
  with \<open>n = i\<close> show ?case
    by (subst wait_loop.simps) (simp add: counter_reading_def)
next
  case (Suc k n)
  then have below: "c n - c w < t"
    by (simp add: first_reached_def)
  then have "(of_nat (c n) :: u64) - of_nat (c w) < d"
    using elapsed_word [OF assms(1), of w n] Suc.prems(2) assms(2,3) by (simp add: word_less_nat_alt)
  moreover have "wait_loop (counter_reading c) (of_nat (c w)) d (Suc n) = Some (Suc i)"
    by (rule Suc.hyps(1)) (use Suc below in auto)
  ultimately show ?case
    by (subst wait_loop.simps) (simp add: counter_reading_def)
qed

lemma wait_loop_stops_at:
  assumes "wait_loop (counter_reading c) t1 d n = Some v"
  shows "\<exists>i \<ge> n. v = Suc i \<and> \<not> (of_nat (c i) :: u64) - t1 < d"
proof -
  have "qpc = counter_reading c \<Longrightarrow> \<exists>i \<ge> n. v = Suc i \<and> \<not> (of_nat (c i) :: u64) - t1 < d"
    if "wait_loop qpc t1 d n = Some v" for qpc and n :: nat
    using that
  proof (induction rule: wait_loop.raw_induct [rotated, consumes 1])
    case (1 loop qpc t1 d n v)
    show ?case
    proof (cases "of_nat (c n) - t1 < d")
      case True
      with 1(2,3) have "loop qpc t1 d (Suc n) = Some v"
        by (simp add: counter_reading_def)
      from 1(1) [OF this 1(3)] show ?thesis
        using Suc_leD by blast
    next
      case False
      with 1(2,3) show ?thesis
        by (auto simp: counter_reading_def)
    qed
  qed
  with assms show ?thesis
    by blast
qed

lemma first_exists:
  assumes "w < i" "t \<le> c i - c w"
  obtains j where "first_reached c w t j"
proof -
  let ?P = "\<lambda>j. w < j \<and> t \<le> c j - c w"
  have "first_reached c w t (LEAST j. ?P j)"
    using LeastI [of ?P i] not_less_Least [of _ ?P] assms by (auto simp: first_reached_def not_le [symmetric])
  then show thesis
    by (rule that)
qed

lemma first_unique: "first_reached c w t i \<Longrightarrow> first_reached c w t j \<Longrightarrow> i = j"
  by (metis first_reached_def linorder_neqE_nat not_less)

section \<open>Properties\<close>



end
