(* ===== verification/Asynch_Counter.thy ===== *)
theory Asynch_Counter
  imports Pcm_Metrics
begin

text \<open>
  src/pcm/cpuasynchcounter.h: a thread that reads all counters once a second and keeps the last two
  readings, and the accessors that evaluate a metric on them. Both sides hold \<open>CounterMutex\<close>, so an
  access sees the state between two updates. Reading the counters is done by the library: \<open>readings\<close>
  are parameters on a world.
\<close>

record 'w readings =
  read_core :: "u32 \<Rightarrow> 'w \<Rightarrow> CoreCounterState \<times> 'w"
  read_socket :: "u32 \<Rightarrow> 'w \<Rightarrow> SocketCounterState \<times> 'w"
  read_system :: "'w \<Rightarrow> SystemCounterState \<times> 'w"

record async_state =
  cstates1 :: "CoreCounterState list"
  cstates2 :: "CoreCounterState list"
  skstates1 :: "SocketCounterState list"
  skstates2 :: "SocketCounterState list"
  sstate1 :: SystemCounterState
  sstate2 :: SystemCounterState

text \<open>Reading the elements \<open>0 .. n - 1\<close> one after the other, and reading each of them twice.\<close>

primrec read_all :: "(u32 \<Rightarrow> 'w \<Rightarrow> 'a \<times> 'w) \<Rightarrow> nat \<Rightarrow> 'w \<Rightarrow> 'a list \<times> 'w" where
  "read_all f 0 w = ([], w)"
| "read_all f (Suc n) w = (let (xs, w) = read_all f n w; (x, w) = f (of_nat n) w in (xs @ [x], w))"

primrec read_twice :: "(u32 \<Rightarrow> 'w \<Rightarrow> 'a \<times> 'w) \<Rightarrow> nat \<Rightarrow> 'w \<Rightarrow> ('a list \<times> 'a list) \<times> 'w" where
  "read_twice f 0 w = (([], []), w)"
| "read_twice f (Suc n) w =
     (let ((xs, ys), w) = read_twice f n w; (x, w) = f (of_nat n) w; (y, w) = f (of_nat n) w
      in ((xs @ [x], ys @ [y]), w))"

text \<open>The constructor; \<open>None\<close> is \<open>exit(-1)\<close>, when \<open>program()\<close> does not return \<open>Success\<close> (0).\<close>

definition AsynchronCounterState ::
  "'w readings \<Rightarrow> pcm \<Rightarrow> int \<Rightarrow> SystemCounterState \<Rightarrow> 'w \<Rightarrow> (async_state \<times> 'w) option" where
  "AsynchronCounterState R m status blank w =
     (if status \<noteq> error_code Success then None
      else (let ((c1, c2), w) = read_twice (read_core R) (unat (numCores m)) w;
                ((k1, k2), w) = read_twice (read_socket R) (unat (numSockets m)) w
            in Some (\<lparr>cstates1 = c1, cstates2 = c2, skstates1 = k1, skstates2 = k2, sstate1 = blank, sstate2 = blank\<rparr>, w)))"

text \<open>One round of \<open>UpdateCounters\<close>.\<close>

definition update_counters :: "'w readings \<Rightarrow> pcm \<Rightarrow> async_state \<times> 'w \<Rightarrow> async_state \<times> 'w" where
  "update_counters R m = (\<lambda>(s, w).
     let (c, w) = read_all (read_core R) (unat (numCores m)) w;
         s = s\<lparr>cstates1 := cstates2 s, cstates2 := c\<rparr>;
         (k, w) = read_all (read_socket R) (unat (numSockets m)) w;
         s = s\<lparr>skstates1 := skstates2 s, skstates2 := k\<rparr>;
         (y, w) = read_system R w
     in (s\<lparr>sstate1 := sstate2 s, sstate2 := y\<rparr>, w))"

text \<open>The accessors.\<close>

definition get_core :: "(CoreCounterState \<Rightarrow> CoreCounterState \<Rightarrow> 'r) \<Rightarrow> async_state \<Rightarrow> u32 \<Rightarrow> 'r option" where
  "get_core func s core =
     do { x \<leftarrow> at_index (cstates1 s) (uint core); y \<leftarrow> at_index (cstates2 s) (uint core); Some (func x y) }"

definition get_core_param ::
  "(int \<Rightarrow> CoreCounterState \<Rightarrow> CoreCounterState \<Rightarrow> 'r) \<Rightarrow> async_state \<Rightarrow> int \<Rightarrow> u32 \<Rightarrow> 'r option" where
  "get_core_param func s param core = get_core (func param) s core"

definition getSocket :: "(SocketCounterState \<Rightarrow> SocketCounterState \<Rightarrow> 'r) \<Rightarrow> async_state \<Rightarrow> u32 \<Rightarrow> 'r option" where
  "getSocket func s sk =
     do { x \<leftarrow> at_index (skstates1 s) (uint sk); y \<leftarrow> at_index (skstates2 s) (uint sk); Some (func x y) }"

definition getSocket_param ::
  "(int \<Rightarrow> SocketCounterState \<Rightarrow> SocketCounterState \<Rightarrow> 'r) \<Rightarrow> async_state \<Rightarrow> int \<Rightarrow> u32 \<Rightarrow> 'r option" where
  "getSocket_param func s param sk = getSocket (func param) s sk"

definition getSocket_link ::
  "(u32 \<Rightarrow> u32 \<Rightarrow> SystemCounterState \<Rightarrow> SystemCounterState \<Rightarrow> 'r) \<Rightarrow> async_state \<Rightarrow> u32 \<Rightarrow> u32 \<Rightarrow> 'r" where
  "getSocket_link func s sk param = func sk param (sstate1 s) (sstate2 s)"

definition getSystem :: "(SystemCounterState \<Rightarrow> SystemCounterState \<Rightarrow> 'r) \<Rightarrow> async_state \<Rightarrow> 'r" where
  "getSystem func s = func (sstate1 s) (sstate2 s)"

definition getSystem_param :: "(int \<Rightarrow> SystemCounterState \<Rightarrow> SystemCounterState \<Rightarrow> 'r) \<Rightarrow> async_state \<Rightarrow> int \<Rightarrow> 'r" where
  "getSystem_param func s param = func param (sstate1 s) (sstate2 s)"

text \<open>Questions that are passed on to the \<open>PCM\<close> object.\<close>

definition async_getNumCores :: "pcm \<Rightarrow> u32" where "async_getNumCores m = numCores m"
definition async_getNumSockets :: "pcm \<Rightarrow> u32" where "async_getNumSockets m = numSockets m"
definition async_getQPILinksPerSocket :: "pcm \<Rightarrow> u32 option" where
  "async_getQPILinksPerSocket m = map_option ucast (getQPILinksPerSocket m)"
definition async_getSocketId :: "pcm \<Rightarrow> u32 \<Rightarrow> u32 option" where
  "async_getSocketId m c = map_option word_of_int (getSocketId m c)"

section \<open>Sampling\<close>

text \<open>The states after the constructor and after each round.\<close>

primrec rounds :: "'w readings \<Rightarrow> pcm \<Rightarrow> nat \<Rightarrow> async_state \<times> 'w \<Rightarrow> async_state \<times> 'w" where
  "rounds R m 0 sw = sw"
| "rounds R m (Suc n) sw = update_counters R m (rounds R m n sw)"

definition async_ok :: "pcm \<Rightarrow> async_state \<Rightarrow> bool" where
  "async_ok m s \<longleftrightarrow> length (cstates1 s) = unat (numCores m) \<and> length (cstates2 s) = unat (numCores m) \<and>
     length (skstates1 s) = unat (numSockets m) \<and> length (skstates2 s) = unat (numSockets m)"

lemma length_read_all: "length (fst (read_all f n w)) = n"
  by (induction n) (simp_all add: split_def Let_def)

lemma length_read_twice: "length (fst (fst (read_twice f n w))) = n \<and> length (snd (fst (read_twice f n w))) = n"
  by (induction n) (simp_all add: split_def Let_def)

lemma constructor_ok: "AsynchronCounterState R m 0 blank w = Some (s, w') \<Longrightarrow> async_ok m s"
  by (auto simp: AsynchronCounterState_def async_ok_def split_def Let_def length_read_twice)

lemma update_ok: "async_ok m (fst sw) \<Longrightarrow> async_ok m (fst (update_counters R m sw))"
  by (simp add: update_counters_def async_ok_def split_def Let_def length_read_all)

lemma rounds_ok: "async_ok m (fst sw) \<Longrightarrow> async_ok m (fst (rounds R m n sw))"
  by (induction n) (simp_all add: update_ok)

lemma update_shifts:
  "cstates1 (fst (update_counters R m sw)) = cstates2 (fst sw)"
  "skstates1 (fst (update_counters R m sw)) = skstates2 (fst sw)"
  "sstate1 (fst (update_counters R m sw)) = sstate2 (fst sw)"
  by (simp_all add: update_counters_def split_def Let_def)

text \<open>
  C31: no event is lost or counted twice between two samples: for every core, the instructions
  reported after each of \<open>n\<close> rounds add up to the instructions between the last reading before the
  first round and the last reading, and no access goes out of bounds. The system state has no such
  reading before the first round: its first interval starts at the blank state.
\<close>

theorem async_samples_add_up:
  assumes "AsynchronCounterState R m 0 blank w = Some sw" "core < numCores m"
  shows "\<exists>f x y. (\<forall>k. get_core getInstructionsRetired (fst (rounds R m (Suc k) sw)) core = Some (f k)) \<and>
    at_index (cstates2 (fst sw)) (uint core) = Some x \<and>
    at_index (cstates2 (fst (rounds R m n sw))) (uint core) = Some y \<and>
    sum_list (map f [0..<n]) = getInstructionsRetired x y \<and> sstate1 (fst (rounds R m 1 sw)) = blank"
proof -
  let ?r = "\<lambda>k. cstates2 (fst (rounds R m k sw)) ! unat core"
  have ok: "async_ok m (fst (rounds R m k sw))" for k
    using assms(1) constructor_ok [of R m blank w] by (cases sw) (auto intro: rounds_ok)
  have idx: "at_index (cstates2 (fst (rounds R m k sw))) (uint core) = Some (?r k)"
    "at_index (cstates1 (fst (rounds R m k sw))) (uint core) = Some (cstates1 (fst (rounds R m k sw)) ! unat core)" for k
    using ok [of k] assms(2) by (simp_all add: async_ok_def at_index_def word_less_def)
  let ?f = "\<lambda>k. getInstructionsRetired (?r k) (?r (Suc k))"
  have "get_core getInstructionsRetired (fst (rounds R m (Suc k) sw)) core = Some (?f k)" for k
    using idx [of "Suc k"] by (simp add: get_core_def update_shifts)
  moreover have "sum_list (map ?f [0..<n]) = getInstructionsRetired (?r 0) (?r n)"
    by (induction n) (simp_all add: counts_telescope [THEN conjunct1], simp add: getInstructionsRetired_def)
  moreover have "sstate1 (fst (rounds R m 1 sw)) = blank"
    using assms(1) by (auto simp: update_shifts AsynchronCounterState_def split_def Let_def)
  ultimately show ?thesis
    using idx(1) [of 0] idx(1) [of n] by (intro exI [of _ ?f] exI [of _ "?r 0"] exI [of _ "?r n"]) auto
qed

text \<open>Counters that have seen as many instructions as readings were made.\<close>

definition ticking :: "nat readings" where
  "ticking = \<lparr>read_core = (\<lambda>_ w. (basic_init\<lparr>InstRetiredAny := of_nat w\<rparr>, Suc w)),
     read_socket = (\<lambda>_ w. (\<lparr>skt_basic = basic_init, skt_uncore = uncore_init\<rparr>, Suc w)),
     read_system = (\<lambda>w. (system_init 1 0, Suc w))\<rparr>"

theorem async_samples_add_up_witness:
  "\<exists>sw f x y. AsynchronCounterState ticking (demo_pcm HASWELL) 0 (system_init 1 0) 0 = Some sw \<and>
     (\<forall>k. get_core getInstructionsRetired (fst (rounds ticking (demo_pcm HASWELL) (Suc k) sw)) 3 = Some (f k)) \<and>
     sum_list (map f [0..<5]) = getInstructionsRetired x y"
proof -
  obtain sw where sw: "AsynchronCounterState ticking (demo_pcm HASWELL) 0 (system_init 1 0) 0 = Some sw"
    by (simp add: AsynchronCounterState_def split_def Let_def)
  have "(3 :: u32) < numCores (demo_pcm HASWELL)"
    by (simp add: demo_pcm_def)
  from async_samples_add_up [OF sw this, of 5] sw show ?thesis
    by blast
qed

end
