(* ===== verification/Async_Threads.thy ===== *)
theory Async_Threads
  imports Asynch_Counter Mutex_Threads
begin

text \<open>
  src/pcm/cpuasynchcounter.h with its threads: the loop \<open>UpdateCounters\<close> and the accessors, statement
  by statement under \<open>CounterMutex\<close>. The shared data are the object and the world its readings come from.
\<close>

section \<open>The statements\<close>

text \<open>
  A critical section is one round of \<open>UpdateCounters\<close> or one accessor; the accessors that take a
  parameter pass it on to their function. An update has no value.
\<close>

datatype 'r async_op =
    Update
  | GetCore "CoreCounterState \<Rightarrow> CoreCounterState \<Rightarrow> 'r" u32
  | GetSocket "SocketCounterState \<Rightarrow> SocketCounterState \<Rightarrow> 'r" u32
  | GetSystem "SystemCounterState \<Rightarrow> SystemCounterState \<Rightarrow> 'r"

record 'r async_locals =
  first_core :: "CoreCounterState option"
  first_socket :: "SocketCounterState option"
  first_system :: "SystemCounterState option"
  got :: "'r option"

type_synonym ('r, 'w) async_statement = "('r async_locals, async_state \<times> 'w) statement"

definition async_start :: "'r async_op \<Rightarrow> 'r async_locals" where
  "async_start _ = \<lparr>first_core = None, first_socket = None, first_system = None, got = None\<rparr>"

text \<open>The assignments of the loops; the arrays have an element for every core and every socket.\<close>

definition shift_core :: "nat \<Rightarrow> ('r, 'w) async_statement" where
  "shift_core c = (\<lambda>(l, s, w). (l, s\<lparr>cstates1 := (cstates1 s)[c := cstates2 s ! c]\<rparr>, w))"

definition sample_core :: "'w readings \<Rightarrow> nat \<Rightarrow> ('r, 'w) async_statement" where
  "sample_core R c = (\<lambda>(l, s, w). let (x, w) = read_core R (of_nat c) w in (l, s\<lparr>cstates2 := (cstates2 s)[c := x]\<rparr>, w))"

definition shift_socket :: "nat \<Rightarrow> ('r, 'w) async_statement" where
  "shift_socket k = (\<lambda>(l, s, w). (l, s\<lparr>skstates1 := (skstates1 s)[k := skstates2 s ! k]\<rparr>, w))"

definition sample_socket :: "'w readings \<Rightarrow> nat \<Rightarrow> ('r, 'w) async_statement" where
  "sample_socket R k = (\<lambda>(l, s, w). let (x, w) = read_socket R (of_nat k) w in (l, s\<lparr>skstates2 := (skstates2 s)[k := x]\<rparr>, w))"

definition shift_system :: "('r, 'w) async_statement" where
  "shift_system = (\<lambda>(l, s, w). (l, s\<lparr>sstate1 := sstate2 s\<rparr>, w))"

definition sample_system :: "'w readings \<Rightarrow> ('r, 'w) async_statement" where
  "sample_system R = (\<lambda>(l, s, w). let (x, w) = read_system R w in (l, s\<lparr>sstate2 := x\<rparr>, w))"

definition core_loop :: "'w readings \<Rightarrow> nat \<Rightarrow> ('r, 'w) async_statement list" where
  "core_loop R n = concat (map (\<lambda>c. [shift_core c, sample_core R c]) [0..<n])"

definition socket_loop :: "'w readings \<Rightarrow> nat \<Rightarrow> ('r, 'w) async_statement list" where
  "socket_loop R n = concat (map (\<lambda>k. [shift_socket k, sample_socket R k]) [0..<n])"

fun async_body :: "'w readings \<Rightarrow> pcm \<Rightarrow> 'r async_op \<Rightarrow> ('r, 'w) async_statement list" where
  "async_body R m Update =
     core_loop R (unat (numCores m)) @ socket_loop R (unat (numSockets m)) @ [shift_system, sample_system R]"
| "async_body R m (GetCore func core) =
     [\<lambda>(l, s, w). (l\<lparr>first_core := at_index (cstates1 s) (uint core)\<rparr>, s, w),
      \<lambda>(l, s, w). (l\<lparr>got := do { x \<leftarrow> first_core l; y \<leftarrow> at_index (cstates2 s) (uint core); Some (func x y) }\<rparr>, s, w)]"
| "async_body R m (GetSocket func sk) =
     [\<lambda>(l, s, w). (l\<lparr>first_socket := at_index (skstates1 s) (uint sk)\<rparr>, s, w),
      \<lambda>(l, s, w). (l\<lparr>got := do { x \<leftarrow> first_socket l; y \<leftarrow> at_index (skstates2 s) (uint sk); Some (func x y) }\<rparr>, s, w)]"
| "async_body R m (GetSystem func) =
     [\<lambda>(l, s, w). (l\<lparr>first_system := Some (sstate1 s)\<rparr>, s, w),
      \<lambda>(l, s, w). (l\<lparr>got := map_option (\<lambda>x. func x (sstate2 s)) (first_system l)\<rparr>, s, w)]"

section \<open>The mutex makes a round one step\<close>

fun answer :: "'r async_op \<Rightarrow> async_state \<Rightarrow> 'r option" where
  "answer Update s = None"
| "answer (GetCore func core) s = get_core func s core"
| "answer (GetSocket func sk) s = getSocket func s sk"
| "answer (GetSystem func) s = Some (getSystem func s)"

definition async_call ::
  "'w readings \<Rightarrow> pcm \<Rightarrow> 'r async_op \<Rightarrow> async_state \<times> 'w \<Rightarrow> 'r option \<times> async_state \<times> 'w" where
  "async_call R m p sw = (answer p (fst sw), case p of Update \<Rightarrow> update_counters R m sw | _ \<Rightarrow> sw)"

lemma take_Suc_update: "k < length xs \<Longrightarrow> length ys = length xs \<Longrightarrow>
  (take k ys @ drop k xs)[k := ys ! k] = take (Suc k) ys @ drop (Suc k) xs"
  by (simp add: list_update_append take_Suc_conv_app_nth upd_conv_take_nth_drop)

lemma append_drop_update: "k < length ys \<Longrightarrow> length zs = k \<Longrightarrow>
  (zs @ drop k ys)[k := z] = (zs @ [z]) @ drop (Suc k) ys"
  by (simp add: list_update_append upd_conv_take_nth_drop)

lemma run_core_loop:
  "\<lbrakk>k \<le> n; length (cstates1 s) = n; length (cstates2 s) = n\<rbrakk> \<Longrightarrow>
   run_body (core_loop R k) (l, s, w) =
     (l, s\<lparr>cstates1 := take k (cstates2 s) @ drop k (cstates1 s),
          cstates2 := fst (read_all (read_core R) k w) @ drop k (cstates2 s)\<rparr>, snd (read_all (read_core R) k w))"
proof (induction k)
  case 0
  then show ?case by (simp add: core_loop_def)
next
  case (Suc k)
  then show ?case
    by (simp add: core_loop_def shift_core_def sample_core_def split_def Let_def length_read_all
        nth_append take_Suc_update append_drop_update take_Suc_conv_app_nth)
qed

lemma run_socket_loop:
  "\<lbrakk>k \<le> n; length (skstates1 s) = n; length (skstates2 s) = n\<rbrakk> \<Longrightarrow>
   run_body (socket_loop R k) (l, s, w) =
     (l, s\<lparr>skstates1 := take k (skstates2 s) @ drop k (skstates1 s),
          skstates2 := fst (read_all (read_socket R) k w) @ drop k (skstates2 s)\<rparr>, snd (read_all (read_socket R) k w))"
proof (induction k)
  case 0
  then show ?case by (simp add: socket_loop_def)
next
  case (Suc k)
  then show ?case
    by (simp add: socket_loop_def shift_socket_def sample_socket_def split_def Let_def length_read_all
        nth_append take_Suc_update append_drop_update take_Suc_conv_app_nth)
qed

lemma run_update:
  assumes "async_ok m s"
  shows "run_body (async_body R m Update) (l, s, w) = (l, update_counters R m (s, w))"
proof -
  have "run_body (core_loop R (unat (numCores m))) (l, s, w) = (l, s\<lparr>cstates1 := cstates2 s,
      cstates2 := fst (read_all (read_core R) (unat (numCores m)) w)\<rparr>, snd (read_all (read_core R) (unat (numCores m)) w))"
    using run_core_loop [OF order.refl, of s "unat (numCores m)"] assms by (simp add: async_ok_def)
  moreover have "run_body (socket_loop R (unat (numSockets m))) (l, s', w') = (l, s'\<lparr>skstates1 := skstates2 s',
      skstates2 := fst (read_all (read_socket R) (unat (numSockets m)) w')\<rparr>, snd (read_all (read_socket R) (unat (numSockets m)) w'))"
    if "skstates1 s' = skstates1 s" "skstates2 s' = skstates2 s" for s' w'
    using run_socket_loop [OF order.refl, of s' "unat (numSockets m)"] assms that by (simp add: async_ok_def)
  ultimately show ?thesis
    by (simp add: update_counters_def shift_system_def sample_system_def split_def Let_def)
qed

interpretation sampler: critical_section
  "async_body R m" async_start got "async_call R m" "\<lambda>sw. async_ok m (fst sw)"
  for R m
proof (unfold_locales, goal_cases)
  case (1 sw p l sw')
  obtain s w where sw: "sw = (s, w)"
    by fastforce
  with 1 show ?case
    by (cases p) (auto simp: async_call_def async_start_def run_update get_core_def getSocket_def getSystem_def
        simp del: async_body.simps(1))
next
  case (2 sw p)
  then show ?case
    by (auto simp: async_call_def update_ok split: async_op.splits)
qed

section \<open>The object and its threads\<close>

text \<open>
  Thread 0, which the constructor creates, runs \<open>UpdateCounters\<close>; the others make any calls of the
  accessors. \<open>sleep(1)\<close> is outside the critical section.
\<close>

definition UpdateCounters :: "nat \<Rightarrow> 'r async_op option" where
  "UpdateCounters _ = Some Update"

definition async_program :: "'r async_op program \<Rightarrow> 'r async_op program" where
  "async_program accesses t k = (if t = 0 then UpdateCounters k else accesses t k)"

definition async_threads ::
  "'w readings \<Rightarrow> pcm \<Rightarrow> 'r async_op program \<Rightarrow> nat list \<Rightarrow> async_state \<times> 'w \<Rightarrow>
   ('r async_locals, async_state \<times> 'w, 'r option) msys" where
  "async_threads R m accesses ts sw =
     mrun (async_body R m) async_start got (async_program accesses) ts (msys_init sw)"

text \<open>The rounds among finished calls.\<close>

definition is_round :: "'r async_op option \<Rightarrow> bool" where
  "is_round p = (case p of Some Update \<Rightarrow> True | _ \<Rightarrow> False)"

definition rounds_done :: "'r async_op program \<Rightarrow> (nat \<times> 'v) list \<Rightarrow> nat" where
  "rounds_done prog h =
     length (filter (\<lambda>i. is_round (prog (fst (h ! i)) (calls_made (fst (h ! i)) (take i h)))) [0..<length h])"

lemma rounds_done_snoc:
  "rounds_done prog (h @ [c]) = rounds_done prog h + of_bool (is_round (prog (fst c) (calls_made (fst c) h)))"
  by (auto simp: rounds_done_def nth_append intro!: arg_cong [where f = length] filter_cong)

lemma seq_calls_rounds:
  assumes "seq_calls (async_call R m) prog (map fst h) ([], sw) = (h, y)"
  shows "y = rounds R m (rounds_done prog h) sw"
  using assms
proof (induction h arbitrary: y rule: rev_induct)
  case Nil
  then show ?case by (simp add: rounds_done_def)
next
  case (snoc c h)
  obtain t r where c: "c = (t, r)"
    by fastforce
  from snoc.prems obtain p z where "seq_calls (async_call R m) prog (map fst h) ([], sw) = (h, z)"
    and p: "prog t (calls_made t h) = Some p" "async_call R m p z = (r, y)"
    using seq_calls_last [of "async_call R m" prog h t r sw y] unfolding c by blast
  from snoc.IH [OF this(1)] p show ?case
    by (auto simp: rounds_done_snoc c is_round_def async_call_def split: async_op.splits)
qed

lemma get_in_range:
  assumes "async_ok m s"
  shows "core < numCores m \<Longrightarrow> get_core f s core \<noteq> None" "sk < numSockets m \<Longrightarrow> getSocket g s sk \<noteq> None"
  using assms by (auto simp: async_ok_def get_core_def getSocket_def at_index_def word_less_def)

lemma statement_keeps_shape:
  "f \<in> set (async_body R m p) \<Longrightarrow> async_ok m (fst sw) \<Longrightarrow> async_ok m (fst (snd (f (l, sw))))"
  by (cases p)
    (auto simp: core_loop_def socket_loop_def shift_core_def sample_core_def shift_socket_def sample_socket_def
      shift_system_def sample_system_def async_ok_def split_def Let_def)



text \<open>
  C8: an accessor never sees a half-finished round: for every interleaving of \<open>UpdateCounters\<close> and
  any number of threads that call the accessors, each result is the one the accessor computes on the state
  after the rounds that were finished before it, and an access to an existing core or socket stays in
  bounds.
\<close>

theorem accessors_see_whole_rounds:
  assumes "AsynchronCounterState R m 0 blank w = Some sw" "s = async_threads R m accesses ts sw"
    and "i < length (history s)" "history s ! i = (t, v)"
  shows "\<exists>p. async_program accesses t (calls_made t (take i (history s))) = Some p \<and>
    v = answer p (fst (rounds R m (rounds_done (async_program accesses) (take i (history s))) sw)) \<and>
    (case p of Update \<Rightarrow> True | GetCore f core \<Rightarrow> core < numCores m \<longrightarrow> v \<noteq> None
     | GetSocket f sk \<Rightarrow> sk < numSockets m \<longrightarrow> v \<noteq> None | GetSystem f \<Rightarrow> v \<noteq> None)"
proof -
  let ?prog = "async_program accesses"
  have ok: "async_ok m (fst sw)"
    using assms(1) by (cases sw) (auto intro: constructor_ok)
  obtain x where "seq_calls (async_call R m) ?prog (map fst (history s)) ([], sw) = (history s, x)"
    using sampler.serializable [OF ok assms(2) [unfolded async_threads_def]] by blast
  from seq_calls_nth [OF this assms(3,4)] obtain p y z
    where y: "seq_calls (async_call R m) ?prog (map fst (take i (history s))) ([], sw) = (take i (history s), y)"
      and p: "?prog t (calls_made t (take i (history s))) = Some p" "async_call R m p y = (v, z)"
    by blast
  from seq_calls_rounds [OF y] p(2)
  have v: "v = answer p (fst (rounds R m (rounds_done ?prog (take i (history s))) sw))"
    by (simp add: async_call_def)
  have "async_ok m (fst (rounds R m (rounds_done ?prog (take i (history s))) sw))"
    using ok by (rule rounds_ok)
  note in_range = get_in_range [OF this]
  from v p(1) show ?thesis
    by (intro exI [of _ p]; cases p) (use in_range in auto)
qed

text \<open>One core, one socket; an accessor waits while the first round is half done.\<close>

definition small_pcm :: pcm where
  "small_pcm = (demo_pcm HASWELL)\<lparr>numCores := 1, numSockets := 1\<rparr>"

definition ask_core :: "u64 async_op program" where
  "ask_core t k = (if t = 1 \<and> k < 1 then Some (GetCore getInstructionsRetired 0) else None)"

theorem accessors_see_whole_rounds_witness:
  "\<exists>sw. AsynchronCounterState ticking small_pcm 0 (system_init 1 0) 0 = Some sw \<and>
     (let s = async_threads ticking small_pcm ask_core [0, 0, 1, 0, 1, 0, 0, 0, 0, 0, 1, 1, 1, 1] sw
      in history s ! 1 = (1, answer (GetCore getInstructionsRetired 0) (fst (rounds ticking small_pcm 1 sw))))"
proof -
  obtain sw where sw: "AsynchronCounterState ticking small_pcm 0 (system_init 1 0) 0 = Some sw"
    by (simp add: AsynchronCounterState_def split_def Let_def)
  let ?s = "async_threads ticking small_pcm ask_core [0, 0, 1, 0, 1, 0, 0, 0, 0, 0, 1, 1, 1, 1] sw"
  have small: "unat (numCores small_pcm) = 1" "unat (numSockets small_pcm) = 1"
    by (simp_all add: small_pcm_def)
  have "map fst (history ?s) = [0, 1]"
    by (simp add: async_threads_def msys_init_def mstep_def calls_made_def async_program_def UpdateCounters_def
        ask_core_def small core_loop_def socket_loop_def split_def Let_def)
  then obtain a b where h: "history ?s = [(0, a), (1, b)]"
    by (auto simp: map_eq_Cons_conv)
  from accessors_see_whole_rounds [OF sw refl, where i = 1 and t = 1 and v = b and accesses = ask_core
      and ts = "[0, 0, 1, 0, 1, 0, 0, 0, 0, 0, 1, 1, 1, 1]"]
  have "b = answer (GetCore getInstructionsRetired 0) (fst (rounds ticking small_pcm 1 sw))"
    unfolding h by (auto simp: async_program_def UpdateCounters_def calls_made_def ask_core_def rounds_done_def is_round_def)
  with h have "history ?s ! 1 = (1, answer (GetCore getInstructionsRetired 0) (fst (rounds ticking small_pcm 1 sw)))"
    by simp
  with sw show ?thesis
    by (auto simp: Let_def)
qed

end
