(* ===== verification/Async_Destructor.thy ===== *)
theory Async_Destructor
  imports Async_Threads
begin

text \<open>
  \<open>~AsynchronCounterState\<close> of src/pcm/cpuasynchcounter.h while \<open>UpdateCounters\<close> runs: the destructor
  cancels the thread, does not wait for its end, and frees the arrays the thread works on.
\<close>

section \<open>The destructor and the updating thread\<close>

text \<open>
  A thread that is cancelled ends at its next cancellation point, which in \<open>UpdateCounters\<close> is
  \<open>sleep(1)\<close>; locking and unlocking a mutex is none. Destroying a locked mutex leaves it as it is.
  \<open>executed\<close> counts the statements of the destructor.
\<close>

datatype move = Updater | Destructor

record ('r, 'w) dsys =
  threads :: "('r async_locals, async_state \<times> 'w, 'r option) msys"
  asleep :: bool
  ended :: bool
  mutex_gone :: bool
  executed :: nat

definition thread_cancelled :: "('r, 'w) dsys \<Rightarrow> bool" where
  "thread_cancelled d \<longleftrightarrow> 1 \<le> executed d"

text \<open>Statements 3 to 6 delete \<open>cstates1\<close>, \<open>cstates2\<close>, \<open>skstates1\<close> and \<open>skstates2\<close>.\<close>

definition destructor_length :: nat where
  "destructor_length = 7"

definition touches_freed :: "pcm \<Rightarrow> nat \<Rightarrow> nat \<Rightarrow> bool" where
  "touches_freed m done k \<longleftrightarrow>
     (let cores = 2 * unat (numCores m); sockets = 2 * unat (numSockets m)
      in if k < cores then (if even k then 3 < done else 4 < done)
         else k < cores + sockets \<and> (if even k then 5 < done else 6 < done))"

definition destructor_step :: "('r, 'w) dsys \<Rightarrow> ('r, 'w) dsys outcome" where
  "destructor_step d =
     (if executed d < destructor_length
      then Returned (d\<lparr>executed := Suc (executed d),
        mutex_gone := mutex_gone d \<or> executed d = 1 \<and> owner (threads d) = None\<rparr>)
      else Returned d)"

definition updater_step :: "'w readings \<Rightarrow> pcm \<Rightarrow> ('r, 'w) dsys \<Rightarrow> ('r, 'w) dsys outcome" where
  "updater_step R m d =
     (if ended d then Returned d
      else if asleep d then (if thread_cancelled d then Returned (d\<lparr>ended := True\<rparr>) else Returned (d\<lparr>asleep := False\<rparr>))
      else (case mstep (async_body R m) async_start got (async_program (\<lambda>_ _. None)) 0 (threads d) of
          None \<Rightarrow> Returned d
        | Some s \<Rightarrow>
            (case place (threads d) 0 of
               Outside \<Rightarrow> if mutex_gone d then Undefined else Returned (d\<lparr>threads := s\<rparr>)
             | Inside k l \<Rightarrow>
                 if touches_freed m (executed d) k then OutOfBounds
                 else Returned (d\<lparr>threads := s, asleep := (place s 0 = Outside)\<rparr>))))"

fun dsched :: "'w readings \<Rightarrow> pcm \<Rightarrow> move list \<Rightarrow> ('r, 'w) dsys \<Rightarrow> ('r, 'w) dsys outcome" where
  "dsched R m [] d = Returned d"
| "dsched R m (Updater # ms) d = on_return (updater_step R m d) (dsched R m ms)"
| "dsched R m (Destructor # ms) d = on_return (destructor_step d) (dsched R m ms)"

text \<open>The thread after some rounds, when \<open>pthread_cancel\<close> has just been executed.\<close>

definition just_cancelled :: "('r async_locals, async_state \<times> 'w, 'r option) msys \<Rightarrow> bool \<Rightarrow> ('r, 'w) dsys" where
  "just_cancelled s sl = \<lparr>threads = s, asleep = sl, ended = False, mutex_gone = False, executed = 1\<rparr>"

section \<open>When the destructor is safe\<close>

lemma length_core_loop [simp]: "length (core_loop R n) = 2 * n"
  by (induction n) (simp_all add: core_loop_def)

lemma length_socket_loop [simp]: "length (socket_loop R n) = 2 * n"
  by (induction n) (simp_all add: socket_loop_def)

text \<open>The statements of a round that work on the arrays.\<close>

definition array_statements :: "pcm \<Rightarrow> nat" where
  "array_statements m = 2 * unat (numCores m) + 2 * unat (numSockets m)"

lemma not_touched: "array_statements m \<le> k \<Longrightarrow> \<not> touches_freed m done k"
  by (simp add: array_statements_def touches_freed_def Let_def)

definition out_of_danger :: "pcm \<Rightarrow> ('r, 'w) dsys \<Rightarrow> bool" where
  "out_of_danger m d \<longleftrightarrow> thread_cancelled d \<and>
     (ended d \<or> asleep d \<or> (\<exists>k l. place (threads d) 0 = Inside k l \<and> array_statements m \<le> k))"

lemma out_of_danger_updater:
  assumes "out_of_danger m d"
  shows "\<exists>d'. updater_step R m d = Returned d' \<and> out_of_danger m d'"
proof (cases "ended d \<or> asleep d")
  case True
  with assms show ?thesis
    by (auto simp: updater_step_def out_of_danger_def thread_cancelled_def)
next
  case False
  with assms obtain k l where k: "place (threads d) 0 = Inside k l" "array_statements m \<le> k"
    by (auto simp: out_of_danger_def)
  obtain s where "mstep (async_body R m) async_start got (async_program (\<lambda>_ _. None)) 0 (threads d) = Some s"
    and "place s 0 = Outside \<or> (\<exists>l'. place s 0 = Inside (Suc k) l')"
    using mstep_inside [OF k(1), of "async_program (\<lambda>_ _. None)" Update "async_body R m" async_start got]
    by (auto simp: async_program_def UpdateCounters_def)
  with False k assms show ?thesis
    by (intro exI [of _ "d\<lparr>threads := s, asleep := (place s 0 = Outside)\<rparr>"])
      (auto simp: updater_step_def not_touched out_of_danger_def thread_cancelled_def)
qed

lemma out_of_danger_destructor:
  "out_of_danger m d \<Longrightarrow> \<exists>d'. destructor_step d = Returned d' \<and> out_of_danger m d'"
  by (simp add: destructor_step_def out_of_danger_def thread_cancelled_def)

lemma out_of_danger_run:
  "out_of_danger m d \<Longrightarrow> \<exists>d'. dsched R m ms d = Returned d'"
proof (induction ms arbitrary: d)
  case (Cons a ms)
  then show ?case
    by (cases a) (metis dsched.simps(2,3) on_return.simps(1) out_of_danger_updater out_of_danger_destructor)+
qed simp

text \<open>The destructor runs to its end, the thread stands still.\<close>

lemma destructor_runs:
  "dsched R m (replicate 6 Destructor @ ms) (just_cancelled s sl) = dsched R m ms
     \<lparr>threads = s, asleep = sl, ended = False, mutex_gone = (owner s = None), executed = 7\<rparr>"
  by (simp add: just_cancelled_def destructor_step_def destructor_length_def eval_nat_numeral)

lemma freed_when_finished: "k < array_statements m \<Longrightarrow> touches_freed m 7 k"
  by (auto simp: array_statements_def touches_freed_def Let_def)

lemma races_inside:
  assumes "place s 0 = Inside k l" "k < array_statements m"
  shows "dsched R m (replicate 6 Destructor @ [Updater]) (just_cancelled s False) = OutOfBounds"
  using assms freed_when_finished [OF assms(2)]
  by (simp add: destructor_runs updater_step_def mstep_def async_program_def UpdateCounters_def split_def Let_def)

text \<open>\<open>UpdateCounters\<close> with the mutex locked.\<close>

definition locked :: "('r async_locals, 's, 'r option) msys \<Rightarrow> ('r async_locals, 's, 'r option) msys" where
  "locked s = s\<lparr>owner := Some 0, place := (place s)(0 := Inside 0 (async_start Update))\<rparr>"

lemma updater_only_owner:
  assumes "s = async_threads R m (\<lambda>_ _. None) ts sw" "AsynchronCounterState R m 0 blank w = Some sw" "place s 0 = Outside"
  shows "owner s = None"
proof (rule ccontr)
  assume "owner s \<noteq> None"
  then obtain u where u: "owner s = Some u"
    by blast
  have "async_ok m (fst sw)"
    using assms(2) by (cases sw) (auto intro: constructor_ok)
  from sampler.owner_inside [OF this assms(1) [unfolded async_threads_def] u] assms(3) show False
    by (cases "u = 0") (auto simp: async_program_def)
qed



end
