(* ===== verification/Mem_Bench_Runs.thy ===== *)
theory Mem_Bench_Runs
  imports Mem_Bench
begin

text \<open>
  What the memory benchmarks do: the loop with atomic operations walks like the plain loop, each level
  of the memory hierarchy keeps one contract (\<open>bench_level\<close>), and whole runs of \<open>numatest\<close> and \<open>smptest\<close>
  are described event by event, with the memory they allocate and release.
\<close>

section \<open>The loops\<close>

lemma cas_step_eq: "cas_step c a j = map_option (\<lambda>j. (j, a)) (arr_read a (unat j))"
proof (cases "unat j < arr_len a")
  case True
  have "atomic_inc c v = Some (v + 1, v + 1)" for v
    using call_block_aop [of Inc c v] by (simp add: atomic_inc_def)
  with True show ?thesis
    by (simp add: cas_step_def arr_read_def arr_write_def)
qed (simp add: cas_step_def arr_read_def)

lemma cas_chase_eq: "cas_chase n c a j = map_option (\<lambda>j. (j, a)) (chase n a j)"
  by (induction n arbitrary: j) (auto simp: cas_step_eq split: option.splits)

text \<open>
  C24: the loop with atomic operations walks the same way as the plain loop and puts back what it
  changes: whatever the array and the number of iterations, either loop ends at the index the chain of
  the array leads to and leaves the array as it was, or leaves its bounds.
\<close>

theorem atomic_loop_is_plain_loop:
  "timed_loop cas c iter a = (case chase (unat iter) a 0 of None \<Rightarrow> OutOfBounds | Some j \<Rightarrow> Returned (j, a))"
  by (auto simp: timed_loop_def cas_chase_eq split: option.splits)

section \<open>The levels\<close>

text \<open>
  What a run does, without the times and the counter values it prints: reports are dropped and the
  time of a cost line is erased.
\<close>

fun is_report :: "bench_event \<Rightarrow> bool" where
  "is_report (Ratios _ _) \<longleftrightarrow> True"
| "is_report (Counts _ _ _ _) \<longleftrightarrow> True"
| "is_report _ \<longleftrightarrow> False"

fun erase :: "bench_event \<Rightarrow> bench_event" where
  "erase (Cost l _ j) = Cost l 0 j"
| "erase e = e"

definition summary :: "bench_event list \<Rightarrow> bench_event list" where
  "summary es = map erase (filter (\<lambda>e. \<not> is_report e) es)"

lemma summary_append [simp]: "summary (es @ fs) = summary es @ summary fs"
  by (simp add: summary_def)

lemma summary_Nil [simp]: "summary [] = []"
  by (simp add: summary_def)

lemma out_put [simp]: "out (put e s) = out s @ [e]"
  by (simp add: put_def)

lemma out_ask [simp]: "out (snd (ask f s)) = out s"
  by (simp add: ask_def split_def Let_def)

lemma out_cycle_count [simp]: "out (snd (cycle_count E s)) = out s"
  by (simp add: cycle_count_def split_def Let_def)

lemma out_read_probe [simp]: "out (snd (read_probe E p s)) = out s"
  by (simp add: read_probe_def getCoreCounterState_def)

definition can_report :: "'w bench_env \<Rightarrow> probe \<Rightarrow> bool" where
  "can_report E p \<longleftrightarrow> (p = RatioProbe \<longrightarrow> pcm_object E \<noteq> None)"

lemma report_summary:
  assumes "can_report E p"
  obtains s' where "outputDetailStatistic E p b c s = Returned s'" "summary (out s') = summary (out s)"
  using assms by (cases p) (auto simp: outputDetailStatistic_def can_report_def dump_def summary_def)

locale bench_level = stride_ring step stride rng for step stride rng +
  fixes build :: "u32 arr \<Rightarrow> u32 \<Rightarrow> (u32 \<times> u32 arr) outcome"
    and warm :: "u32 arr \<Rightarrow> u32 \<Rightarrow> (string + u32) outcome"
  assumes builds: "arr_len a = unat bench_size \<Longrightarrow>
      \<exists>a'. build a bench_size = Returned (of_nat rng, a') \<and> arr_len a' = arr_len a \<and> ring_array step stride rng a'"
    and warms: "ring_array step stride rng a \<Longrightarrow> \<exists>j. warm a bench_size = Returned (Inr j)"
begin

lemma level_runs:
  assumes len: "arr_len a = unat bench_size" and "iter \<noteq> 0" and "can_report E p"
  shows "\<exists>a' s'. run_level E p cas side iter (name, build, warm) (a, s) = Returned (a', s') \<and> arr_len a' = arr_len a \<and>
    summary (out s') = summary (out s) @ [Cost (side @ '' '' @ name) 0 (of_nat (unat iter * stride mod rng))]"
proof -
  obtain a' where a': "build a bench_size = Returned (of_nat rng, a')" "arr_len a' = arr_len a" "ring_array step stride rng a'"
    using builds [OF len] by blast
  obtain j where j: "warm a' bench_size = Returned (Inr j)"
    using warms [OF a'(3)] by blast
  let ?j = "of_nat (unat iter * stride mod rng) :: u32"
  have loop: "timed_loop cas (processor E) iter a' = Returned (?j, a')"
    by (cases cas) (simp_all add: timed_loop_def cas_chase_eq chase_ring [OF a'(3)])
  define sb where "sb = read_probe E p s"
  define sc where "sc = cycle_count E (snd sb)"
  define sd where "sd = cycle_count E (snd sc)"
  define se where "se = read_probe E p (snd sd)"
  define sf where "sf = put (Cost (side @ '' '' @ name) ((fst sd - fst sc) div ucast iter) ?j) (snd se)"
  obtain s' where s': "outputDetailStatistic E p (fst sb) (fst se) sf = Returned s'" "summary (out s') = summary (out sf)"
    by (rule report_summary [OF assms(3)])
  have "run_level E p cas side iter (name, build, warm) (a, s) = Returned (a', s')"
    using assms(2) s'(1) unfolding sf_def se_def sd_def sc_def sb_def
    by (simp add: run_level_def a'(1) j loop split_def Let_def del: on_return_eq_Returned)
  moreover have "out sf = out s @ [Cost (side @ '' '' @ name) ((fst sd - fst sc) div ucast iter) ?j]"
    by (simp add: sf_def se_def sd_def sc_def sb_def)
  ultimately show ?thesis
    using a'(2) s'(2) by (auto simp: summary_def)
qed

lemma level_traps:
  assumes "arr_len a = unat bench_size"
  shows "run_level E p cas side 0 (name, build, warm) (a, s) = DividedByZero"
proof -
  obtain a' where a': "build a bench_size = Returned (of_nat rng, a')" "ring_array step stride rng a'"
    using builds [OF assms] by blast
  obtain j where j: "warm a' bench_size = Returned (Inr j)"
    using warms [OF a'(2)] by blast
  have "timed_loop cas (processor E) 0 a' = Returned (0, a')"
    by (simp add: timed_loop_def cas_chase_eq)
  then show ?thesis
    by (simp add: run_level_def a'(1) j split_def Let_def)
qed

end

lemma bench_size_eq: "bench_size = 100663296"
  by (simp add: bench_size_def cache_sizes)

lemma bench_bytes_eq: "bench_bytes = 402653184"
  by (simp add: bench_bytes_def bench_size_eq sizeof_uint32_def)

interpretation level_L1: bench_level 1 1 4096 l1h warmUpL1
proof
  show "\<exists>a'. l1h a bench_size = Returned (of_nat 4096, a') \<and> arr_len a' = arr_len a \<and> ring_array 1 1 4096 a'"
    if "arr_len a = unat bench_size" for a
    using l1h_ring [of bench_size a] that by (auto simp: bench_size_eq)
  show "\<exists>j. warmUpL1 a bench_size = Returned (Inr j)" if "ring_array 1 1 4096 a" for a
    using ring_L1.walk_laps [OF that] by (simp add: warm_up_walks bench_size_eq)
qed

interpretation level_L2: bench_level 16 80 32768 l1ml2h warmUpL2
proof
  show "\<exists>a'. l1ml2h a bench_size = Returned (of_nat 32768, a') \<and> arr_len a' = arr_len a \<and> ring_array 16 80 32768 a'"
    if "arr_len a = unat bench_size" for a
    using l1ml2h_ring [of bench_size a] that by (auto simp: bench_size_eq)
  show "\<exists>j. warmUpL2 a bench_size = Returned (Inr j)" if "ring_array 16 80 32768 a" for a
    using ring_L2.walk_laps [OF that] by (simp add: warm_up_walks bench_size_eq)
qed

interpretation level_L3: bench_level 16 80 786432 l2ml3h warmUpL3
proof
  show "\<exists>a'. l2ml3h a bench_size = Returned (of_nat 786432, a') \<and> arr_len a' = arr_len a \<and> ring_array 16 80 786432 a'"
    if "arr_len a = unat bench_size" for a
    using l2ml3h_ring [of bench_size a] that by (auto simp: bench_size_eq)
  show "\<exists>j. warmUpL3 a bench_size = Returned (Inr j)" if "ring_array 16 80 786432 a" for a
    using ring_L3.walk_laps [OF that] by (simp add: warm_up_walks bench_size_eq)
qed

interpretation level_L4: bench_level 16 80 25165824 l3m warmUpL4
proof
  show "\<exists>a'. l3m a bench_size = Returned (of_nat 25165824, a') \<and> arr_len a' = arr_len a \<and> ring_array 16 80 25165824 a'"
    if "arr_len a = unat bench_size" for a
    using l3m_ring [of bench_size a] that by (auto simp: bench_size_eq)
  show "\<exists>j. warmUpL4 a bench_size = Returned (Inr j)" if "ring_array 16 80 25165824 a" for a
    using ring_L4.walk_laps [OF that] by (simp add: warmUpL4_def bench_size_eq)
qed

section \<open>Whole runs\<close>

definition level_costs :: "string \<Rightarrow> nat \<Rightarrow> bench_event list" where
  "level_costs side n =
     [Cost (side @ '' L1'') 0 (of_nat (n mod 4096)), Cost (side @ '' L2'') 0 (of_nat (n * 80 mod 32768)),
      Cost (side @ '' L3'') 0 (of_nat (n * 80 mod 786432)), Cost (side @ '' me'') 0 (of_nat (n * 80 mod 25165824))]"

lemma levels_run:
  assumes len: "arr_len a = unat bench_size" and it: "iter \<noteq> 0" and rep: "can_report E p"
  shows "\<exists>a' s'. run_levels E p cas side iter levels (a, s) = Returned (a', s') \<and>
    summary (out s') = summary (out s) @ level_costs side (unat iter)"
proof -
  obtain a1 s1 where 1: "run_level E p cas side iter (''L1'', l1h, warmUpL1) (a, s) = Returned (a1, s1)"
    "arr_len a1 = unat bench_size" "summary (out s1) = summary (out s) @ [Cost (side @ '' '' @ ''L1'') 0 (of_nat (unat iter * 1 mod 4096))]"
    using level_L1.level_runs [OF len it rep, of cas side "''L1''" s] len by auto
  obtain a2 s2 where 2: "run_level E p cas side iter (''L2'', l1ml2h, warmUpL2) (a1, s1) = Returned (a2, s2)"
    "arr_len a2 = unat bench_size" "summary (out s2) = summary (out s1) @ [Cost (side @ '' '' @ ''L2'') 0 (of_nat (unat iter * 80 mod 32768))]"
    using level_L2.level_runs [OF 1(2) it rep, of cas side "''L2''" s1] 1(2) by auto
  obtain a3 s3 where 3: "run_level E p cas side iter (''L3'', l2ml3h, warmUpL3) (a2, s2) = Returned (a3, s3)"
    "arr_len a3 = unat bench_size" "summary (out s3) = summary (out s2) @ [Cost (side @ '' '' @ ''L3'') 0 (of_nat (unat iter * 80 mod 786432))]"
    using level_L3.level_runs [OF 2(2) it rep, of cas side "''L3''" s2] 2(2) by auto
  obtain a4 s4 where 4: "run_level E p cas side iter (''me'', l3m, warmUpL4) (a3, s3) = Returned (a4, s4)"
    "summary (out s4) = summary (out s3) @ [Cost (side @ '' '' @ ''me'') 0 (of_nat (unat iter * 80 mod 25165824))]"
    using level_L4.level_runs [OF 3(2) it rep, of cas side "''me''" s3] by auto
  have "run_levels E p cas side iter levels (a, s) = Returned (a4, s4)"
    by (simp add: levels_def 1(1) 2(1) 3(1) 4(1) del: on_return_eq_Returned)
  then show ?thesis
    by (simp add: 1(3) 2(3) 3(3) 4(2) level_costs_def)
qed

lemma levels_trap:
  assumes "arr_len a = unat bench_size"
  shows "run_levels E p cas side 0 levels (a, s) = DividedByZero"
  by (simp add: levels_def level_L1.level_traps [OF assms])

text \<open>An environment in which the calls succeed: libnuma, PCM and \<open>sched_setaffinity\<close> work, and there is memory.\<close>

definition obliging :: "'w bench_env \<Rightarrow> bool" where
  "obliging E \<longleftrightarrow> pcm_object E \<noteq> None \<and>
     (\<forall>w. fst (pcm_program E w) = 0 \<and> 0 \<le> fst (sched_setaffinity E [1] w) \<and> fst (numa_available E w) \<noteq> - 1 \<and>
       fst (pcm_program_custom E (map para_entry [(MEM_UOP_RETIRED, LOADS), (MEM_LOAD_UOPS_RETIRED_EVENT, L1_HIT),
         (MEM_LOAD_UOPS_RETIRED_EVENT, L2_HIT), (MEM_LOAD_UOPS_RETIRED_EVENT, LLC_HIT)]) w) = 0 \<and>
       fst (c_malloc E bench_bytes w) \<noteq> None \<and> (\<forall>node. fst (numa_alloc_onnode E bench_bytes node w) \<noteq> None))"

definition node_summary :: "string \<Rightarrow> int \<Rightarrow> nat \<Rightarrow> bench_event list" where
  "node_summary side node n = NumaAlloc node 402653184 # level_costs side n @ [NumaFree 100663296]"

lemma words_len: "p \<noteq> None \<Longrightarrow> arr_len (words bench_bytes p) = unat bench_size"
  by (auto simp: words_def bench_bytes_eq bench_size_eq)

lemma ask_fst: "fst (ask f s) = fst (f (bworld s))"
  by (simp add: ask_def split_def Let_def)

lemma node_allocated:
  assumes "obliging E"
  shows "\<exists>a t. arr_len a = unat bench_size \<and> out t = out s @ [NumaAlloc node bench_bytes] \<and>
    numa_node E cas side node iter s = on_return (run_levels E RatioProbe cas side iter levels (a, t))
      (\<lambda>(_, s). Returned (put (NumaFree (unat bench_size)) s))"
proof -
  define p where "p = ask (numa_alloc_onnode E bench_bytes node) s"
  have "fst p \<noteq> None"
    using assms by (simp add: p_def ask_fst obliging_def)
  then have "numa_node E cas side node iter s = on_return (run_levels E RatioProbe cas side iter levels
      (words bench_bytes (fst p), put (NumaAlloc node bench_bytes) (snd p)))
      (\<lambda>(_, s). Returned (put (NumaFree (unat bench_size)) s))"
    unfolding numa_node_def p_def [symmetric] by (simp only: split_def Let_def if_False)
  moreover have "out (put (NumaAlloc node bench_bytes) (snd p)) = out s @ [NumaAlloc node bench_bytes]"
    by (simp add: p_def)
  ultimately show ?thesis
    using words_len [OF \<open>fst p \<noteq> None\<close>] by blast
qed

lemma node_runs:
  assumes "obliging E" "iter \<noteq> 0"
  shows "\<exists>s'. numa_node E cas side node iter s = Returned s' \<and>
    summary (out s') = summary (out s) @ node_summary side node (unat iter)"
proof -
  obtain a t where t: "arr_len a = unat bench_size" "out t = out s @ [NumaAlloc node bench_bytes]"
    "numa_node E cas side node iter s = on_return (run_levels E RatioProbe cas side iter levels (a, t))
      (\<lambda>(_, s). Returned (put (NumaFree (unat bench_size)) s))"
    using node_allocated [OF assms(1)] by blast
  have "can_report E RatioProbe"
    using assms(1) by (simp add: obliging_def can_report_def)
  from levels_run [OF t(1) assms(2) this] obtain a' s' where
    "run_levels E RatioProbe cas side iter levels (a, t) = Returned (a', s')"
    "summary (out s') = summary (out t) @ level_costs side (unat iter)"
    by blast
  then show ?thesis
    by (simp add: t node_summary_def summary_def bench_bytes_eq bench_size_eq del: on_return_eq_Returned)
qed

lemma node_traps:
  assumes "obliging E"
  shows "numa_node E cas side node 0 s = DividedByZero"
proof -
  obtain a t where "arr_len a = unat bench_size" "numa_node E cas side node 0 s =
      on_return (run_levels E RatioProbe cas side 0 levels (a, t)) (\<lambda>(_, s). Returned (put (NumaFree (unat bench_size)) s))"
    using node_allocated [OF assms] by blast
  then show ?thesis
    by (simp add: levels_trap)
qed

lemma thread_prefix:
  assumes "obliging E"
  shows "\<exists>t. out t = out s \<and> numa_thread E cas failure iter s =
    on_return (numa_node E cas ''local'' 0 iter t) (numa_node E cas ''remote'' 1 iter)"
proof -
  define p where "p = ask (pcm_program E) (s\<lparr>bworld := pcm_cleanup E (bworld s)\<rparr>)"
  define q where "q = setAffinity E 0 (snd p)"
  have "fst p = 0" "\<not> fst q < 0" "pcm_object E \<noteq> None"
    using assms by (simp_all add: p_def q_def setAffinity_def ask_fst obliging_def not_less)
  then have "numa_thread E cas failure iter s =
      on_return (numa_node E cas ''local'' 0 iter (snd q)) (numa_node E cas ''remote'' 1 iter)"
    by (simp add: numa_thread_def p_def [symmetric] q_def [symmetric] split_def Let_def del: not_None_eq)
  moreover have "out (snd q) = out s"
    by (simp add: q_def p_def setAffinity_def)
  ultimately show ?thesis
    by blast
qed

lemma thread_runs:
  assumes "obliging E" "iter \<noteq> 0"
  shows "\<exists>s'. numa_thread E cas failure iter s = Returned s' \<and>
    summary (out s') = summary (out s) @ node_summary ''local'' 0 (unat iter) @ node_summary ''remote'' 1 (unat iter)"
proof -
  obtain t where t: "out t = out s" "numa_thread E cas failure iter s =
      on_return (numa_node E cas ''local'' 0 iter t) (numa_node E cas ''remote'' 1 iter)"
    using thread_prefix [OF assms(1)] by blast
  obtain u where u: "numa_node E cas ''local'' 0 iter t = Returned u"
    "summary (out u) = summary (out t) @ node_summary ''local'' 0 (unat iter)"
    using node_runs [OF assms] by blast
  show ?thesis
    using node_runs [OF assms, of cas "''remote''" 1 u] by (simp add: t u)
qed

lemma thread_traps:
  assumes "obliging E"
  shows "numa_thread E cas failure 0 s = DividedByZero"
  using thread_prefix [OF assms, of s cas failure 0] node_traps [OF assms] by auto

lemma one_option: "iter_options [(CHR ''c'', decimal n)] (ITERCASE, s) = (long_to_int (min (2 ^ 63 - 1) (int n)), s)"
  by (simp add: strtol10_decimal)

lemma iter_of_long: "(word_of_int (long_to_int x) :: u32) = word_of_int x"
  by (simp add: long_to_int_def)

lemma main_prefix:
  assumes "obliging E" "n < 2 ^ 63"
  shows "\<exists>t. out t = out s @ [Title ''direct memory access''] \<and> bench_main E direct cas [(CHR ''c'', decimal n)] s =
    on_return (direct (of_nat n) t) (\<lambda>s. on_return (cas (of_nat n) (put (Title ''cas memory access'') s)) (\<lambda>s. Returned (0, s)))"
proof -
  have "(word_of_int (long_to_int (min (2 ^ 63 - 1) (int n))) :: u32) = of_nat n"
    using assms(2) by (simp add: iter_of_long)
  moreover have "fst (ask (numa_available E) s) \<noteq> - 1"
    using assms(1) by (simp add: ask_fst obliging_def)
  ultimately show ?thesis
    unfolding bench_main_def one_option
    by (intro exI [of _ "put (Title ''direct memory access'') (snd (ask (numa_available E) s))"]) (simp add: split_def Let_def)
qed

text \<open>The two parts of a program, given what each does.\<close>

lemma main_runs:
  assumes "obliging E" "0 < n" "n < 2 ^ 32"
    and direct: "\<And>iter t. iter \<noteq> 0 \<Longrightarrow> \<exists>t'. direct iter t = Returned t' \<and> summary (out t') = summary (out t) @ xs (unat iter)"
    and cas: "\<And>iter t. iter \<noteq> 0 \<Longrightarrow> \<exists>t'. cas iter t = Returned t' \<and> summary (out t') = summary (out t) @ ys (unat iter)"
  shows "\<exists>s'. bench_main E direct cas [(CHR ''c'', decimal n)] s = Returned (0, s') \<and>
    summary (out s') = summary (out s) @ Title ''direct memory access'' # xs n @ Title ''cas memory access'' # ys n"
proof -
  have n: "unat (of_nat n :: u32) = n"
    using assms(3) by (simp add: unat_of_nat_small)
  with assms(2) have nz: "(of_nat n :: u32) \<noteq> 0"
    by auto
  obtain t where t: "out t = out s @ [Title ''direct memory access'']" "bench_main E direct cas [(CHR ''c'', decimal n)] s =
    on_return (direct (of_nat n) t) (\<lambda>s. on_return (cas (of_nat n) (put (Title ''cas memory access'') s)) (\<lambda>s. Returned (0, s)))"
    using main_prefix [OF assms(1), of n s] assms(3) by fastforce
  obtain u where u: "direct (of_nat n) t = Returned u" "summary (out u) = summary (out t) @ xs n"
    using direct [OF nz] n by metis
  obtain v where "cas (of_nat n) (put (Title ''cas memory access'') u) = Returned v"
    "summary (out v) = summary (out (put (Title ''cas memory access'') u)) @ ys n"
    using cas [OF nz] n by metis
  with t u show ?thesis
    by (simp add: summary_def del: on_return_eq_Returned)
qed

lemma smp_levels_run:
  assumes "obliging E" "iter \<noteq> 0" "p \<noteq> RatioProbe" "summary [release] = [release]"
  shows "\<exists>s'. smp_levels E p cas release iter s = Returned s' \<and>
    summary (out s') = summary (out s) @ Malloc 402653184 # level_costs ''local'' (unat iter) @ [release]"
proof -
  define q where "q = setAffinity E 0 s"
  define b where "b = ask (c_malloc E bench_bytes) (snd q)"
  have q: "\<not> fst q < 0" "fst b \<noteq> None" "can_report E p"
    using assms by (simp_all add: q_def b_def setAffinity_def ask_fst obliging_def not_less can_report_def)
  obtain a' s' where l: "run_levels E p cas ''local'' iter levels (words bench_bytes (fst b), put (Malloc bench_bytes) (snd b)) =
      Returned (a', s')"
    "summary (out s') = summary (out (put (Malloc bench_bytes) (snd b))) @ level_costs ''local'' (unat iter)"
    using levels_run [OF words_len [OF q(2)] assms(2) q(3)] by blast
  have "smp_levels E p cas release iter s = Returned (put release s')"
    unfolding smp_levels_def smp_setAffinity_eq q_def [symmetric] Let_def split_def
    by (simp only: q(1,2) if_False b_def [symmetric] l(1) on_return.simps fst_conv snd_conv)
  moreover have "out (snd b) = out s"
    by (simp add: b_def q_def setAffinity_def)
  ultimately show ?thesis
    using l(2) assms(4) by (simp add: bench_bytes_eq) (simp add: summary_def)
qed

lemma initpcm_succeeds: "obliging E \<Longrightarrow> fst (initpcm E s) = 0 \<and> out (snd (initpcm E s)) = out s"
  by (auto simp: initpcm_def obliging_def ask_fst split: option.splits)

definition smp_summary :: "bench_event \<Rightarrow> nat \<Rightarrow> bench_event list" where
  "smp_summary release n = Malloc 402653184 # level_costs ''local'' n @ [release]"

lemma smp_threads_run:
  assumes "obliging E" "iter \<noteq> 0"
  shows "\<exists>s'. smpmemthread E iter s = Returned s' \<and> summary (out s') = summary (out s) @ smp_summary Free (unat iter)"
    and "\<exists>s'. cassmpthread E iter s = Returned s' \<and>
      summary (out s') = summary (out s) @ smp_summary (NumaFree 100663296) (unat iter)"
  using smp_levels_run [OF assms, of CountProbe Free False "snd (initpcm E s)"] initpcm_succeeds [OF assms(1), of s]
    smp_levels_run [OF assms, of NoProbe "NumaFree (unat bench_size)" True s]
  by (simp_all add: smpmemthread_def cassmpthread_def smp_summary_def split_def Let_def bench_size_eq summary_def [of "[_]"])

section \<open>Properties\<close>

text \<open>
  C12: where the libraries work, both benchmarks with \<open>-c n\<close>, \<open>0 < n < 2^32\<close>, return 0, and their runs
  are the following, up to the times and counter values they print. First reading, then with atomic
  operations, \<open>numatest\<close> allocates the array on node 0 and then on node 1 and \<open>smptest\<close> allocates it
  once; each time the costs of the four levels are printed and the array is released; the walk of
  each level ends where \<open>n\<close> strides around its ring lead.
\<close>

theorem benchmark_runs:
  assumes "obliging E" "0 < n" "n < 2 ^ 32"
  shows "(\<exists>s'. numatest E [(CHR ''c'', decimal n)] s = Returned (0, s') \<and>
      summary (out s') = summary (out s) @
        Title ''direct memory access'' # (node_summary ''local'' 0 n @ node_summary ''remote'' 1 n) @
        Title ''cas memory access'' # (node_summary ''local'' 0 n @ node_summary ''remote'' 1 n)) \<and>
    (\<exists>s'. smptest E [(CHR ''c'', decimal n)] s = Returned (0, s') \<and>
      summary (out s') = summary (out s) @ Title ''direct memory access'' # smp_summary Free n @
        Title ''cas memory access'' # smp_summary (NumaFree 100663296) n)"
  unfolding numatest_def smptest_def memthread_def casthread_def
  by (intro conjI main_runs [OF assms] thread_runs [OF assms(1)] smp_threads_run [OF assms(1)])

definition demo_env :: "nat bench_env" where
  "demo_env = \<lparr>pcm_object = Some (demo_pcm HASWELL), double_rounding = double_round, pcm_cleanup = (\<lambda>w. w),
     pcm_program = (\<lambda>w. (0, w)), pcm_program_custom = (\<lambda>_ w. (0, w)), core_counters = (\<lambda>w. (basic_init, w)),
     rdtsc = (\<lambda>w. ((of_nat w, 0), Suc w)), sched_setaffinity = (\<lambda>_ w. (0, w)), numa_available = (\<lambda>w. (0, w)),
     numa_alloc_onnode = (\<lambda>_ _ w. (Some (\<lambda>_. 0), w)), c_malloc = (\<lambda>_ w. (Some (\<lambda>_. 0), w)),
     processor = \<lparr>pc = 0, res = 0, zf = False\<rparr>\<rparr>"

lemma demo_obliging: "obliging demo_env"
  by (simp add: obliging_def demo_env_def)

theorem benchmark_runs_witness:
  "\<exists>s'. numatest demo_env [(CHR ''c'', decimal 1000)] \<lparr>bworld = 0, out = []\<rparr> = Returned (0, s') \<and>
     take 4 (summary (out s')) = [Title ''direct memory access'', NumaAlloc 0 402653184, Cost ''local L1'' 0 1000,
       Cost ''local L2'' 0 14464]"
  using benchmark_runs [OF demo_obliging, of 1000 "\<lparr>bworld = 0, out = []\<rparr>"]
  by (auto simp: node_summary_def level_costs_def)

text \<open>
  \<open>numatest -c n\<close> with a multiple of \<open>2 ^ 32\<close>, in particular \<open>-c 0\<close>, divides by zero: the
  number of iterations is cut to 32 bits and the cost is a division by it.
\<close>

theorem numatest_zero_iterations:
  assumes "obliging E" "n mod 2 ^ 32 = 0" "n < 2 ^ 63"
  shows "numatest E [(CHR ''c'', decimal n)] s = DividedByZero"
proof -
  have "(of_nat n :: u32) = 0"
    using assms(2) by (simp add: word_of_nat_eq_0_iff mod_eq_0_iff_dvd)
  then show ?thesis
    using main_prefix [OF assms(1,3), of s "memthread E" "casthread E"] thread_traps [OF assms(1)]
    by (auto simp: numatest_def memthread_def)
qed

theorem numatest_zero_iterations_witness:
  "numatest demo_env [(CHR ''c'', decimal 4294967296)] \<lparr>bworld = 0, out = []\<rparr> = DividedByZero"
  by (rule numatest_zero_iterations [OF demo_obliging]) simp_all

fun is_memory :: "bench_event \<Rightarrow> bool" where
  "is_memory (NumaAlloc _ _) \<longleftrightarrow> True"
| "is_memory (Malloc _) \<longleftrightarrow> True"
| "is_memory (NumaFree _) \<longleftrightarrow> True"
| "is_memory Free \<longleftrightarrow> True"
| "is_memory _ \<longleftrightarrow> False"

definition memory :: "'w bench \<Rightarrow> bench_event list" where
  "memory s = filter is_memory (out s)"

lemma memory_put [simp]: "memory (put e s) = (if is_memory e then memory s @ [e] else memory s)"
  by (simp add: memory_def)

lemma memory_ask [simp]: "memory (snd (ask f s)) = memory s"
  by (simp add: memory_def)

lemma memory_world [simp]: "memory (s\<lparr>bworld := w\<rparr>) = memory s"
  by (simp add: memory_def)

lemma memory_probe [simp]: "memory (snd (read_probe E p s)) = memory s" "memory (snd (cycle_count E s)) = memory s"
  by (simp_all add: memory_def)

lemma memory_report: "outputDetailStatistic E p b c s = Returned s' \<Longrightarrow> memory s' = memory s"
  by (auto simp: outputDetailStatistic_def dump_def split: probe.splits option.splits)

lemma run_level_memory:
  assumes "run_level E p cas side iter l (a, s) = Returned (a', s')"
  shows "memory s' = memory s"
  using assms by (cases l) (auto simp: run_level_def split_def Let_def dest!: memory_report split: if_splits sum.splits)

lemma run_levels_memory:
  "run_levels E p cas side iter ls (a, s) = Returned (a', s') \<Longrightarrow> memory s' = memory s"
  by (induction ls arbitrary: a s) (auto dest: run_level_memory)

lemma null_levels: "run_levels E p cas side iter levels (words b None, s) \<noteq> Returned x"
proof -
  have "l1h (words b None) bench_size = OutOfBounds"
    by (simp add: pattern_fills bench_size_eq fill_def fill_loop.simps [of _ _ _ 0] words_def arr_write_def)
  then show ?thesis
    by (simp add: levels_def run_level_def)
qed

lemma node_memory:
  assumes "numa_node E cas side node iter s = Returned s'"
  shows "memory s' = memory s @ [NumaAlloc node 402653184, NumaFree 100663296]"
  using assms null_levels [of E RatioProbe cas side iter bench_bytes]
  by (auto simp: numa_node_def split_def Let_def bench_bytes_eq bench_size_eq dest!: run_levels_memory split: if_splits)

definition node_memory_events :: "bench_event list" where
  "node_memory_events = [NumaAlloc 0 402653184, NumaFree 100663296, NumaAlloc 1 402653184, NumaFree 100663296]"

lemma thread_memory:
  assumes "numa_thread E cas failure iter s = Returned s'"
  shows "memory s' \<in> {memory s, memory s @ node_memory_events}"
  using assms by (auto simp: numa_thread_def setAffinity_def split_def Let_def node_memory_events_def dest!: node_memory split: if_splits)

lemma smp_memory:
  assumes "smp_levels E p cas release iter s = Returned s'" "is_memory release"
  shows "memory s' \<in> {memory s, memory s @ [Malloc 402653184, release]}"
  using assms null_levels [of E p cas "''local''" iter bench_bytes]
  by (auto simp: smp_levels_def setAffinity_def split_def Let_def bench_bytes_eq dest!: run_levels_memory split: if_splits)

lemma options_memory: "memory (snd (iter_options opts x)) = memory (snd x)"
  by (induction opts arbitrary: x) simp_all

text \<open>What two parts of a program do to memory, one after the other.\<close>

lemma main_memory:
  assumes "bench_main E direct cas opts s = Returned (r, s')"
    and "\<And>iter t t'. direct iter t = Returned t' \<Longrightarrow> memory t' \<in> {memory t, memory t @ xs}"
    and "\<And>iter t t'. cas iter t = Returned t' \<Longrightarrow> memory t' \<in> {memory t, memory t @ ys}"
  shows "\<exists>us \<in> {[], xs}. \<exists>vs \<in> {[], ys}. memory s' = memory s @ us @ vs"
proof (cases "fst (ask (numa_available E) (snd (iter_options opts (ITERCASE, s)))) = - 1")
  case True
  with assms(1) options_memory [of opts "(ITERCASE, s)"] show ?thesis
    by (auto simp: bench_main_def split_def Let_def)
next
  case False
  let ?t = "put (Title ''direct memory access'') (snd (ask (numa_available E) (snd (iter_options opts (ITERCASE, s)))))"
  let ?it = "word_of_int (fst (iter_options opts (ITERCASE, s))) :: u32"
  from False assms(1) obtain u where u: "direct ?it ?t = Returned u" "cas ?it (put (Title ''cas memory access'') u) = Returned s'"
    by (auto simp: bench_main_def split_def Let_def)
  have "memory ?t = memory s"
    using options_memory [of opts "(ITERCASE, s)"] by simp
  then show ?thesis
    using assms(2) [OF u(1)] assms(3) [OF u(2)] by auto
qed

text \<open>
  C28: what the benchmarks allocate and free, in every environment and for all options. A run of
  \<open>numatest\<close> that returns has allocated 402653184 bytes on each node and freed only 100663296 of them,
  none or one time in each of its two parts; \<open>smptest\<close> frees the array of its first part and hands
  that of its second part, which comes from \<open>malloc\<close>, to \<open>numa_free\<close>.
\<close>

theorem benchmark_memory:
  "(numatest E opts s = Returned (r, s') \<longrightarrow>
      (\<exists>us \<in> {[], node_memory_events}. \<exists>vs \<in> {[], node_memory_events}. memory s' = memory s @ us @ vs)) \<and>
   (smptest E opts s = Returned (r, s') \<longrightarrow>
      (\<exists>us \<in> {[], [Malloc 402653184, Free]}. \<exists>vs \<in> {[], [Malloc 402653184, NumaFree 100663296]}.
        memory s' = memory s @ us @ vs))"
proof (intro conjI impI)
  assume "numatest E opts s = Returned (r, s')"
  then show "\<exists>us \<in> {[], node_memory_events}. \<exists>vs \<in> {[], node_memory_events}. memory s' = memory s @ us @ vs"
    unfolding numatest_def memthread_def casthread_def by (rule main_memory) (erule thread_memory)+
next
  assume run: "smptest E opts s = Returned (r, s')"
  have direct: "memory t' \<in> {memory t, memory t @ [Malloc 402653184, Free]}" if "smpmemthread E iter t = Returned t'" for iter t t'
  proof -
    have "memory (snd (initpcm E t)) = memory t"
      by (simp add: initpcm_def split: option.splits)
    with that show ?thesis
      by (auto simp: smpmemthread_def split_def Let_def dest!: smp_memory split: if_splits)
  qed
  have cas: "memory t' \<in> {memory t, memory t @ [Malloc 402653184, NumaFree 100663296]}"
    if "cassmpthread E iter t = Returned t'" for iter t t'
    using smp_memory [OF that [unfolded cassmpthread_def]] by (simp add: bench_size_eq)
  show "\<exists>us \<in> {[], [Malloc 402653184, Free]}. \<exists>vs \<in> {[], [Malloc 402653184, NumaFree 100663296]}.
      memory s' = memory s @ us @ vs"
    by (rule main_memory [OF run [unfolded smptest_def] direct cas])
qed

theorem benchmark_memory_witness:
  "\<exists>s'. smptest demo_env [(CHR ''c'', decimal 7)] \<lparr>bworld = 0, out = []\<rparr> = Returned (0, s') \<and>
     (\<exists>us \<in> {[], [Malloc 402653184, Free]}. \<exists>vs \<in> {[], [Malloc 402653184, NumaFree 100663296]}. memory s' = us @ vs)"
proof -
  let ?s = "\<lparr>bworld = 0, out = []\<rparr> :: nat bench"
  have "\<exists>s'. smptest demo_env [(CHR ''c'', decimal 7)] ?s = Returned (0, s') \<and>
      summary (out s') = summary (out ?s) @ Title ''direct memory access'' # smp_summary Free 7 @
        Title ''cas memory access'' # smp_summary (NumaFree 100663296) 7"
    unfolding smptest_def by (intro main_runs [OF demo_obliging] smp_threads_run [OF demo_obliging]) simp_all
  then obtain s' where "smptest demo_env [(CHR ''c'', decimal 7)] ?s = Returned (0, s')"
    by blast
  with benchmark_memory [of demo_env "[(CHR ''c'', decimal 7)]" "\<lparr>bworld = 0, out = []\<rparr>" 0 s'] show ?thesis
    by (auto simp: memory_def)
qed

end
