(* ===== verification/Numa_Barrier.thy ===== *)
theory Numa_Barrier
  imports CS_Prelude
begin

text \<open>
  The two threads \<open>barrierThread1\<close> and \<open>barrierThread2\<close> of src/mem/numatest.cpp: one increments two
  shared integers in order, the other reads and prints them in the same order. A step relation
  interleaves their loads and stores, in the order the x86 keeps them in; the overflow of a counter, which
  the language does not define, is not a step.
\<close>

section \<open>The threads\<close>

datatype writer = Store1 | Store2 | BindWriter | Inc1 | Inc2 | WriterDone
datatype reader = BindReader | Load1 | Load2 | PrintBoth | ReaderDone

record shared =
  mem1 :: int
  mem2 :: int
  wpc :: writer
  rpc :: reader
  reg_x :: int
  reg_y :: int
  printed :: "(int \<times> int) list"

definition shared_init :: "int \<Rightarrow> int \<Rightarrow> int \<Rightarrow> int \<Rightarrow> shared" where
  "shared_init m1 m2 x y = \<lparr>mem1 = m1, mem2 = m2, wpc = Store1, rpc = BindReader, reg_x = x, reg_y = y, printed = []\<rparr>"

inductive barrierThread1 :: "shared \<Rightarrow> shared \<Rightarrow> bool" where
  "wpc s = Store1 \<Longrightarrow> barrierThread1 s (s\<lparr>mem1 := 1, wpc := Store2\<rparr>)"
| "wpc s = Store2 \<Longrightarrow> barrierThread1 s (s\<lparr>mem2 := 2, wpc := BindWriter\<rparr>)"
| "wpc s = BindWriter \<Longrightarrow> barrierThread1 s (s\<lparr>wpc := WriterDone\<rparr>)"
| "wpc s = BindWriter \<Longrightarrow> barrierThread1 s (s\<lparr>wpc := Inc1\<rparr>)"
| "wpc s = Inc1 \<Longrightarrow> mem1 s + 10 < 2 ^ 31 \<Longrightarrow> barrierThread1 s (s\<lparr>mem1 := mem1 s + 10, wpc := Inc2\<rparr>)"
| "wpc s = Inc2 \<Longrightarrow> mem2 s + 10 < 2 ^ 31 \<Longrightarrow> barrierThread1 s (s\<lparr>mem2 := mem2 s + 10, wpc := Inc1\<rparr>)"

inductive barrierThread2 :: "shared \<Rightarrow> shared \<Rightarrow> bool" where
  "rpc s = BindReader \<Longrightarrow> barrierThread2 s (s\<lparr>rpc := ReaderDone\<rparr>)"
| "rpc s = BindReader \<Longrightarrow> barrierThread2 s (s\<lparr>rpc := Load1\<rparr>)"
| "rpc s = Load1 \<Longrightarrow> barrierThread2 s (s\<lparr>reg_x := mem1 s, rpc := Load2\<rparr>)"
| "rpc s = Load2 \<Longrightarrow> barrierThread2 s (s\<lparr>reg_y := mem2 s, rpc := PrintBoth\<rparr>)"
| "rpc s = PrintBoth \<Longrightarrow> barrierThread2 s (s\<lparr>printed := printed s @ [(reg_x s, reg_y s)], rpc := Load1\<rparr>)"

inductive_cases barrierThread1E: "barrierThread1 s t"
inductive_cases barrierThread2E: "barrierThread2 s t"

inductive reachable_from :: "shared \<Rightarrow> shared \<Rightarrow> bool" where
  start: "reachable_from s s"
| first: "reachable_from s t \<Longrightarrow> barrierThread1 t u \<Longrightarrow> reachable_from s u"
| second: "reachable_from s t \<Longrightarrow> barrierThread2 t u \<Longrightarrow> reachable_from s u"

section \<open>Invariant\<close>

text \<open>Where the two counters stand, given what the memory held before.\<close>

definition counters :: "int \<Rightarrow> int \<Rightarrow> writer \<Rightarrow> int \<Rightarrow> int \<Rightarrow> bool" where
  "counters m1 m2 p a b \<longleftrightarrow>
     (case p of
        Store1 \<Rightarrow> a = m1 \<and> b = m2
      | Store2 \<Rightarrow> a = 1 \<and> b = m2
      | Inc2 \<Rightarrow> b mod 10 = 2 \<and> a = b + 9
      | _ \<Rightarrow> b mod 10 = 2 \<and> a = b - 1)"

text \<open>A value of the first counter that a second counter of at least \<open>y\<close> may follow.\<close>

definition loaded :: "int \<Rightarrow> int \<Rightarrow> bool \<Rightarrow> int \<Rightarrow> bool" where
  "loaded m1 x ready y \<longleftrightarrow> x = m1 \<or> x = 1 \<or> ready \<and> x mod 10 = 1 \<and> y mod 10 = 2 \<and> x - 9 \<le> y"

definition barrier_inv :: "int \<Rightarrow> int \<Rightarrow> shared \<Rightarrow> bool" where
  "barrier_inv m1 m2 s \<longleftrightarrow> counters m1 m2 (wpc s) (mem1 s) (mem2 s) \<and>
     (rpc s = Load2 \<longrightarrow> loaded m1 (reg_x s) (wpc s \<notin> {Store1, Store2}) (mem2 s)) \<and>
     (rpc s = PrintBoth \<longrightarrow> loaded m1 (reg_x s) True (reg_y s)) \<and>
     (\<forall>(x, y) \<in> set (printed s). loaded m1 x True y)"

lemma barrier_inv_init: "barrier_inv m1 m2 (shared_init m1 m2 x y)"
  by (simp add: barrier_inv_def shared_init_def counters_def)

text \<open>A pair stays possible when the second counter moves on.\<close>

lemma loaded_later:
  "loaded m1 x ready y \<Longrightarrow> ready \<longrightarrow> ready' \<and> y \<le> y' \<and> y' mod 10 = y mod 10 \<Longrightarrow> loaded m1 x ready' y'"
  by (auto simp: loaded_def)

lemma counters_step:
  "barrierThread1 s t \<Longrightarrow> counters m1 m2 (wpc s) (mem1 s) (mem2 s) \<Longrightarrow> counters m1 m2 (wpc t) (mem1 t) (mem2 t)"
  by (erule barrierThread1E) (simp_all add: counters_def)

lemma barrier_inv_first:
  assumes "barrier_inv m1 m2 s" "barrierThread1 s t"
  shows "barrier_inv m1 m2 t"
proof -
  have same: "rpc t = rpc s" "reg_x t = reg_x s" "reg_y t = reg_y s" "printed t = printed s"
    using assms(2) by (cases rule: barrierThread1.cases; simp)+
  have later: "wpc s \<notin> {Store1, Store2} \<longrightarrow> wpc t \<notin> {Store1, Store2} \<and> mem2 s \<le> mem2 t \<and> mem2 t mod 10 = mem2 s mod 10"
    using assms(2) by (cases rule: barrierThread1.cases) simp_all
  have "counters m1 m2 (wpc t) (mem1 t) (mem2 t)"
    using counters_step [OF assms(2)] assms(1) by (simp add: barrier_inv_def)
  moreover have "rpc t = Load2 \<longrightarrow> loaded m1 (reg_x t) (wpc t \<notin> {Store1, Store2}) (mem2 t)"
    using assms(1) loaded_later [OF _ later] by (simp add: barrier_inv_def same del: insert_iff)
  ultimately show ?thesis
    using assms(1) unfolding barrier_inv_def same by blast
qed

lemma mod_neighbours: "(b :: int) mod 10 = 2 \<Longrightarrow> (b + 9) mod 10 = 1 \<and> (b - 1) mod 10 = 1"
  by presburger

lemma counters_loaded: "counters m1 m2 p a b \<Longrightarrow> loaded m1 a (p \<notin> {Store1, Store2}) b"
  by (cases p) (auto simp: counters_def loaded_def mod_neighbours)

lemma barrier_inv_second:
  assumes "barrier_inv m1 m2 s" "barrierThread2 s t"
  shows "barrier_inv m1 m2 t"
  using assms(2)
proof (cases rule: barrierThread2.cases)
  case 3
  then show ?thesis
    using assms(1) counters_loaded by (auto simp: barrier_inv_def)
next
  case 4
  then have "loaded m1 (reg_x s) True (mem2 s)"
    using assms(1) by (auto simp: barrier_inv_def elim: loaded_later)
  with 4 show ?thesis
    using assms(1) by (simp add: barrier_inv_def)
qed (use assms(1) in \<open>simp_all add: barrier_inv_def\<close>)

lemma barrier_inv_reachable:
  "reachable_from s t \<Longrightarrow> barrier_inv m1 m2 s \<Longrightarrow> barrier_inv m1 m2 t"
  by (induction rule: reachable_from.induct) (blast intro: barrier_inv_first barrier_inv_second)+

section \<open>Properties\<close>

text \<open>
  C36: the reader sees the writer's order. In every interleaving, a printed pair shows the counters of
  one or a later turn of the writer: the second value is behind the first by less than one
  increment, \<open>x - 9 \<le> y\<close>, unless the first value is what the memory held before or the writer's
  first store.
\<close>

theorem barrier_order:
  assumes "reachable_from (shared_init m1 m2 x0 y0) s" "(x, y) \<in> set (printed s)" "x \<noteq> m1" "x \<noteq> 1"
  shows "x mod 10 = 1 \<and> y mod 10 = 2 \<and> x - 9 \<le> y"
proof -
  have "barrier_inv m1 m2 s"
    using barrier_inv_reachable [OF assms(1) barrier_inv_init] .
  with assms(2-4) show ?thesis
    by (auto simp: barrier_inv_def loaded_def)
qed

text \<open>The reader loads the first counter between the two increments and prints the pair before the second.\<close>

theorem barrier_order_witness:
  "\<exists>s. reachable_from (shared_init 0 0 0 0) s \<and> (11, 2) \<in> set (printed s) \<and> (2 :: int) mod 10 = 2 \<and> (11 :: int) - 9 \<le> 2"
proof -
  let ?s1 = "(shared_init 0 0 0 0)\<lparr>mem1 := 1, wpc := Store2\<rparr>"
  let ?s2 = "?s1\<lparr>mem2 := 2, wpc := BindWriter\<rparr>"
  let ?s3 = "?s2\<lparr>wpc := Inc1\<rparr>"
  let ?s4 = "?s3\<lparr>mem1 := mem1 ?s3 + 10, wpc := Inc2\<rparr>"
  let ?s5 = "?s4\<lparr>rpc := Load1\<rparr>"
  let ?s6 = "?s5\<lparr>reg_x := mem1 ?s5, rpc := Load2\<rparr>"
  let ?s7 = "?s6\<lparr>reg_y := mem2 ?s6, rpc := PrintBoth\<rparr>"
  let ?s8 = "?s7\<lparr>printed := printed ?s7 @ [(reg_x ?s7, reg_y ?s7)], rpc := Load1\<rparr>"
  note init = shared_init_def
  have "reachable_from (shared_init 0 0 0 0) ?s4"
    by (intro first [OF _ barrierThread1.intros(5)] first [OF _ barrierThread1.intros(4)]
        first [OF _ barrierThread1.intros(2)] first [OF _ barrierThread1.intros(1)] start) (simp_all add: init)
  then have "reachable_from (shared_init 0 0 0 0) ?s8"
    by (intro second [OF _ barrierThread2.intros(5)] second [OF _ barrierThread2.intros(4)]
        second [OF _ barrierThread2.intros(3)] second [OF _ barrierThread2.intros(2)]) (simp_all add: init)
  moreover have "(11, 2) \<in> set (printed ?s8)"
    by (simp add: init)
  moreover have "(2 :: int) mod 10 = 2 \<and> (11 :: int) - 9 \<le> 2"
    using barrier_order [OF calculation] by simp
  ultimately show ?thesis
    by blast
qed

end
