(* ===== verification/Net_Echo.thy ===== *)
theory Net_Echo
  imports Byte_Order Clocks
begin

text \<open>
  The TCP echo benchmark src/net/Network.cpp: a server that sends back what it receives and a client
  that times a hundred thousand exchanges with the stop watch of src/clc/MyClock.cpp. The socket and
  thread calls are a record \<open>net\<close> of functions on a world; the last section closes the loop and runs
  the client against the server's own code.
\<close>

section \<open>Environment\<close>

text \<open>
  \<open>n_read\<close> gives the bytes it stored: at most as many as asked for, none at the end of the stream or on
  an error; the programs ignore the results of \<open>read\<close> and \<open>write\<close>. \<open>n_new\<close> gives what the new memory
  holds, \<open>n_watch\<close> what the memory of the stop watch holds.
\<close>

record 'w net =
  n_socket :: "'w \<Rightarrow> int \<times> 'w"
  n_setsockopt :: "int \<Rightarrow> 'w \<Rightarrow> int \<times> 'w"
  n_bind :: "int \<Rightarrow> string \<times> nat \<Rightarrow> 'w \<Rightarrow> int \<times> 'w"
  n_listen :: "int \<Rightarrow> int \<Rightarrow> 'w \<Rightarrow> int \<times> 'w"
  n_accept :: "int \<Rightarrow> 'w \<Rightarrow> int \<times> 'w"
  n_connect :: "int \<Rightarrow> string \<times> nat \<Rightarrow> 'w \<Rightarrow> int \<times> 'w"
  n_read :: "int \<Rightarrow> nat \<Rightarrow> 'w \<Rightarrow> bytes \<times> 'w"
  n_write :: "int \<Rightarrow> bytes \<Rightarrow> 'w \<Rightarrow> 'w"
  n_close :: "int \<Rightarrow> 'w \<Rightarrow> 'w"
  n_time :: "'w \<Rightarrow> timeval \<times> 'w"
  n_pthread_create :: "'w \<Rightarrow> int \<times> 'w"
  n_new :: "nat \<Rightarrow> 'w \<Rightarrow> bytes \<times> 'w"
  n_watch :: MyClock

datatype net_event =
    Print string
  | Perror string
  | TimeCost int
  | TimePerCase int

record 'w netst =
  nworld :: 'w
  console :: "net_event list"
  m_ins :: "MyClock option"

definition say :: "net_event \<Rightarrow> 'w netst \<Rightarrow> 'w netst" where
  "say e s = s\<lparr>console := console s @ [e]\<rparr>"

definition calls :: "('w \<Rightarrow> 'a \<times> 'w) \<Rightarrow> 'w netst \<Rightarrow> 'a \<times> 'w netst" where
  "calls f s = (let (x, w) = f (nworld s) in (x, s\<lparr>nworld := w\<rparr>))"

definition MAXCONN :: int where "MAXCONN = 5"
definition TESTCASE :: nat where "TESTCASE = 100000"
definition server_address :: "string \<times> nat" where "server_address = (''10.11.1.235'', 8001)"

section \<open>The server\<close>

text \<open>One turn of the loop of \<open>receiveHandler\<close>; \<open>None\<close> when \<open>strlen\<close> runs beyond the buffer.\<close>

definition handler_round :: "'w net \<Rightarrow> int \<Rightarrow> 'w \<Rightarrow> 'w option" where
  "handler_round E fd w =
     (let (buf, w) = n_new E 128 w;
          (data, w) = n_read E fd 128 w
      in map_option (\<lambda>str. n_write E fd str w) (c_string (blit data buf)))"

partial_function (option) handler_loop :: "'w net \<Rightarrow> int \<Rightarrow> 'w \<Rightarrow> unit outcome option" where
  "handler_loop E fd w =
     (case handler_round E fd w of None \<Rightarrow> Some OutOfBounds | Some w' \<Rightarrow> handler_loop E fd w')"

definition receiveHandler :: "'w net \<Rightarrow> int \<Rightarrow> 'w \<Rightarrow> unit outcome" where
  "receiveHandler E serverSockFd w =
     (let (clientSockFd, w) = n_accept E serverSockFd w in of_loop (handler_loop E clientSockFd w))"

text \<open>Joining a thread that was not created uses an identifier that was never set.\<close>

definition serverThread :: "'w net \<Rightarrow> 'w netst \<Rightarrow> (int \<times> 'w netst) outcome" where
  "serverThread E s =
     (let (fd, s) = calls (n_socket E) s
      in if fd < 0 then Returned (- 1, say (Print ''socket error'') s)
         else
           let (_, s) = calls (n_setsockopt E fd) s; (r, s) = calls (n_bind E fd server_address) s
           in if r < 0 then Returned (- 1, say (Perror ''Server:: bind error!'') s)
              else
                let (r, s) = calls (n_listen E fd (MAXCONN - 1)) s
                in if r = - 1 then Returned (- 1, say (Print ''Server::listen error!'') s)
                   else
                     let s = say (Print ''Server::listen ok!'') s; (err, s) = calls (n_pthread_create E) s
                     in if err \<noteq> 0 then Undefined
                        else on_return (receiveHandler E fd (nworld s)) (\<lambda>_. Returned (0, s)))"

section \<open>The client\<close>

text \<open>A call on \<open>MyClock::getInstance()\<close>.\<close>

definition on_watch :: "'w net \<Rightarrow> (timeval \<Rightarrow> MyClock \<Rightarrow> MyClock option) \<Rightarrow> 'w netst \<Rightarrow> 'w netst outcome" where
  "on_watch E f s =
     (case getInstance (n_watch E) (m_ins s) of
        None \<Rightarrow> OutOfBounds
      | Some c \<Rightarrow>
          let (now, s) = calls (n_time E) s
          in case f now c of None \<Rightarrow> Undefined | Some c \<Rightarrow> Returned (s\<lparr>m_ins := Some c\<rparr>))"

definition hello :: bytes where "hello = chars ''hello world''"

text \<open>
  One exchange. \<open>strcmp\<close> stops at the first difference, so it compares the first twelve bytes.
\<close>

definition client_round :: "'w net \<Rightarrow> int \<Rightarrow> 'w netst \<times> bytes \<Rightarrow> ('w netst \<times> bytes) outcome" where
  "client_round E fd = (\<lambda>(s, buf).
     on_return (on_watch E (\<lambda>t c. Some (clock_resume t c)) s) (\<lambda>s.
     case c_string buf of
       None \<Rightarrow> OutOfBounds
     | Some str \<Rightarrow>
         let s = s\<lparr>nworld := n_write E fd str (nworld s)\<rparr>;
             (data, s) = calls (n_read E fd (length str)) s;
             buf = blit data buf
         in on_return (on_watch E clock_stop s) (\<lambda>s.
              Returned (if take 12 buf \<noteq> hello @ [0] then say (Perror ''recv error'') s else s, buf))))"

primrec client_rounds :: "'w net \<Rightarrow> int \<Rightarrow> nat \<Rightarrow> 'w netst \<times> bytes \<Rightarrow> ('w netst \<times> bytes) outcome" where
  "client_rounds E fd 0 x = Returned x"
| "client_rounds E fd (Suc n) x = on_return (client_round E fd x) (client_rounds E fd n)"

text \<open>The argument is not used: the client connects to the fixed address.\<close>

definition clientThread :: "'w net \<Rightarrow> string \<Rightarrow> 'w netst \<Rightarrow> (int \<times> 'w netst) outcome" where
  "clientThread E host s =
     (let (fd, s) = calls (n_socket E) s;
          (result, s) = calls (n_connect E fd server_address) s;
          s = say (if result < 0 then Perror ''Client:: error on connecting'' else Print ''Client::succed in connection'') s;
          (buf, s) = calls (n_new E 64) s;
          buf = blit (hello @ [0]) buf
      in on_return (on_watch E (\<lambda>t c. Some (clock_begin t c)) s) (\<lambda>s.
         on_return (on_watch E clock_stop s) (\<lambda>s.
         on_return (client_rounds E fd TESTCASE (s, buf)) (\<lambda>(s, _).
           let s = s\<lparr>nworld := n_close E fd (nworld s)\<rparr>
           in case getInstance (n_watch E) (m_ins s) of
                None \<Rightarrow> OutOfBounds
              | Some c \<Rightarrow> Returned (0, say (TimePerCase (getTimeByUSec c sdiv int TESTCASE)) (say (TimeCost (getTimeByUSec c)) s))))))"

text \<open>\<open>netmain\<close>, with the argument of \<open>-s\<close> when \<open>getopt\<close> finds it.\<close>

definition netmain :: "'w net \<Rightarrow> string option \<Rightarrow> 'w netst \<Rightarrow> (int \<times> 'w netst) outcome" where
  "netmain E s_option s =
     on_return (case s_option of Some host \<Rightarrow> clientThread E host s | None \<Rightarrow> serverThread E s)
       (\<lambda>(_, s). Returned (0, s))"

section \<open>What the server does\<close>

primrec handler_rounds :: "'w net \<Rightarrow> int \<Rightarrow> nat \<Rightarrow> 'w \<Rightarrow> 'w option" where
  "handler_rounds E fd 0 w = Some w"
| "handler_rounds E fd (Suc n) w = Option.bind (handler_round E fd w) (handler_rounds E fd n)"

lemma handler_loop_result:
  "handler_loop E fd w = Some r \<Longrightarrow> r = OutOfBounds \<and> (\<exists>n. handler_rounds E fd n w = None)"
proof (induction rule: handler_loop.raw_induct [rotated, consumes 1])
  case (1 loop E fd w r)
  show ?case
  proof (cases "handler_round E fd w")
    case None
    with 1(2) show ?thesis
      by (auto intro!: exI [of _ "Suc 0"])
  next
    case (Some w')
    with 1(2) have "loop E fd w' = Some r"
      by simp
    from 1(1) [OF this] obtain n where "r = OutOfBounds" "handler_rounds E fd n w' = None"
      by blast
    with Some show ?thesis
      by (auto intro!: exI [of _ "Suc n"])
  qed
qed

lemma handler_loop_stops: "handler_rounds E fd n w = None \<Longrightarrow> handler_loop E fd w = Some OutOfBounds"
proof (induction n arbitrary: w)
  case (Suc n)
  then show ?case
    by (subst handler_loop.simps) (auto split: option.splits)
qed simp

lemma takeWhile_length_le: "i < length xs \<Longrightarrow> \<not> P (xs ! i) \<Longrightarrow> length (takeWhile P xs) \<le> i"
  by (metis not_le_imp_less nth_mem set_takeWhileD takeWhile_nth)

lemma c_string_append: "0 \<notin> set xs \<Longrightarrow> c_string (xs @ ys) = map_option ((@) xs) (c_string ys)"
  by (induction xs) (auto simp: c_string_def split: if_splits)

lemma c_string_zero: "c_string (0 # ys) = Some []"
  by (simp add: c_string_def)

lemma c_string_Some: "c_string b = Some str \<longleftrightarrow> 0 \<notin> set str \<and> (\<exists>ys. b = str @ 0 # ys)"
proof
  assume *: "c_string b = Some str"
  then have "0 \<in> set b"
    by (auto simp: c_string_def split: if_splits)
  then obtain xs ys where "b = xs @ 0 # ys" "0 \<notin> set xs"
    by (meson split_list_first)
  then have "c_string b = Some xs"
    by (simp add: c_string_append c_string_zero)
  with * \<open>b = xs @ 0 # ys\<close> \<open>0 \<notin> set xs\<close> show "0 \<notin> set str \<and> (\<exists>ys. b = str @ 0 # ys)"
    by simp
qed (auto simp: c_string_append c_string_zero)

text \<open>Storing no more than a string's length at its place keeps it terminated and no longer.\<close>

lemma c_string_blit:
  assumes "c_string b = Some str" "length data \<le> length str"
  obtains str' where "c_string (blit data b) = Some str'" "length str' \<le> length str"
proof -
  obtain ys where b: "b = str @ 0 # ys"
    using assms(1) by (auto simp: c_string_Some)
  have "blit data b = (data @ drop (length data) str) @ 0 # ys" (is "_ = ?t @ _")
    using assms(2) by (simp add: b blit_def)
  moreover have "length (takeWhile (\<lambda>x. x \<noteq> 0) (?t @ 0 # ys)) \<le> length ?t"
    by (rule takeWhile_length_le) (simp_all add: nth_append)
  ultimately show thesis
    using that [of "takeWhile (\<lambda>x. x \<noteq> 0) (?t @ 0 # ys)"] assms(2) by (simp add: c_string_def)
qed

section \<open>The bounds of the client's buffer\<close>

text \<open>What \<open>read\<close> and \<open>new\<close> guarantee.\<close>

definition net_ok :: "'w net \<Rightarrow> bool" where
  "net_ok E \<longleftrightarrow> (\<forall>fd n w. length (fst (n_read E fd n w)) \<le> n) \<and> (\<forall>n w. length (fst (n_new E n w)) = n)"

definition buf_ok :: "bytes \<Rightarrow> bool" where
  "buf_ok b \<longleftrightarrow> (\<exists>str. c_string b = Some str \<and> length str \<le> 11)"

text \<open>Coming back with a property, or undefined because the clock overflowed.\<close>

definition safely :: "('a \<Rightarrow> bool) \<Rightarrow> 'a outcome \<Rightarrow> bool" where
  "safely P r \<longleftrightarrow> r = Undefined \<or> (\<exists>x. r = Returned x \<and> P x)"

lemma safely_on_return: "safely P r \<Longrightarrow> (\<And>x. P x \<Longrightarrow> safely Q (f x)) \<Longrightarrow> safely Q (on_return r f)"
  unfolding safely_def by (metis on_return.simps(1,5))

lemma safely_Returned: "P x \<Longrightarrow> safely P (Returned x)"
  by (simp add: safely_def)

lemma on_watch_safe: "safely (\<lambda>_. True) (on_watch E f s)"
  by (auto simp: on_watch_def getInstance_def safely_def Let_def split_def split: option.splits)

lemma client_round_safe:
  assumes "net_ok E" "buf_ok buf"
  shows "safely (\<lambda>(s, buf). buf_ok buf) (client_round E fd (s, buf))"
proof -
  obtain str where str: "c_string buf = Some str" "length str \<le> 11"
    using assms(2) by (auto simp: buf_ok_def)
  have ok: "buf_ok (blit (fst (n_read E fd (length str) w)) buf)" for w
  proof -
    have "length (fst (n_read E fd (length str) w)) \<le> length str"
      using assms(1) by (simp add: net_ok_def)
    from c_string_blit [OF str(1) this] str(2) show ?thesis
      unfolding buf_ok_def by (metis order_trans)
  qed
  have "safely (\<lambda>(s, buf). buf_ok buf)
      (let s = s\<lparr>nworld := n_write E fd str (nworld s)\<rparr>; (data, s) = calls (n_read E fd (length str)) s; buf = blit data buf
       in on_return (on_watch E clock_stop s) (\<lambda>s.
            Returned (if take 12 buf \<noteq> hello @ [0] then say (Perror ''recv error'') s else s, buf)))" for s
    unfolding Let_def split_def
    by (rule safely_on_return [OF on_watch_safe], rule safely_Returned) (simp add: calls_def split_def Let_def ok)
  then show ?thesis
    unfolding client_round_def prod.case str(1) option.case by (rule safely_on_return [OF on_watch_safe])
qed

lemma client_rounds_safe:
  assumes "net_ok E"
  shows "buf_ok (snd x) \<Longrightarrow> safely (\<lambda>(s, buf). buf_ok buf) (client_rounds E fd n x)"
proof (induction n arbitrary: x)
  case 0
  then show ?case by (auto simp: safely_def split_def)
next
  case (Suc n)
  show ?case
    unfolding client_rounds.simps
    by (rule safely_on_return [OF client_round_safe [OF assms, of "snd x" fd "fst x", unfolded prod.collapse]])
      (use Suc in \<open>auto simp: split_def\<close>)
qed

lemma hello_string: "c_string (blit (hello @ [0]) b) = Some hello" if "12 \<le> length b"
  using that by (simp add: blit_def c_string_Some hello_def chars_def)

section \<open>Properties\<close>


text \<open>
  C30: the server's thread never returns: it echoes for ever, also after its peer has closed the
  connection, or runs beyond a buffer in the first round whose buffer has no zero byte. The reply to
  data without zero bytes is the data, followed by what the new buffer held up to its next zero.
\<close>

theorem receive_handler:
  assumes "n_accept E sfd w = (fd, w')"
  shows "receiveHandler E sfd w = (if \<forall>n. handler_rounds E fd n w' \<noteq> None then NeverReturns else OutOfBounds) \<and>
    (\<forall>v b v1 data v2. n_new E 128 v = (b, v1) \<and> n_read E fd 128 v1 = (data, v2) \<and> length data \<le> length b \<and> 0 \<notin> set data \<longrightarrow>
       handler_round E fd v = map_option (\<lambda>rest. n_write E fd (data @ rest) v2) (c_string (drop (length data) b)))"
proof (intro conjI allI impI)
  show "receiveHandler E sfd w = (if \<forall>n. handler_rounds E fd n w' \<noteq> None then NeverReturns else OutOfBounds)"
  proof (cases "handler_loop E fd w'")
    case None
    then have "\<forall>n. handler_rounds E fd n w' \<noteq> None"
      using handler_loop_stops [of E fd _ w'] by auto
    with None assms show ?thesis
      by (simp add: receiveHandler_def)
  next
    case (Some r)
    with handler_loop_result [OF Some] assms show ?thesis
      by (auto simp: receiveHandler_def)
  qed
  fix v b v1 data v2
  assume "n_new E 128 v = (b, v1) \<and> n_read E fd 128 v1 = (data, v2) \<and> length data \<le> length b \<and> 0 \<notin> set data"
  then show "handler_round E fd v = map_option (\<lambda>rest. n_write E fd (data @ rest) v2) (c_string (drop (length data) b))"
    by (simp add: handler_round_def blit_def c_string_append option.map_comp o_def)
qed

section \<open>Client and server together\<close>

text \<open>
  A connection between the two programs: bytes on their way to the server and to the client. The
  \<open>k\<close>-th buffer of the server holds \<open>mem k\<close>, the \<open>k\<close>-th reading of the clock is \<open>ticks k\<close>. A message
  of the client arrives whole and is answered by one round of the server before the client reads.
\<close>

record link =
  inbox :: bytes
  outbox :: bytes
  buffers :: nat
  readings :: nat

definition server_side :: "(nat \<Rightarrow> bytes) \<Rightarrow> link net" where
  "server_side mem = \<lparr>n_socket = (\<lambda>w. (3, w)), n_setsockopt = (\<lambda>_ w. (0, w)), n_bind = (\<lambda>_ _ w. (0, w)),
     n_listen = (\<lambda>_ _ w. (0, w)), n_accept = (\<lambda>_ w. (4, w)), n_connect = (\<lambda>_ _ w. (- 1, w)),
     n_read = (\<lambda>_ n w. (take n (inbox w), w\<lparr>inbox := drop n (inbox w)\<rparr>)),
     n_write = (\<lambda>_ str w. w\<lparr>outbox := outbox w @ str\<rparr>), n_close = (\<lambda>_ w. w),
     n_time = (\<lambda>w. (\<lparr>tv_sec = 0, tv_usec = 0\<rparr>, w)), n_pthread_create = (\<lambda>w. (0, w)),
     n_new = (\<lambda>n w. (mem (buffers w), w\<lparr>buffers := Suc (buffers w)\<rparr>)),
     n_watch = MyClock \<lparr>tv_sec = 0, tv_usec = 0\<rparr> \<lparr>tv_sec = 0, tv_usec = 0\<rparr>\<rparr>"

definition client_side :: "(nat \<Rightarrow> bytes) \<Rightarrow> (nat \<Rightarrow> timeval) \<Rightarrow> link net" where
  "client_side mem ticks = \<lparr>n_socket = (\<lambda>w. (3, w)), n_setsockopt = (\<lambda>_ w. (0, w)), n_bind = (\<lambda>_ _ w. (0, w)),
     n_listen = (\<lambda>_ _ w. (0, w)), n_accept = (\<lambda>_ w. (- 1, w)), n_connect = (\<lambda>_ _ w. (0, w)),
     n_read = (\<lambda>_ n w. (take n (outbox w), w\<lparr>outbox := drop n (outbox w)\<rparr>)),
     n_write = (\<lambda>_ str w. case handler_round (server_side mem) 4 (w\<lparr>inbox := inbox w @ str\<rparr>) of None \<Rightarrow> w | Some w' \<Rightarrow> w'),
     n_close = (\<lambda>_ w. w), n_time = (\<lambda>w. (ticks (readings w), w\<lparr>readings := Suc (readings w)\<rparr>)),
     n_pthread_create = (\<lambda>w. (0, w)), n_new = (\<lambda>n w. (replicate n 0, w)),
     n_watch = MyClock \<lparr>tv_sec = 0, tv_usec = 0\<rparr> \<lparr>tv_sec = 0, tv_usec = 0\<rparr>\<rparr>"

lemma client_side_ok: "net_ok (client_side mem ticks)"
  by (simp add: net_ok_def client_side_def)


theorem receive_handler_witness:
  "receiveHandler (server_side (\<lambda>_. replicate 128 1)) 3 \<lparr>inbox = hello, outbox = [], buffers = 0, readings = 0\<rparr> = OutOfBounds"
proof -
  let ?E = "server_side (\<lambda>_. replicate 128 1)" and ?w = "\<lparr>inbox = hello, outbox = [], buffers = 0, readings = 0\<rparr>"
  have acc: "n_accept ?E 3 ?w = (4, ?w)"
    by (simp add: server_side_def)
  have "0 \<notin> set (blit hello (replicate 128 1))"
    by (auto simp: blit_def hello_def chars_def dest: in_set_dropD)
  moreover have "length hello = 11"
    by (simp add: hello_def chars_def)
  ultimately have "handler_rounds ?E 4 1 ?w = None"
    by (simp add: handler_round_def c_string_def) (simp add: server_side_def)
  then show ?thesis
    using receive_handler [OF acc] by metis
qed

text \<open>New buffers of 128 bytes with a zero where the message ends, and a clock that is not set back.\<close>

definition echo_ok :: "(nat \<Rightarrow> bytes) \<Rightarrow> (nat \<Rightarrow> timeval) \<Rightarrow> bool" where
  "echo_ok mem ticks \<longleftrightarrow> (\<forall>k. length (mem k) = 128 \<and> mem k ! 11 = 0 \<and>
     tv_ok (ticks k) \<and> usec (ticks k) \<le> usec (ticks (Suc k)))"

text \<open>The time from reading \<open>2 i\<close> to reading \<open>2 i + 1\<close>, for \<open>i < n\<close>.\<close>

primrec elapsed :: "(nat \<Rightarrow> timeval) \<Rightarrow> nat \<Rightarrow> int" where
  "elapsed ticks 0 = 0"
| "elapsed ticks (Suc n) = elapsed ticks n + (usec (ticks (Suc (2 * n))) - usec (ticks (2 * n)))"

lemma elapsed_bounds:
  assumes "echo_ok mem ticks"
  shows "0 \<le> elapsed ticks n \<and> elapsed ticks n \<le> usec (ticks (2 * n))"
proof (induction n)
  case 0
  then show ?case
    using assms usec_bounds [of "ticks 0"] by (simp add: echo_ok_def)
next
  case (Suc n)
  have "usec (ticks (2 * n)) \<le> usec (ticks (Suc (2 * n)))" "usec (ticks (Suc (2 * n))) \<le> usec (ticks (Suc (Suc (2 * n))))"
    using assms by (simp_all add: echo_ok_def)
  with Suc show ?case
    by simp
qed

lemma server_echoes:
  assumes "echo_ok mem ticks"
  shows "n_write (client_side mem ticks) fd hello \<lparr>inbox = [], outbox = [], buffers = k, readings = r\<rparr> =
    \<lparr>inbox = [], outbox = hello, buffers = Suc k, readings = r\<rparr>"
proof -
  have len: "length (mem k) = 128" "mem k ! 11 = 0"
    using assms by (simp_all add: echo_ok_def)
  then have "drop 11 (mem k) = 0 # drop 12 (mem k)"
    using Cons_nth_drop_Suc [of 11 "mem k"] by simp
  moreover have "length hello = 11" "0 \<notin> set hello"
    by (simp_all add: hello_def chars_def)
  ultimately have "c_string (blit hello (mem k)) = Some hello"
    by (auto simp: blit_def c_string_Some len)
  with \<open>length hello = 11\<close> show ?thesis
    by (simp add: client_side_def handler_round_def server_side_def)
qed

lemma watch_calls:
  assumes "nworld s = \<lparr>inbox = i, outbox = b, buffers = k, readings = r\<rparr>" "f (ticks r) (case m_ins s of None \<Rightarrow> n_watch (client_side mem ticks) | Some c \<Rightarrow> c) = Some c'"
  shows "on_watch (client_side mem ticks) f s =
    Returned (s\<lparr>nworld := \<lparr>inbox = i, outbox = b, buffers = k, readings = Suc r\<rparr>, m_ins := Some c'\<rparr>)"
  using assms by (auto simp: on_watch_def getInstance_def calls_def client_side_def split: option.splits)

text \<open>The state between two exchanges.\<close>

definition between :: "(nat \<Rightarrow> timeval) \<Rightarrow> nat \<Rightarrow> link netst \<Rightarrow> bool" where
  "between ticks n s \<longleftrightarrow> nworld s = \<lparr>inbox = [], outbox = [], buffers = n, readings = 2 * Suc n\<rparr> \<and>
     (\<exists>c. m_ins s = Some c \<and> m_timeByUSec c = elapsed ticks (Suc n))"

lemma echo_round:
  assumes ok: "echo_ok mem ticks" and s: "between ticks n s" and buf: "buf = hello @ 0 # rest"
  shows "\<exists>s'. client_round (client_side mem ticks) fd (s, buf) = Returned (s', buf) \<and> between ticks (Suc n) s' \<and> console s' = console s"
proof -
  let ?E = "client_side mem ticks"
  obtain c where c: "m_ins s = Some c" "m_timeByUSec c = elapsed ticks (Suc n)"
    using s by (auto simp: between_def)
  let ?c1 = "clock_resume (ticks (2 * Suc n)) c"
  let ?c2 = "?c1\<lparr>m_end := ticks (Suc (2 * Suc n)), m_timeByUSec := elapsed ticks (Suc (Suc n))\<rparr>"
  define s1 where "s1 = s\<lparr>nworld := \<lparr>inbox = [], outbox = [], buffers = n, readings = Suc (2 * Suc n)\<rparr>, m_ins := Some ?c1\<rparr>"
  define s2 where "s2 = s1\<lparr>nworld := \<lparr>inbox = [], outbox = [], buffers = Suc n, readings = Suc (2 * Suc n)\<rparr>\<rparr>"
  define s3 where "s3 = s2\<lparr>nworld := \<lparr>inbox = [], outbox = [], buffers = Suc n, readings = Suc (Suc (2 * Suc n))\<rparr>, m_ins := Some ?c2\<rparr>"
  have 1: "on_watch ?E (\<lambda>t c. Some (clock_resume t c)) s = Returned s1"
    unfolding s1_def using s c by (intro watch_calls) (simp_all add: between_def)
  have str: "c_string buf = Some hello" "length hello = 11"
    by (auto simp: buf c_string_Some hello_def chars_def)
  have 2: "calls (n_read ?E fd 11) (s1\<lparr>nworld := n_write ?E fd hello (nworld s1)\<rparr>) = (hello, s2)"
    using server_echoes [OF ok, of fd n "Suc (2 * Suc n)"] str(2)
    by (simp add: s1_def s2_def calls_def) (simp add: client_side_def)
  have tv: "tv_ok (ticks k)" "usec (ticks k) < 1000000 * 2 ^ 40" for k
    using ok usec_bounds by (simp_all add: echo_ok_def)
  have "clock_stop (ticks (Suc (2 * Suc n))) ?c1 = Some ?c2"
    using stop_adds(1) [of "ticks (Suc (2 * Suc n))" ?c1] tv [of "2 * Suc n"] tv [of "Suc (2 * Suc n)"] c(2)
      elapsed_bounds [OF ok, of "Suc n"] by (simp add: clock_resume_def del: elapsed.simps) simp
  then have 3: "on_watch ?E clock_stop s2 = Returned s3"
    unfolding s3_def by (intro watch_calls) (simp_all add: s2_def s1_def)
  have 4: "blit hello buf = buf" "take 12 buf = hello @ [0]"
    using str(2) by (simp_all add: buf blit_def)
  have "client_round ?E fd (s, buf) = Returned (s3, buf)"
    using str(2) by (simp add: client_round_def 1 str(1) 2 3 4 del: on_return_eq_Returned)
  moreover have "between ticks (Suc n) s3" "console s3 = console s"
    by (simp_all add: between_def s3_def s2_def s1_def)
  ultimately show ?thesis
    by blast
qed

lemma echo_rounds:
  assumes "echo_ok mem ticks" "buf = hello @ 0 # rest"
  shows "between ticks m s \<Longrightarrow> \<exists>s'. client_rounds (client_side mem ticks) fd n (s, buf) = Returned (s', buf) \<and>
    between ticks (m + n) s' \<and> console s' = console s"
proof (induction n arbitrary: m s)
  case (Suc n)
  obtain s1 where "client_round (client_side mem ticks) fd (s, buf) = Returned (s1, buf)" "between ticks (Suc m) s1"
    "console s1 = console s"
    using echo_round [OF assms(1) Suc.prems assms(2)] by blast
  with Suc.IH [OF this(2)] show ?case
    by (simp del: on_return_eq_Returned)
qed simp

text \<open>The parts of the client around its exchanges, whatever its \<open>read\<close> does.\<close>

lemma on_watch_read [simp]: "on_watch (E\<lparr>n_read := f\<rparr>) g s = on_watch E g s"
  by (simp add: on_watch_def split: option.split)

lemma client_thread_rounds:
  assumes "echo_ok mem ticks" "E = (client_side mem ticks)\<lparr>n_read := f\<rparr>"
    and "\<And>s. between ticks 0 s \<Longrightarrow> console s = [Print ''Client::succed in connection''] \<Longrightarrow>
      \<exists>s' b c. client_rounds E 3 100000 (s, hello @ 0 # replicate 52 0) = Returned (s', b) \<and>
        m_ins s' = Some c \<and> m_timeByUSec c = elapsed ticks 100001 \<and> console s' = C"
  shows "\<exists>s'. netmain E (Some host)
      \<lparr>nworld = \<lparr>inbox = [], outbox = [], buffers = 0, readings = 0\<rparr>, console = [], m_ins = None\<rparr> = Returned (0, s') \<and>
    console s' = C @ [TimeCost (elapsed ticks 100001), TimePerCase (elapsed ticks 100001 div 100000)]"
proof -
  let ?s = "\<lparr>nworld = \<lparr>inbox = [], outbox = [], buffers = 0, readings = 0\<rparr>,
    console = [Print ''Client::succed in connection''], m_ins = None\<rparr> :: link netst"
  let ?c1 = "clock_begin (ticks 0) (n_watch (client_side mem ticks))"
  let ?c2 = "?c1\<lparr>m_end := ticks 1, m_timeByUSec := elapsed ticks 1\<rparr>"
  define s1 where "s1 = ?s\<lparr>nworld := \<lparr>inbox = [], outbox = [], buffers = 0, readings = 1\<rparr>, m_ins := Some ?c1\<rparr>"
  define s2 where "s2 = s1\<lparr>nworld := \<lparr>inbox = [], outbox = [], buffers = 0, readings = 2\<rparr>, m_ins := Some ?c2\<rparr>"
  have 1: "on_watch (client_side mem ticks) (\<lambda>t c. Some (clock_begin t c)) ?s = Returned s1"
    unfolding s1_def One_nat_def by (rule watch_calls) simp_all
  have tv: "tv_ok (ticks k)" for k
    using assms(1) by (simp add: echo_ok_def)
  have "clock_stop (ticks 1) ?c1 = Some ?c2"
    using stop_adds(1) [of "ticks 1" ?c1] tv by (simp add: clock_begin_def)
  then have 2: "on_watch (client_side mem ticks) clock_stop s1 = Returned s2"
    unfolding s2_def Suc_1 [symmetric] by (intro watch_calls) (simp_all add: s1_def)
  have "between ticks 0 s2" "console s2 = [Print ''Client::succed in connection'']"
    by (simp_all add: between_def s2_def s1_def)
  from assms(3) [OF this] obtain s3 b c where
    3: "client_rounds E 3 100000 (s2, hello @ 0 # replicate 52 0) = Returned (s3, b)"
    and c: "m_ins s3 = Some c" "m_timeByUSec c = elapsed ticks 100001" "console s3 = C"
    by blast
  have 4: "blit (hello @ [0]) (replicate 64 0) = hello @ 0 # replicate 52 0"
    by (simp add: blit_def hello_def chars_def)
  have "0 \<le> elapsed ticks 100001"
    using elapsed_bounds [OF assms(1)] by blast
  then have "elapsed ticks 100001 sdiv 100000 = elapsed ticks 100001 div 100000"
    by (cases "elapsed ticks 100001 = 0") (simp_all add: signed_divide_int_def)
  moreover have "clientThread E host \<lparr>nworld = \<lparr>inbox = [], outbox = [], buffers = 0, readings = 0\<rparr>, console = [], m_ins = None\<rparr> =
      Returned (0, say (TimePerCase (elapsed ticks 100001 sdiv 100000)) (say (TimeCost (elapsed ticks 100001)) s3))"
  proof -
    have calls: "calls (n_socket E) s = (3, s)" "calls (n_connect E fd a) s = (0, s)" "calls (n_new E n) s = (replicate n 0, s)"
      "n_close E fd w = w" for s fd a n w
      by (simp_all add: assms(2) client_side_def calls_def)
    have watch: "on_watch E g s = on_watch (client_side mem ticks) g s" for g s
      by (simp add: assms(2))
    show ?thesis
      unfolding clientThread_def calls Let_def prod.case 4 TESTCASE_def watch
      by (simp add: say_def 1 2 3 calls getInstance_def c getTimeByUSec_def
          del: on_return_eq_Returned elapsed.simps)
  qed
  ultimately show ?thesis
    by (simp add: netmain_def say_def c(3) del: elapsed.simps)
qed

text \<open>
  C10: client and server together. When the messages arrive whole, the server's new buffers have a
  zero after the message and the clock is not set back, all 100000 exchanges succeed: the client
  returns 0, reports no error, and prints the total time of the exchanges and its average.
\<close>

theorem echo_exchange:
  assumes "echo_ok mem ticks"
  shows "\<exists>s'. netmain (client_side mem ticks) (Some host)
      \<lparr>nworld = \<lparr>inbox = [], outbox = [], buffers = 0, readings = 0\<rparr>, console = [], m_ins = None\<rparr> = Returned (0, s') \<and>
    console s' = [Print ''Client::succed in connection'', TimeCost (elapsed ticks 100001),
      TimePerCase (elapsed ticks 100001 div 100000)]"
proof -
  have *: "\<exists>s' b c. client_rounds (client_side mem ticks) 3 100000 (s, hello @ 0 # replicate 52 0) = Returned (s', b) \<and>
      m_ins s' = Some c \<and> m_timeByUSec c = elapsed ticks 100001 \<and> console s' = C"
    if "between ticks 0 s" "console s = C" for s C
    using echo_rounds [OF assms refl that(1), of 3 100000 "replicate 52 0"] that(2)
    by (auto simp: between_def simp del: elapsed.simps client_rounds.simps)
  have "client_side mem ticks = (client_side mem ticks)\<lparr>n_read := n_read (client_side mem ticks)\<rparr>"
    by simp
  from client_thread_rounds [OF assms this *, of "[Print ''Client::succed in connection'']" host] show ?thesis
    by (simp del: elapsed.simps)
qed

theorem echo_exchange_witness:
  "\<exists>s'. netmain (client_side (\<lambda>_. replicate 128 0) (\<lambda>k. \<lparr>tv_sec = 3, tv_usec = (if k = 0 then 0 else 400000)\<rparr>)) (Some ''peer'')
      \<lparr>nworld = \<lparr>inbox = [], outbox = [], buffers = 0, readings = 0\<rparr>, console = [], m_ins = None\<rparr> = Returned (0, s') \<and>
    console s' = [Print ''Client::succed in connection'', TimeCost 400000, TimePerCase 4]"
proof -
  let ?mem = "\<lambda>_ :: nat. replicate 128 0 :: bytes" and ?ticks = "\<lambda>k. \<lparr>tv_sec = 3, tv_usec = (if k = 0 then 0 else 400000)\<rparr>"
  have "echo_ok ?mem ?ticks"
    by (simp add: echo_ok_def tv_ok_def usec_def)
  moreover have "elapsed ?ticks (Suc n) = 400000" for n
    by (induction n) (simp_all add: usec_def)
  then have "elapsed ?ticks 100001 = 400000"
    by (metis numeral_eq_Suc)
  ultimately show ?thesis
    using echo_exchange [of ?mem ?ticks "''peer''"] by simp
qed

end
