(* ===== verification/Net_Short_Read.thy ===== *)
theory Net_Short_Read
  imports Net_Echo
begin

text \<open>
  The client of src/net/Network.cpp when one \<open>read\<close> delivers only a part of the answer, as \<open>read\<close> on a
  stream socket may: the client does not read on, so from then on it compares the wrong bytes.
\<close>

section \<open>The connection\<close>

text \<open>
  The connection of \<open>client_side\<close>, but the \<open>read\<close> of exchange number \<open>e\<close>, counted from 0, delivers at
  most \<open>k\<close> bytes. The clock is read twice before the exchanges and twice in each, so that \<open>read\<close> comes
  after \<open>2 * e + 3\<close> readings. The rest of the answer stays in the connection.
\<close>

definition read_limit :: "nat \<Rightarrow> nat \<Rightarrow> nat \<Rightarrow> nat \<Rightarrow> nat" where
  "read_limit e k n r = (if r = 2 * e + 3 then min n k else n)"

definition short_read :: "nat \<Rightarrow> nat \<Rightarrow> int \<Rightarrow> nat \<Rightarrow> link \<Rightarrow> bytes \<times> link" where
  "short_read e k fd n w = (let m = read_limit e k n (readings w) in (take m (outbox w), w\<lparr>outbox := drop m (outbox w)\<rparr>))"

definition short_side :: "(nat \<Rightarrow> bytes) \<Rightarrow> (nat \<Rightarrow> timeval) \<Rightarrow> nat \<Rightarrow> nat \<Rightarrow> link net" where
  "short_side mem ticks e k = (client_side mem ticks)\<lparr>n_read := short_read e k\<rparr>"

lemma short_side_ok: "net_ok (short_side mem ticks e k)"
  by (auto simp: net_ok_def short_side_def client_side_def short_read_def read_limit_def Let_def)

section \<open>One exchange\<close>

text \<open>The state before exchange \<open>n\<close>, with the bytes \<open>p\<close> on their way to the client.\<close>

definition waiting :: "(nat \<Rightarrow> timeval) \<Rightarrow> nat \<Rightarrow> bytes \<Rightarrow> link netst \<Rightarrow> bool" where
  "waiting ticks n p s \<longleftrightarrow> nworld s = \<lparr>inbox = [], outbox = p, buffers = n, readings = 2 * Suc n\<rparr> \<and>
     (\<exists>c. m_ins s = Some c \<and> m_timeByUSec c = elapsed ticks (Suc n))"

lemma between_waiting: "between ticks n s \<longleftrightarrow> waiting ticks n [] s"
  by (simp add: between_def waiting_def)

text \<open>The bytes on their way and the client's string after an exchange that reads at most \<open>m\<close> bytes.\<close>

definition exchange :: "nat \<Rightarrow> bytes \<times> bytes \<Rightarrow> bytes \<times> bytes" where
  "exchange m = (\<lambda>(p, b). (drop m (p @ b), take m (p @ b) @ drop m b))"

definition complaint :: "bytes \<Rightarrow> net_event list" where
  "complaint b = (if b = hello then [] else [Perror ''recv error''])"

lemma server_returns:
  assumes "echo_ok mem ticks" "length b = 11" "0 \<notin> set b"
  shows "n_write (client_side mem ticks) fd b \<lparr>inbox = [], outbox = p, buffers = k, readings = r\<rparr> =
    \<lparr>inbox = [], outbox = p @ b, buffers = Suc k, readings = r\<rparr>"
proof -
  have len: "length (mem k) = 128" "mem k ! 11 = 0"
    using assms(1) by (simp_all add: echo_ok_def)
  then have "drop 11 (mem k) = 0 # drop 12 (mem k)"
    using Cons_nth_drop_Suc [of 11 "mem k"] by simp
  then have "c_string (blit b (mem k)) = Some b"
    using assms(2,3) by (auto simp: blit_def c_string_Some len)
  with assms(2) show ?thesis
    by (simp add: client_side_def handler_round_def server_side_def)
qed

lemma short_round:
  assumes ok: "echo_ok mem ticks" and s: "waiting ticks n p s"
    and b: "length b = 11" "0 \<notin> set b" and m: "m = (if n = e then min 11 k else 11)"
    and x: "exchange m (p, b) = (p', b')" and buf: "buf = b @ 0 # rest"
  shows "\<exists>s'. client_round (short_side mem ticks e k) fd (s, buf) = Returned (s', b' @ 0 # rest) \<and>
    waiting ticks (Suc n) p' s' \<and> console s' = console s @ complaint b'"
proof -
  let ?E = "short_side mem ticks e k"
  obtain c where c: "m_ins s = Some c" "m_timeByUSec c = elapsed ticks (Suc n)"
    using s by (auto simp: waiting_def)
  let ?c1 = "clock_resume (ticks (2 * Suc n)) c"
  let ?c2 = "?c1\<lparr>m_end := ticks (Suc (2 * Suc n)), m_timeByUSec := elapsed ticks (Suc (Suc n))\<rparr>"
  define s1 where "s1 = s\<lparr>nworld := \<lparr>inbox = [], outbox = p, buffers = n, readings = Suc (2 * Suc n)\<rparr>, m_ins := Some ?c1\<rparr>"
  define s2 where "s2 = s1\<lparr>nworld := \<lparr>inbox = [], outbox = p', buffers = Suc n, readings = Suc (2 * Suc n)\<rparr>\<rparr>"
  define s3 where "s3 = s2\<lparr>nworld := \<lparr>inbox = [], outbox = p', buffers = Suc n, readings = Suc (Suc (2 * Suc n))\<rparr>, m_ins := Some ?c2\<rparr>"
  have watch: "on_watch ?E g t = on_watch (client_side mem ticks) g t" for g t
    by (simp add: short_side_def)
  have 1: "on_watch ?E (\<lambda>t c. Some (clock_resume t c)) s = Returned s1"
    unfolding s1_def watch using s c by (intro watch_calls) (simp_all add: waiting_def)
  have p': "p' = drop m (p @ b)" and b': "b' = take m (p @ b) @ drop m b"
    using x by (auto simp: exchange_def)
  have m11: "m \<le> 11"
    by (simp add: m)
  have "read_limit e k 11 (Suc (2 * Suc n)) = m"
    by (auto simp: read_limit_def m)
  then have 2: "calls (n_read ?E fd 11) (s1\<lparr>nworld := n_write ?E fd b (nworld s1)\<rparr>) = (take m (p @ b), s2)"
    using server_returns [OF ok b, of fd p n "Suc (2 * Suc n)"]
    by (simp add: s1_def s2_def p' calls_def short_side_def short_read_def Let_def)
  have tv: "tv_ok (ticks k)" "usec (ticks k) < 1000000 * 2 ^ 40" for k
    using ok usec_bounds by (simp_all add: echo_ok_def)
  have "clock_stop (ticks (Suc (2 * Suc n))) ?c1 = Some ?c2"
    using stop_adds(1) [of "ticks (Suc (2 * Suc n))" ?c1] tv [of "2 * Suc n"] tv [of "Suc (2 * Suc n)"] c(2)
      elapsed_bounds [OF ok, of "Suc n"] by (simp add: clock_resume_def del: elapsed.simps) simp
  then have 3: "on_watch ?E clock_stop s2 = Returned s3"
    unfolding s3_def watch by (intro watch_calls) (simp_all add: s2_def s1_def)
  have "length (take m (p @ b)) = m"
    using m11 b(1) by simp
  then have 4: "blit (take m (p @ b)) buf = b' @ 0 # rest" "length b' = 11"
    using m11 b(1) by (simp_all add: buf b' blit_def)
  have 5: "take 12 (b' @ 0 # rest) \<noteq> hello @ [0] \<longleftrightarrow> b' \<noteq> hello"
    using 4(2) by simp
  have str: "c_string buf = Some b"
    using b(2) by (auto simp: buf c_string_Some)
  define s4 where "s4 = (if b' \<noteq> hello then say (Perror ''recv error'') s3 else s3)"
  have "client_round ?E fd (s, buf) = Returned (s4, b' @ 0 # rest)"
    by (simp add: client_round_def 1 str b(1) 2 3 4(1) 5 s4_def del: on_return_eq_Returned take_append)
  moreover have "waiting ticks (Suc n) p' s4" "console s4 = console s @ complaint b'"
    by (simp_all add: waiting_def s4_def complaint_def say_def s3_def s2_def s1_def)
  ultimately show ?thesis
    by blast
qed

section \<open>The rotating word\<close>

text \<open>
  After the short exchange the bytes on their way and the client's string together are one word that
  every exchange rotates by eleven places.
\<close>

definition garbled :: "nat \<Rightarrow> bytes" where
  "garbled k = drop k hello @ hello"

definition turned :: "nat \<Rightarrow> nat \<Rightarrow> bytes" where
  "turned k j = rotate (11 * j) (garbled k)"

lemma length_hello [simp]: "length hello = 11"
  by (simp add: hello_def chars_def)

lemma hello_nonzero [simp]: "0 \<notin> set hello"
  by (simp add: hello_def chars_def)

lemma length_turned [simp]: "k < 11 \<Longrightarrow> length (turned k j) = 22 - k"
  by (simp add: turned_def garbled_def)

lemma turned_nonzero: "0 \<notin> set (turned k j)"
  using hello_nonzero by (auto simp: turned_def garbled_def dest: in_set_dropD)

lemma short_exchange:
  assumes "k < 11"
  shows "exchange k ([], hello) = (take (11 - k) (turned k 0), drop (11 - k) (turned k 0))"
  using assms by (simp add: exchange_def turned_def garbled_def)

lemma whole_exchange:
  assumes "0 < k" "k < 11"
  shows "exchange 11 (take (11 - k) (turned k j), drop (11 - k) (turned k j)) =
    (take (11 - k) (turned k (Suc j)), drop (11 - k) (turned k (Suc j)))"
proof -
  let ?X = "turned k j"
  have "turned k (Suc j) = rotate 11 ?X"
    by (simp add: turned_def rotate_rotate)
  also have "\<dots> = drop 11 ?X @ take 11 ?X"
    using assms by (simp add: rotate_drop_take)
  finally show ?thesis
    using assms take_add [of "11 - k" k ?X] by (simp add: exchange_def)
qed

lemma hello_bytes: "hello = [104, 101, 108, 108, 111, 32, 119, 111, 114, 108, 100]"
  by (simp add: hello_def chars_def)

lemma h_position: "i < 11 \<Longrightarrow> hello ! i = hello ! 0 \<longleftrightarrow> i = 0"
proof -
  assume "i < 11"
  then have "i = 0 \<or> i = 1 \<or> i = 2 \<or> i = 3 \<or> i = 4 \<or> i = 5 \<or> i = 6 \<or> i = 7 \<or> i = 8 \<or> i = 9 \<or> i = 10"
    by presburger
  then show ?thesis
    by (elim disjE) (simp_all add: hello_bytes)
qed

lemma garbled_h:
  assumes "0 < k" "k < 11" "i < 22 - k"
  shows "garbled k ! i = hello ! 0 \<longleftrightarrow> i = 11 - k"
proof (cases "i < 11 - k")
  case True
  with assms h_position [of "k + i"] show ?thesis
    by (simp add: garbled_def nth_append)
next
  case False
  with assms h_position [of "i - (11 - k)"] show ?thesis
    by (auto simp: garbled_def nth_append)
qed

lemma coprime_11: "0 < k \<Longrightarrow> k < 11 \<Longrightarrow> coprime 11 (22 - k)" for k :: nat
proof -
  assume "0 < k" "k < 11"
  then have "k = 1 \<or> k = 2 \<or> k = 3 \<or> k = 4 \<or> k = 5 \<or> k = 6 \<or> k = 7 \<or> k = 8 \<or> k = 9 \<or> k = 10"
    by presburger
  then show ?thesis
    by (elim disjE) (simp_all add: coprime_iff_gcd_eq_1 gcd_non_0_nat)
qed

text \<open>The string is right again exactly when the word has made whole turns.\<close>

lemma string_restored:
  assumes "0 < k" "k < 11"
  shows "drop (11 - k) (turned k j) = hello \<longleftrightarrow> (22 - k) dvd j"
proof
  let ?N = "22 - k"
  assume "drop (11 - k) (turned k j) = hello"
  moreover have "drop (11 - k) (turned k j) ! 0 = turned k j ! (11 - k)"
    using assms by simp
  ultimately have "turned k j ! (11 - k) = hello ! 0"
    by (simp only:)
  moreover have "turned k j ! (11 - k) = garbled k ! ((11 * j + (11 - k)) mod ?N)"
    using assms by (simp add: turned_def nth_rotate garbled_def)
  ultimately have "(11 * j + (11 - k)) mod ?N = 11 - k"
    using assms garbled_h [OF assms, of "(11 * j + (11 - k)) mod ?N"] by simp
  then have "(11 * j + (11 - k)) mod ?N = (0 + (11 - k)) mod ?N"
    using assms by simp
  then have "?N dvd 11 * j"
    using mod_eq_dvd_iff_nat [of "11 - k" "11 * j + (11 - k)" ?N] by simp
  with coprime_11 [OF assms] show "?N dvd j"
    by (simp add: coprime_commute coprime_dvd_mult_right_iff)
next
  assume "(22 - k) dvd j"
  then obtain q where "j = (22 - k) * q" ..
  then have "turned k j = garbled k"
    using assms by (simp add: turned_def garbled_def rotate_id)
  with assms show "drop (11 - k) (turned k j) = hello"
    by (simp add: garbled_def)
qed

section \<open>Many exchanges\<close>

lemma client_rounds_add:
  "client_rounds E fd (m + n) x = on_return (client_rounds E fd m x) (client_rounds E fd n)"
proof (induction m arbitrary: x)
  case (Suc m)
  then show ?case
    by (cases "client_round E fd x") simp_all
qed simp

lemma rounds_before:
  assumes "echo_ok mem ticks"
  shows "waiting ticks m [] s \<Longrightarrow> m + n \<le> e \<Longrightarrow>
    \<exists>s'. client_rounds (short_side mem ticks e k) fd n (s, hello @ 0 # rest) = Returned (s', hello @ 0 # rest) \<and>
      waiting ticks (m + n) [] s' \<and> console s' = console s"
proof (induction n arbitrary: m s)
  case (Suc n)
  have "exchange 11 ([], hello) = ([], hello)"
    by (simp add: exchange_def)
  from short_round [OF assms Suc.prems(1) length_hello hello_nonzero _ this refl, of e k fd rest] Suc.prems(2)
  obtain s1 where "client_round (short_side mem ticks e k) fd (s, hello @ 0 # rest) = Returned (s1, hello @ 0 # rest)"
    "waiting ticks (Suc m) [] s1" "console s1 = console s"
    by (auto simp: complaint_def)
  with Suc.IH [OF this(2)] Suc.prems(2) show ?case
    by (simp del: on_return_eq_Returned)
qed simp

text \<open>How many of the numbers from 1 to \<open>n\<close> are not multiples of \<open>N\<close>.\<close>

definition not_multiples :: "nat \<Rightarrow> nat \<Rightarrow> nat" where
  "not_multiples N n = n - n div N"

lemma not_multiples_Suc: "not_multiples N (Suc n) = (if N dvd Suc n then not_multiples N n else Suc (not_multiples N n))"
  by (auto simp: not_multiples_def div_Suc mod_eq_0_iff_dvd Suc_diff_le)

lemma rounds_after:
  assumes "echo_ok mem ticks" "0 < k" "k < 11" "e < m"
  shows "waiting ticks m (take (11 - k) (turned k j)) s \<Longrightarrow>
    console s = c @ replicate (not_multiples (22 - k) j) (Perror ''recv error'') \<Longrightarrow>
    \<exists>s' b. client_rounds (short_side mem ticks e k) fd n (s, drop (11 - k) (turned k j) @ 0 # rest) = Returned (s', b) \<and>
      waiting ticks (m + n) (take (11 - k) (turned k (j + n))) s' \<and>
      console s' = c @ replicate (not_multiples (22 - k) (j + n)) (Perror ''recv error'')"
  using assms(4)
proof (induction n arbitrary: m j s)
  case (Suc n)
  let ?b = "\<lambda>j. drop (11 - k) (turned k j)"
  have b: "length (?b j) = 11" "0 \<notin> set (?b j)"
    using assms(3) turned_nonzero [of k j] by (auto dest: in_set_dropD)
  from short_round [OF assms(1) Suc.prems(1) b _ whole_exchange [OF assms(2,3)] refl, of e k fd rest] Suc.prems(3)
  obtain s1 where s1: "client_round (short_side mem ticks e k) fd (s, ?b j @ 0 # rest) = Returned (s1, ?b (Suc j) @ 0 # rest)"
    "waiting ticks (Suc m) (take (11 - k) (turned k (Suc j))) s1" "console s1 = console s @ complaint (?b (Suc j))"
    by auto
  have "console s1 = c @ replicate (not_multiples (22 - k) (Suc j)) (Perror ''recv error'')"
    using s1(3) Suc.prems(2) string_restored [OF assms(2,3), of "Suc j"]
    by (auto simp: complaint_def not_multiples_Suc replicate_append_same)
  from Suc.IH [OF s1(2) this] Suc.prems(3) s1(1) show ?case
    by (simp del: on_return_eq_Returned)
qed auto

section \<open>Properties\<close>

text \<open>
  C11: one short read spoils the rest of the run. When everything else goes as in a successful run, but
  the read of one exchange delivers only \<open>k\<close> of the 11 bytes, the client does not notice it
  in that exchange; from the next exchange on it reports an error in every exchange, but for each
  \<open>(22 - k)\<close>-th, where the string happens to be right. It still returns 0 and prints its times as if all
  had been measured.
\<close>

theorem one_short_read:
  assumes "echo_ok mem ticks" "0 < k" "k < 11" "e < 100000" "m = 99999 - e"
  shows "\<exists>s'. netmain (short_side mem ticks e k) (Some host)
      \<lparr>nworld = \<lparr>inbox = [], outbox = [], buffers = 0, readings = 0\<rparr>, console = [], m_ins = None\<rparr> = Returned (0, s') \<and>
    console s' = Print ''Client::succed in connection'' # replicate (m - m div (22 - k)) (Perror ''recv error'') @
      [TimeCost (elapsed ticks 100001), TimePerCase (elapsed ticks 100001 div 100000)]"
proof -
  let ?E = "short_side mem ticks e k" and ?buf = "hello @ 0 # replicate 52 0"
  let ?C = "Print ''Client::succed in connection'' # replicate (not_multiples (22 - k) m) (Perror ''recv error'')"
  have "\<exists>s' b c. client_rounds ?E 3 100000 (s, ?buf) = Returned (s', b) \<and>
      m_ins s' = Some c \<and> m_timeByUSec c = elapsed ticks 100001 \<and> console s' = ?C"
    if s: "between ticks 0 s" and con: "console s = [Print ''Client::succed in connection'']" for s
  proof -
    obtain s1 where 1: "client_rounds ?E 3 e (s, ?buf) = Returned (s1, ?buf)" "waiting ticks e [] s1" "console s1 = console s"
      using rounds_before [OF assms(1) s [unfolded between_waiting], of e e k 3] by auto
    obtain s2 where 2: "client_round ?E 3 (s1, ?buf) = Returned (s2, ?buf)"
      "waiting ticks (Suc e) (take (11 - k) (turned k 0)) s2" "console s2 = console s1"
      using short_round [OF assms(1) 1(2) length_hello hello_nonzero _ short_exchange [OF assms(3)] refl,
          of e k 3 "replicate 52 0"] assms(3)
      by (auto simp: turned_def garbled_def complaint_def)
    have hello: "drop (11 - k) (turned k 0) = hello"
      using assms(3) by (simp add: turned_def garbled_def)
    obtain s3 b where 3: "client_rounds ?E 3 m (s2, ?buf) = Returned (s3, b)"
      "waiting ticks (Suc e + m) (take (11 - k) (turned k m)) s3" "console s3 = ?C"
      using rounds_after [OF assms(1-3) lessI 2(2), of "[Print ''Client::succed in connection'']" 3 m "replicate 52 0"]
        2(3) 1(3) con by (auto simp: hello not_multiples_def)
    have n: "100000 = e + Suc m" "Suc (Suc e + m) = 100001"
      using assms(4,5) by simp_all
    have "client_rounds ?E 3 100000 (s, ?buf) = Returned (s3, b)"
      unfolding n(1) client_rounds_add 1(1) on_return.simps client_rounds.simps 2(1) by (rule 3(1))
    with 3(2,3) n(2) show ?thesis
      unfolding waiting_def by metis
  qed
  from client_thread_rounds [OF assms(1) short_side_def this] show ?thesis
    by (simp add: not_multiples_def del: elapsed.simps)
qed

text \<open>The very first answer arrives with one byte less: 91666 errors.\<close>

theorem one_short_read_witness:
  "\<exists>s'. netmain (short_side (\<lambda>_. replicate 128 0) (\<lambda>_. \<lparr>tv_sec = 3, tv_usec = 0\<rparr>) 0 10) (Some ''peer'')
      \<lparr>nworld = \<lparr>inbox = [], outbox = [], buffers = 0, readings = 0\<rparr>, console = [], m_ins = None\<rparr> = Returned (0, s') \<and>
    length (filter (\<lambda>x. x = Perror ''recv error'') (console s')) = 91666"
proof -
  have ok: "echo_ok (\<lambda>_. replicate 128 0) (\<lambda>_. \<lparr>tv_sec = 3, tv_usec = 0\<rparr>)"
    by (simp add: echo_ok_def tv_ok_def usec_def)
  have "(99999 - 99999 div (22 - 10) :: nat) = 91666"
    by simp
  with one_short_read [OF ok, of 10 0 99999 "''peer''"] show ?thesis
    by (auto simp del: elapsed.simps)
qed

end
