(* ===== verification/Net_Stream.thy ===== *)
theory Net_Stream
  imports Net_Echo
begin

text \<open>
  The server of src/net/Network.cpp on a stream of bytes that arrives in pieces of any size: when it is
  an echo, and when it leaves its buffer.
\<close>

section \<open>The stream\<close>

text \<open>
  The pieces that have not been read, the bytes sent back, and the number of buffers allocated. A \<open>read\<close>
  delivers one piece, or the first bytes of it when it is longer than asked for; at the end of the stream it
  delivers nothing. The \<open>k\<close>-th buffer holds \<open>mem k\<close> when it is new.
\<close>

record stream =
  pieces :: "bytes list"
  sent :: bytes
  allocated :: nat

definition stream_read :: "int \<Rightarrow> nat \<Rightarrow> stream \<Rightarrow> bytes \<times> stream" where
  "stream_read fd n w =
     (case pieces w of
        [] \<Rightarrow> ([], w)
      | c # cs \<Rightarrow> (take n c, w\<lparr>pieces := (if length c \<le> n then cs else drop n c # cs)\<rparr>))"

definition stream_server :: "(nat \<Rightarrow> bytes) \<Rightarrow> stream net" where
  "stream_server mem = \<lparr>n_socket = (\<lambda>w. (3, w)), n_setsockopt = (\<lambda>_ w. (0, w)), n_bind = (\<lambda>_ _ w. (0, w)),
     n_listen = (\<lambda>_ _ w. (0, w)), n_accept = (\<lambda>_ w. (4, w)), n_connect = (\<lambda>_ _ w. (- 1, w)),
     n_read = stream_read, n_write = (\<lambda>_ str w. w\<lparr>sent := sent w @ str\<rparr>), n_close = (\<lambda>_ w. w),
     n_time = (\<lambda>w. (\<lparr>tv_sec = 0, tv_usec = 0\<rparr>, w)), n_pthread_create = (\<lambda>w. (0, w)),
     n_new = (\<lambda>n w. (mem (allocated w), w\<lparr>allocated := Suc (allocated w)\<rparr>)),
     n_watch = MyClock \<lparr>tv_sec = 0, tv_usec = 0\<rparr> \<lparr>tv_sec = 0, tv_usec = 0\<rparr>\<rparr>"

definition zeroed :: "nat \<Rightarrow> bytes" where
  "zeroed k = replicate 128 0"

definition stream_of :: "bytes list \<Rightarrow> stream" where
  "stream_of cs = \<lparr>pieces = cs, sent = [], allocated = 0\<rparr>"

section \<open>One round\<close>

lemma round_piece:
  assumes "length c < 128" "0 \<notin> set c"
  shows "handler_round (stream_server zeroed) fd \<lparr>pieces = c # cs, sent = x, allocated = k\<rparr> =
    Some \<lparr>pieces = cs, sent = x @ c, allocated = Suc k\<rparr>"
proof -
  have "replicate (128 - length c) (0 :: u8) = 0 # replicate (127 - length c) 0"
    using assms(1) by (simp flip: replicate_Suc add: Suc_diff_le)
  then have "c_string (blit c (replicate 128 0)) = Some c"
    using assms by (auto simp: blit_def c_string_Some)
  with assms(1) show ?thesis
    by (simp add: handler_round_def stream_server_def stream_read_def zeroed_def)
qed

lemma round_end:
  "handler_round (stream_server zeroed) fd \<lparr>pieces = [], sent = x, allocated = k\<rparr> =
    Some \<lparr>pieces = [], sent = x, allocated = Suc k\<rparr>"
proof -
  have "replicate 128 (0 :: u8) = 0 # replicate 127 0"
    by (simp flip: replicate_Suc)
  then have "c_string (blit [] (replicate 128 0)) = Some []"
    by (simp add: blit_def c_string_zero)
  then show ?thesis
    by (simp add: handler_round_def stream_server_def stream_read_def zeroed_def)
qed

lemma round_overflow:
  assumes "128 \<le> length c" "0 \<notin> set c"
  shows "handler_round (stream_server zeroed) fd \<lparr>pieces = c # cs, sent = x, allocated = k\<rparr> = None"
proof -
  have "blit (take 128 c) (replicate 128 0) = take 128 c"
    using assms(1) by (simp add: blit_def)
  moreover have "0 \<notin> set (take 128 c)"
    using assms(2) by (auto dest: in_set_takeD)
  ultimately show ?thesis
    by (simp add: handler_round_def stream_server_def stream_read_def zeroed_def c_string_def)
qed

section \<open>All rounds\<close>

text \<open>Nothing more is sent after the end of the stream; the rounds go on.\<close>

lemma rounds_end:
  "handler_rounds (stream_server zeroed) fd n \<lparr>pieces = [], sent = x, allocated = k\<rparr> =
    Some \<lparr>pieces = [], sent = x, allocated = k + n\<rparr>"
  by (induction n arbitrary: k) (simp_all add: round_end)

lemma rounds_pieces:
  assumes "\<forall>c \<in> set cs. length c < 128 \<and> 0 \<notin> set c"
  shows "handler_rounds (stream_server zeroed) fd n \<lparr>pieces = cs, sent = x, allocated = k\<rparr> =
    Some \<lparr>pieces = drop n cs, sent = x @ concat (take n cs), allocated = k + n\<rparr>"
  using assms
proof (induction n arbitrary: cs x k)
  case (Suc n)
  show ?case
  proof (cases cs)
    case Nil
    then show ?thesis
      by (simp add: round_end rounds_end)
  next
    case (Cons c ds)
    with Suc.prems have "length c < 128" "0 \<notin> set c" "\<forall>c \<in> set ds. length c < 128 \<and> 0 \<notin> set c"
      by simp_all
    with Suc.IH [of ds "x @ c" "Suc k"] Cons show ?thesis
      by (simp add: round_piece)
  qed
qed simp

lemma loop_overflow:
  assumes "c \<in> set cs" "128 \<le> length c" "\<forall>c \<in> set cs. 0 \<notin> set c"
  shows "\<exists>n. handler_rounds (stream_server zeroed) fd n \<lparr>pieces = cs, sent = x, allocated = k\<rparr> = None"
  using assms
proof (induction cs arbitrary: x k)
  case (Cons d ds)
  then have d: "0 \<notin> set d" "\<forall>c \<in> set ds. 0 \<notin> set c"
    by simp_all
  show ?case
  proof (cases "128 \<le> length d")
    case True
    with d(1) show ?thesis
      by (intro exI [of _ 1]) (simp add: round_overflow)
  next
    case False
    with Cons.prems have "c \<in> set ds"
      by auto
    from Cons.IH [OF this Cons.prems(2) d(2), of "x @ d" "Suc k"]
    obtain n where "handler_rounds (stream_server zeroed) fd n \<lparr>pieces = ds, sent = x @ d, allocated = Suc k\<rparr> = None" ..
    with False d(1) show ?thesis
      by (intro exI [of _ "Suc n"]) (simp add: round_piece)
  qed
qed simp

lemma rounds_go_on:
  assumes "\<And>n. handler_rounds E fd n w \<noteq> None"
  shows "handler_loop E fd w = None"
proof (rule ccontr)
  assume "handler_loop E fd w \<noteq> None"
  then obtain r where "handler_loop E fd w = Some r"
    by blast
  from handler_loop_result [OF this] assms show False
    by blast
qed

section \<open>Properties\<close>

text \<open>
  C21: the server is an echo as long as no \<open>read\<close> fills its buffer. On a stream of bytes other than zero, cut
  into pieces in any way, with new memory that holds zeros: if every piece has less than 128
  bytes, it sends back exactly the stream, in the order received, nothing after its end,
  and never returns; if some piece has 128 bytes or more, \<open>strlen\<close> runs beyond the buffer.
\<close>

theorem server_echoes_stream:
  assumes "\<forall>c \<in> set cs. 0 \<notin> set c"
  shows "receiveHandler (stream_server zeroed) fd (stream_of cs) =
      (if \<exists>c \<in> set cs. 128 \<le> length c then OutOfBounds else NeverReturns) \<and>
    ((\<forall>c \<in> set cs. length c < 128) \<and> length cs \<le> n \<longrightarrow>
      (\<exists>w. handler_rounds (stream_server zeroed) 4 n (stream_of cs) = Some w \<and> sent w = concat cs \<and> pieces w = []))"
proof (intro conjI impI)
  have run: "receiveHandler (stream_server zeroed) fd (stream_of cs) = of_loop (handler_loop (stream_server zeroed) 4 (stream_of cs))"
    by (simp add: receiveHandler_def stream_server_def)
  show "receiveHandler (stream_server zeroed) fd (stream_of cs) =
      (if \<exists>c \<in> set cs. 128 \<le> length c then OutOfBounds else NeverReturns)"
  proof (cases "\<exists>c \<in> set cs. 128 \<le> length c")
    case True
    then obtain n where "handler_rounds (stream_server zeroed) 4 n (stream_of cs) = None"
      using loop_overflow [of _ cs 4 "[]" 0] assms unfolding stream_of_def by blast
    from handler_loop_stops [OF this] True show ?thesis
      by (simp add: run)
  next
    case False
    then have "\<forall>c \<in> set cs. length c < 128 \<and> 0 \<notin> set c"
      using assms by (auto simp: not_le)
    from rounds_pieces [OF this] have "handler_loop (stream_server zeroed) 4 (stream_of cs) = None"
      by (intro rounds_go_on) (simp add: stream_of_def)
    with False show ?thesis
      by (simp add: run)
  qed
  show "\<exists>w. handler_rounds (stream_server zeroed) 4 n (stream_of cs) = Some w \<and> sent w = concat cs \<and> pieces w = []"
    if "(\<forall>c \<in> set cs. length c < 128) \<and> length cs \<le> n"
    using rounds_pieces [of cs 4 n "[]" 0] assms that by (simp add: stream_of_def)
qed

text \<open>Two pieces of a message, and a message of 128 bytes.\<close>

theorem server_echoes_stream_witness:
  "(\<exists>w. handler_rounds (stream_server zeroed) 4 2 (stream_of [take 4 hello, drop 4 hello]) = Some w \<and> sent w = hello) \<and>
   receiveHandler (stream_server zeroed) 3 (stream_of [hello, replicate 128 7]) = OutOfBounds"
proof
  have "0 \<notin> set hello" "length hello = 11"
    by (simp_all add: hello_def chars_def)
  then have "\<forall>c \<in> set [take 4 hello, drop 4 hello]. 0 \<notin> set c" "\<forall>c \<in> set [take 4 hello, drop 4 hello]. length c < 128"
    by (auto dest: in_set_takeD in_set_dropD)
  with server_echoes_stream [of "[take 4 hello, drop 4 hello]" 3 2] show
    "\<exists>w. handler_rounds (stream_server zeroed) 4 2 (stream_of [take 4 hello, drop 4 hello]) = Some w \<and> sent w = hello"
    by auto
  show "receiveHandler (stream_server zeroed) 3 (stream_of [hello, replicate 128 7]) = OutOfBounds"
    using server_echoes_stream [of "[hello, replicate 128 7]" 3 2] \<open>0 \<notin> set hello\<close> by simp
qed

end
