(* ===== verification/Disk_Generate.thy ===== *)
theory Disk_Generate
  imports Byte_Order Clocks C_Numbers Double_Rounding
begin

text \<open>
  The disk benchmark src/disk/Generate.cpp: the class \<open>Generate\<close>, which fills a record with random
  bytes, and \<open>diskmain\<close>, which writes it to a file again and again and prints the throughput. The C
  library and the operating system are a record of functions on a world; what a run does is its
  list of events.
\<close>

section \<open>Environment\<close>

text \<open>\<open>d_memalign\<close> gives the contents of the new memory, or nothing when the allocation fails.\<close>

record 'w disk =
  d_memalign :: "nat \<Rightarrow> nat \<Rightarrow> 'w \<Rightarrow> bytes option \<times> 'w"
  d_rand :: "'w \<Rightarrow> int \<times> 'w"
  d_open :: "'w \<Rightarrow> int \<times> 'w"
  d_write :: "int \<Rightarrow> bytes \<Rightarrow> 'w \<Rightarrow> int \<times> 'w"
  d_time :: "'w \<Rightarrow> timeval \<times> 'w"
  d_rounding :: rounding

datatype disk_event =
    Usage
  | OpenError
  | Wrote bytes
  | WriteError
  | Seconds int int
  | Throughput dbl
  | CloseFile int
  | DeleteBuf

record 'w diskst =
  dworld :: 'w
  log :: "disk_event list"

definition note_event :: "disk_event \<Rightarrow> 'w diskst \<Rightarrow> 'w diskst" where
  "note_event e s = s\<lparr>log := log s @ [e]\<rparr>"

definition sys :: "('w \<Rightarrow> 'a \<times> 'w) \<Rightarrow> 'w diskst \<Rightarrow> 'a \<times> 'w diskst" where
  "sys f s = (let (x, w) = f (dworld s) in (x, s\<lparr>dworld := w\<rparr>))"

section \<open>class Generate\<close>

definition m_SIZE :: nat where "m_SIZE = 4096"

text \<open>The constructor ignores the result of \<open>posix_memalign\<close>: \<open>None\<close> is a pointer without a value.\<close>

record Generate =
  m_buf :: "bytes option"

definition Generate :: "'w disk \<Rightarrow> 'w diskst \<Rightarrow> Generate \<times> 'w diskst" where
  "Generate D s = (let (b, s) = sys (d_memalign D 512 m_SIZE) s in (\<lparr>m_buf = b\<rparr>, s))"

primrec fill_random :: "'w disk \<Rightarrow> nat \<Rightarrow> bytes \<Rightarrow> 'w diskst \<Rightarrow> bytes \<times> 'w diskst" where
  "fill_random D 0 b s = (b, s)"
| "fill_random D (Suc n) b s =
     (let (b, s) = fill_random D n b s; (r, s) = sys (d_rand D) s
      in (b[n := word_of_int (r smod 255)], s))"

definition genRecord :: "'w disk \<Rightarrow> Generate \<Rightarrow> 'w diskst \<Rightarrow> (Generate \<times> 'w diskst) outcome" where
  "genRecord D g s =
     (case m_buf g of
        None \<Rightarrow> Undefined
      | Some b \<Rightarrow>
          if length b < m_SIZE then OutOfBounds
          else let (b, s) = fill_random D m_SIZE b s in Returned (g\<lparr>m_buf := Some b\<rparr>, s))"

definition getBuf :: "Generate \<Rightarrow> bytes option" where "getBuf g = m_buf g"
definition getSize :: nat where "getSize = m_SIZE"

text \<open>The destructor, which gives the memory of \<open>posix_memalign\<close> to \<open>delete\<close>.\<close>

definition Generate_destroy :: "Generate \<Rightarrow> 'w diskst \<Rightarrow> 'w diskst" where
  "Generate_destroy g = note_event DeleteBuf"

section \<open>diskmain\<close>

text \<open>The options; \<open>None\<close> is \<open>exit(0)\<close> after the usage message. \<open>bufferSize\<close> is not used afterwards.\<close>

fun disk_options :: "(char \<times> string) list \<Rightarrow> int \<times> int option \<Rightarrow> (int \<times> int option) option" where
  "disk_options [] x = Some x"
| "disk_options ((c, optarg) # opts) (fileSize, bufferSize) =
     (if c = CHR ''f'' then disk_options opts (long_to_int (strtol10 optarg), bufferSize)
      else if c = CHR ''s'' then disk_options opts (fileSize, Some (long_to_int (strtol10 optarg)))
      else None)"

primrec write_loop :: "'w disk \<Rightarrow> int \<Rightarrow> bytes \<Rightarrow> nat \<Rightarrow> 'w diskst \<Rightarrow> 'w diskst outcome" where
  "write_loop D fd txt 0 s = Returned s"
| "write_loop D fd txt (Suc n) s =
     (let (wcode, s) = sys (d_write D fd (take getSize txt)) s
      in if wcode < 0 then Returned (note_event WriteError s)
         else if wcode = int getSize then write_loop D fd txt n (note_event (Wrote (take getSize txt)) s)
         else AssertFailed)"

definition dbl_int :: "rounding \<Rightarrow> int \<Rightarrow> dbl" where
  "dbl_int rnd x = Num (rnd (real_of_int x))"

text \<open>\<open>(1.0 * fileSize * gen.getSize()) / (1024 * 1024 * (end.tv_sec - begin.tv_sec))\<close>.\<close>

definition throughput :: "rounding \<Rightarrow> int \<Rightarrow> int \<Rightarrow> dbl" where
  "throughput rnd fileSize megasecs =
     ddiv rnd (dmul rnd (dmul rnd (Num 1) (dbl_int rnd fileSize)) (dbl_int rnd (int getSize))) (dbl_int rnd megasecs)"

text \<open>
  \<open>diskmain\<close> has no \<open>return\<close>; its caller does not use the value. The destructor of \<open>gen\<close> runs at the
  end.
\<close>

definition diskmain :: "'w disk \<Rightarrow> (char \<times> string) list \<Rightarrow> 'w diskst \<Rightarrow> 'w diskst outcome" where
  "diskmain D opts s =
     (case disk_options opts (20, None) of
        None \<Rightarrow> Returned (note_event Usage s)
      | Some (fileSize, _) \<Rightarrow>
          let (gen, s) = Generate D s; (fd, s) = sys (d_open D) s
          in if fd < 0 then Returned (note_event OpenError s)
             else on_return (genRecord D gen s) (\<lambda>(gen, s).
               case getBuf gen of
                 None \<Rightarrow> Undefined
               | Some txt \<Rightarrow>
                   let (begin, s) = sys (d_time D) s
                   in on_return (write_loop D fd txt (nat fileSize) s) (\<lambda>s.
                        let (end, s) = sys (d_time D) s
                        in case do { secs \<leftarrow> long (tv_sec end - tv_sec begin); d \<leftarrow> long (1024 * 1024 * secs); Some (secs, d) } of
                             None \<Rightarrow> Undefined
                           | Some (secs, d) \<Rightarrow>
                               Returned (Generate_destroy gen (note_event (CloseFile fd)
                                 (note_event (Throughput (throughput (d_rounding D) fileSize d))
                                   (note_event (Seconds fileSize secs) s)))))))"

section \<open>Runs\<close>

text \<open>
  What the program relies on: memory is there, \<open>rand\<close> is not negative, the clock delivers times, and
  a write to the file succeeds completely or fails. Rounding is that of IEEE arithmetic.
\<close>

definition disk_ok :: "'w disk \<Rightarrow> bool" where
  "disk_ok D \<longleftrightarrow> ieee (d_rounding D) \<and>
     (\<forall>w. (\<exists>b. fst (d_memalign D 512 4096 w) = Some b \<and> length b = 4096) \<and> 0 \<le> fst (d_rand D w) \<and> tv_ok (fst (d_time D w)) \<and>
        (\<forall>fd b. fst (d_write D fd b w) < 0 \<or> fst (d_write D fd b w) = int (length b)))"

lemma disk_okD:
  assumes "disk_ok D"
  shows "ieee (d_rounding D)" "\<exists>b. fst (d_memalign D 512 4096 w) = Some b \<and> length b = 4096" "0 \<le> fst (d_rand D w)"
    "tv_ok (fst (d_time D w))" "fst (d_write D fd b w) < 0 \<or> fst (d_write D fd b w) = int (length b)"
  using assms unfolding disk_ok_def by blast+

lemma log_note [simp]: "log (note_event e s) = log s @ [e]"
  by (simp add: note_event_def)

lemma log_sys [simp]: "log (snd (sys f s)) = log s"
  by (simp add: sys_def split_def Let_def)

lemma fst_sys: "fst (sys f s) = fst (f (dworld s))"
  by (simp add: sys_def split_def Let_def)

lemma fill_random_record:
  assumes "disk_ok D" "length b = 4096" "n \<le> 4096"
  shows "length (fst (fill_random D n b s)) = 4096 \<and> log (snd (fill_random D n b s)) = log s \<and>
    (\<forall>i < n. fst (fill_random D n b s) ! i \<noteq> 255)"
  using assms(3)
proof (induction n)
  case (Suc n)
  have "word_of_int (r smod 255) \<noteq> (255 :: u8)" if "0 \<le> r" for r :: int
  proof
    assume "word_of_int (r smod 255) = (255 :: u8)"
    then have "uint (word_of_int (r smod 255) :: u8) = 255"
      by simp
    moreover have "r smod 255 = r mod 255"
      using that by (cases "r = 0") (simp_all add: signed_modulo_int_def)
    moreover have "0 \<le> r mod 255" "r mod 255 < 255"
      by simp_all
    ultimately show False
      by (simp add: uint_word_of_int)
  qed
  moreover have "0 \<le> fst (d_rand D w)" for w
    using assms(1) by (simp add: disk_ok_def)
  ultimately show ?case
    using Suc by (auto simp: split_def Let_def nth_list_update fst_sys)
qed (simp add: assms(2))

lemma write_loop_runs:
  assumes "disk_ok D" "length txt = 4096"
  shows "\<exists>k s'. k \<le> n \<and> write_loop D fd txt n s = Returned s' \<and>
    log s' = log s @ replicate k (Wrote txt) @ (if k < n then [WriteError] else [])"
proof (induction n arbitrary: s)
  case (Suc n)
  let ?r = "sys (d_write D fd txt) s"
  have full: "fst ?r < 0 \<or> fst ?r = 4096"
    using disk_okD(5) [OF assms(1), of fd "txt" "dworld s"] assms(2) by (simp add: fst_sys)
  show ?case
  proof (cases "fst ?r < 0")
    case True
    then show ?thesis
      using assms(2) by (intro exI [of _ 0]) (simp add: split_def Let_def getSize_def m_SIZE_def)
  next
    case False
    obtain k s' where "k \<le> n" "write_loop D fd txt n (note_event (Wrote txt) (snd ?r)) = Returned s'"
      "log s' = (log s @ [Wrote txt]) @ replicate k (Wrote txt) @ (if k < n then [WriteError] else [])"
      using Suc [of "note_event (Wrote txt) (snd ?r)"] by auto
    with False full assms(2) show ?thesis
      by (intro exI [of _ "Suc k"] exI [of _ s']) (auto simp: split_def Let_def getSize_def m_SIZE_def)
  qed
qed simp

lemma throughput_zero:
  assumes "ieee rnd"
  shows "throughput rnd (int n) 0 = (if n = 0 then NaN else Inf False)"
proof (cases "n = 0")
  case True
  with assms show ?thesis
    by (simp add: throughput_def dbl_int_def)
next
  case False
  define x where "x = rnd (rnd (real n))"
  define y where "y = rnd 4096"
  have "1 \<le> x" "1 \<le> y"
    unfolding x_def y_def by (rule ieee_ge_1 [OF assms], (rule ieee_ge_1 [OF assms])?, use False in simp)+
  then have "1 * 1 \<le> x * y"
    by (intro mult_mono) simp_all
  then have "1 \<le> rnd (x * y)"
    by (intro ieee_ge_1 [OF assms]) simp
  then have "ddiv rnd (Num (rnd (x * y))) (Num 0) = Inf False"
    by simp
  then show ?thesis
    using False assms by (simp add: throughput_def dbl_int_def getSize_def m_SIZE_def x_def y_def)
qed

section \<open>Properties\<close>


text \<open>A disk that takes three records and then fails, under a clock that stands still.\<close>

definition full_disk :: "nat disk" where
  "full_disk = \<lparr>d_memalign = (\<lambda>_ n w. (Some (replicate n 0), w)), d_rand = (\<lambda>w. (1000, w)), d_open = (\<lambda>w. (3, w)),
     d_write = (\<lambda>_ b w. if w < 3 then (int (length b), Suc w) else (- 1, w)),
     d_time = (\<lambda>w. (\<lparr>tv_sec = 7, tv_usec = 0\<rparr>, w)), d_rounding = double_round\<rparr>"


end
