(* ===== verification/Debug_Log.thy ===== *)
theory Debug_Log
  imports Pcm_Utils
begin

text \<open>
  The logging macros of src/debuglog.h: which of them a level enables, the header line of
  \<open>outputLogHeader_\<close>, and what a call of a macro prints. \<open>time\<close> and \<open>localtime\<close> deliver the broken-down
  time as an argument.
\<close>

section \<open>Levels\<close>

definition VOLT_LEVEL_OFF :: int where "VOLT_LEVEL_OFF = 1000"
definition VOLT_LEVEL_ERROR :: int where "VOLT_LEVEL_ERROR = 500"
definition VOLT_LEVEL_WARN :: int where "VOLT_LEVEL_WARN = 400"
definition VOLT_LEVEL_INFO :: int where "VOLT_LEVEL_INFO = 300"
definition VOLT_LEVEL_DEBUG :: int where "VOLT_LEVEL_DEBUG = 200"
definition VOLT_LEVEL_TRACE :: int where "VOLT_LEVEL_TRACE = 100"
definition VOLT_LEVEL_ALL :: int where "VOLT_LEVEL_ALL = 0"

lemmas volt_levels = VOLT_LEVEL_OFF_def VOLT_LEVEL_ERROR_def VOLT_LEVEL_WARN_def VOLT_LEVEL_INFO_def
  VOLT_LEVEL_DEBUG_def VOLT_LEVEL_TRACE_def VOLT_LEVEL_ALL_def

text \<open>
  The level when the \<open>#ifndef\<close> is reached with \<open>defined\<close>, and whether one of the \<open>DEBUG\<close> macros is set.
  The header has just defined it, whatever the compiler was told.
\<close>

definition level_choice :: "int option \<Rightarrow> bool \<Rightarrow> int" where
  "level_choice defined debug =
     (case defined of Some l \<Rightarrow> l | None \<Rightarrow> if debug then VOLT_LEVEL_DEBUG else VOLT_LEVEL_WARN)"

definition VOLT_LOG_LEVEL :: "int option \<Rightarrow> bool \<Rightarrow> int" where
  "VOLT_LOG_LEVEL compile_option debug = level_choice (Some VOLT_LEVEL_ALL) debug"

section \<open>The header of a line\<close>

text \<open>The fields of \<open>struct tm\<close> that the format uses; \<open>tm_ok\<close>: their documented ranges.\<close>

record tm =
  tm_year :: int
  tm_mon :: int
  tm_mday :: int
  tm_hour :: int
  tm_min :: int
  tm_sec :: int

definition tm_ok :: "tm \<Rightarrow> bool" where
  "tm_ok t \<longleftrightarrow> - (2 ^ 31) \<le> tm_year t \<and> tm_year t < 2 ^ 31 \<and> 0 \<le> tm_mon t \<and> tm_mon t \<le> 11 \<and>
     1 \<le> tm_mday t \<and> tm_mday t \<le> 31 \<and> 0 \<le> tm_hour t \<and> tm_hour t \<le> 23 \<and>
     0 \<le> tm_min t \<and> tm_min t \<le> 59 \<and> 0 \<le> tm_sec t \<and> tm_sec t \<le> 60"

text \<open>\<open>%m\<close>, \<open>%d\<close>, \<open>%H\<close>, \<open>%M\<close> and \<open>%S\<close>: two digits.\<close>

definition two_digits :: "int \<Rightarrow> string" where
  "two_digits n = [char_of (48 + nat n div 10), char_of (48 + nat n mod 10)]"

text \<open>\<open>VOLT_LOG_TIME_FORMAT\<close>: \<open>%Y-%m-%d %H:%M:%S\<close>.\<close>

definition time_text :: "tm \<Rightarrow> string" where
  "time_text t = print_d (tm_year t + 1900) @ ''-'' @ two_digits (tm_mon t + 1) @ ''-'' @ two_digits (tm_mday t) @ '' '' @
     two_digits (tm_hour t) @ '':'' @ two_digits (tm_min t) @ '':'' @ two_digits (tm_sec t)"

text \<open>\<open>strftime\<close>: without room for the text and its final zero the buffer has no defined contents.\<close>

definition strftime :: "nat \<Rightarrow> tm \<Rightarrow> string option" where
  "strftime room t = (if length (time_text t) < room then Some (time_text t) else None)"

definition level_type :: "int \<Rightarrow> string" where
  "level_type level =
     (if level = VOLT_LEVEL_ERROR then ''ERROR''
      else if level = VOLT_LEVEL_WARN then ''WARN ''
      else if level = VOLT_LEVEL_INFO then ''INFO ''
      else if level = VOLT_LEVEL_DEBUG then ''DEBUG''
      else if level = VOLT_LEVEL_TRACE then ''TRACE''
      else ''UNKWN'')"

definition outputLogHeader :: "tm option \<Rightarrow> string \<Rightarrow> int \<Rightarrow> string \<Rightarrow> int \<Rightarrow> string outcome" where
  "outputLogHeader curTime file line func level =
     (case curTime of
        None \<Rightarrow> Undefined
      | Some t \<Rightarrow>
          (case strftime 32 t of
             None \<Rightarrow> Undefined
           | Some time_str \<Rightarrow> Returned (''['' @ level_type level @ ''] ['' @ file @ '':'' @ print_d line @ '':'' @ func @
               ''()] '' @ time_str @ '' - '')))"

section \<open>The macros\<close>

text \<open>
  \<open>printf\<close> with the conversions the calls use. A conversion without an argument is undefined, an
  argument without a conversion is ignored.
\<close>

fun c_printf :: "string \<Rightarrow> int list \<Rightarrow> string outcome" where
  "c_printf [] args = Returned []"
| "c_printf (c # cs) args =
     (if c \<noteq> CHR ''%'' then on_return (c_printf cs args) (\<lambda>s. Returned (c # s))
      else case cs of
          d # ds \<Rightarrow>
            if d = CHR ''d'' then
              (case args of [] \<Rightarrow> Undefined | a # as \<Rightarrow> on_return (c_printf ds as) (\<lambda>s. Returned (print_d a @ s)))
            else
              (case ds of
                 e # es \<Rightarrow>
                   if d = CHR ''l'' \<and> e = CHR ''d'' then
                     (case args of [] \<Rightarrow> Undefined | a # as \<Rightarrow> on_return (c_printf es as) (\<lambda>s. Returned (print_d a @ s)))
                   else Undefined
               | [] \<Rightarrow> Undefined)
        | [] \<Rightarrow> Undefined)"

text \<open>\<open>VOLT_ERROR\<close> and its four siblings: enabled at compile time, or no code at all.\<close>

definition volt_log ::
  "int \<Rightarrow> int \<Rightarrow> tm option \<Rightarrow> string \<Rightarrow> int \<Rightarrow> string \<Rightarrow> string \<Rightarrow> int list \<Rightarrow> string outcome" where
  "volt_log log_level level curTime file line func fmt args =
     (if log_level \<le> level
      then on_return (outputLogHeader curTime file line func level) (\<lambda>header.
           on_return (c_printf fmt args) (\<lambda>s. Returned (header @ s @ [CHR 0x0A])))
      else Returned [])"

definition VOLT_ERROR where "VOLT_ERROR opt debug = volt_log (VOLT_LOG_LEVEL opt debug) VOLT_LEVEL_ERROR"
definition VOLT_WARN where "VOLT_WARN opt debug = volt_log (VOLT_LOG_LEVEL opt debug) VOLT_LEVEL_WARN"
definition VOLT_INFO where "VOLT_INFO opt debug = volt_log (VOLT_LOG_LEVEL opt debug) VOLT_LEVEL_INFO"
definition VOLT_DEBUG where "VOLT_DEBUG opt debug = volt_log (VOLT_LOG_LEVEL opt debug) VOLT_LEVEL_DEBUG"
definition VOLT_TRACE where "VOLT_TRACE opt debug = volt_log (VOLT_LOG_LEVEL opt debug) VOLT_LEVEL_TRACE"

lemmas volt_macros = VOLT_ERROR_def VOLT_WARN_def VOLT_INFO_def VOLT_DEBUG_def VOLT_TRACE_def

section \<open>The time always fits\<close>

lemma length_print_d: "\<bar>x\<bar> < 10 ^ 10 \<Longrightarrow> length (print_d x) \<le> 11"
  using length_decimal [of "nat \<bar>x\<bar>" 9] by (auto simp: print_d_def abs_if nat_less_iff)

lemma time_fits: "tm_ok t \<Longrightarrow> strftime 32 t = Some (time_text t)"
proof -
  assume "tm_ok t"
  then have "length (print_d (tm_year t + 1900)) \<le> 11"
    by (intro length_print_d) (auto simp: tm_ok_def)
  then show ?thesis
    by (simp add: strftime_def time_text_def two_digits_def)
qed

lemma header_returned:
  "tm_ok t \<Longrightarrow> outputLogHeader (Some t) file line func level = Returned (''['' @ level_type level @ ''] ['' @ file @ '':'' @
     print_d line @ '':'' @ func @ ''()] '' @ time_text t @ '' - '')"
  by (simp add: outputLogHeader_def time_fits)

lemma printf_plain: "CHR ''%'' \<notin> set fmt \<Longrightarrow> c_printf fmt args = Returned fmt"
  by (induction fmt) auto

lemma level_enabled: "level \<in> {VOLT_LEVEL_ERROR, VOLT_LEVEL_WARN, VOLT_LEVEL_INFO, VOLT_LEVEL_DEBUG, VOLT_LEVEL_TRACE} \<Longrightarrow>
  VOLT_LOG_LEVEL opt debug \<le> level \<and> level_type level \<noteq> ''UNKWN'' \<and> length (level_type level) = 5"
  by (auto simp: VOLT_LOG_LEVEL_def level_choice_def level_type_def volt_levels)

text \<open>The header's own choice when nothing is defined.\<close>

lemma default_levels:
  "level_choice None True \<le> VOLT_LEVEL_DEBUG" "\<not> level_choice None True \<le> VOLT_LEVEL_TRACE"
  "level_choice None False \<le> VOLT_LEVEL_WARN" "\<not> level_choice None False \<le> VOLT_LEVEL_INFO"
  by (simp_all add: level_choice_def volt_levels)

section \<open>Properties\<close>



end
