(* ===== verification/Test_Driver.thy ===== *)
theory Test_Driver
  imports Mem_Bench_Runs
begin

text \<open>
  src/test.h and src/test.cpp: \<open>main\<close> calls the function that the one \<open>TEST\<close> of the program names. A
  test takes its options and returns a number; \<open>main\<close> ignores it and, without a return statement, returns 0.
\<close>

type_synonym 'w testfunc = "(char \<times> string) list \<Rightarrow> 'w bench \<Rightarrow> (int \<times> 'w bench) outcome"

definition TEST :: "'w testfunc \<Rightarrow> 'w testfunc" where
  "TEST arg = arg"

definition test_main :: "'w testfunc \<Rightarrow> (char \<times> string) list \<Rightarrow> 'w bench \<Rightarrow> (int \<times> 'w bench) outcome" where
  "test_main func opts s = on_return (func opts s) (\<lambda>(_, s). Returned (0, s))"

text \<open>The exit status says nothing about the test.\<close>

lemma exit_status: "test_main func opts s = Returned (r, s') \<Longrightarrow> r = 0"
  by (auto simp: test_main_def)

text \<open>The program of numatest.cpp does what \<open>numatest\<close> does, whose result is always 0.\<close>

lemma bench_main_status: "bench_main E direct cas opts s = Returned (r, s') \<Longrightarrow> r = 0"
  by (auto simp: bench_main_def split_def Let_def split: if_splits)

lemma numatest_program: "test_main (TEST (numatest E)) opts s = numatest E opts s"
proof (cases "numatest E opts s")
  case (Returned x)
  then show ?thesis
    using bench_main_status by (cases x) (auto simp: test_main_def TEST_def numatest_def)
qed (simp_all add: test_main_def TEST_def)

end
