(* ===== verification/Spec2Isabelle.thy ===== *)
theory Spec2Isabelle
  imports Atomic_Programs Permutate Murmur_Hash Rc_Exchange Rc_Print Extender_Destructor Pcm_Report Pcm_Events Pcm_Utils
    Pcm_Sleep Win_Sleep Async_Destructor Mem_Bench_Runs Numa_Barrier Net_Short_Read Net_Stream
    Disk_Generate Debug_Log Test_Driver
begin

text \<open>
  A verification library for the CommunicationSpeed benchmarks: programs that measure the speed of
  RDMA, TCP, memory and disk, with the atomic operations, hash functions, clocks and performance
  counters they use. Sources are the files under src/.

  \<^bold>\<open>Parts of the program and their theories.\<close>

  \<^item> \<open>CS_Prelude\<close>, \<open>Byte_Order\<close>, \<open>C_Numbers\<close>: what the components share. The C integer types as words, the
    \<open>outcome\<close> of a call (it returns, fails an assertion, leaves an object, divides by zero, is
    undefined, or never returns), bounds-checked arrays, byte orders and C strings, the
    number parsers of the C library.
  \<^item> \<open>Atomic\<close>, \<open>Atomic_Programs\<close> (atomic.h): each function as the instruction list of its inline assembly at any word
    width. Threads interleave per instruction (\<open>step_insn\<close> under a schedule). The locale \<open>linearizable\<close> is the
    contract of one operation; \<open>linearizable_programs\<close> and \<open>solo_programs\<close> extend it to threads that make many
    calls, and are interpreted on the functions of the file: programs are linearizable, a thread
    left alone finishes its call, and without interference each function keeps its comment.
  \<^item> \<open>Permutate\<close> (mem/permutate.cpp): the pattern functions and warm-up walks. The locale
    \<open>stride_ring\<close> holds the number theory; its four interpretations are the four patterns, whose
    walks visit every line once per lap.
  \<^item> \<open>Murmur_Hash\<close> (murmur_hash.cpp, murmur_hash.h): the hash functions over bounds-checked keys are
    equal to a reference fold; keys that differ in one word and seeds do not collide.
  \<^item> \<open>Rc_Env\<close>, \<open>Rc_Sock\<close>, \<open>Rc_Verbs\<close>, \<open>Rc_Resources\<close>, \<open>Rc_Main\<close>, \<open>Rc_Protocol\<close> (rdma/rc_example.c): the RDMA
    example, one definition per function, in the order of the file. The process is the record
    \<open>proc\<close> (\<open>config\<close>, \<open>struct resources\<close>, the buffer and the trace of its calls). \<open>os\<close> and \<open>verbs\<close> are
    the system calls and libibverbs, on a world of any type. A stage is a function from the process
    to a return code and a process; \<open>then_rc\<close> is the error handling of the source (\<open>goto\<close> on a non-zero
    code). Shown: every run releases what it acquired, the queue pair requests follow the RC state
    machine, with a willing environment both roles end with 0, the connection data survive the
    exchange, and exactly when polling and the socket transfer return.
  \<^item> \<open>Rc_Fabric\<close>, \<open>Rc_Script\<close>, \<open>Rc_Joint\<close>, \<open>Rc_Demo\<close>, \<open>Rc_Exchange\<close>: two runs of \<open>rcmain\<close> at the ends of one reliable
    connection. The \<open>fabric\<close> states what the connection does with the calls in the traces (socket bytes
    arrive after they were written, a posted request is executed and then completed at some later
    time); schedules interleave the two processes and the two network cards. Every successful run
    follows the script of its role (locale \<open>stuttering_simulation\<close>, interpreted on traces and scripts), an
    invariant of the two scripts gives what both sides print, and no schedule gets stuck: at
    most 37 turns, after which both scripts are at their end. \<open>Rc_Print\<close> has \<open>print_config\<close>.
  \<^item> \<open>Width_Extender\<close> (pcm/width_extender.h, pcm/msr.h), \<open>Pcm_Types\<close>, \<open>Pcm_Registers\<close>, \<open>Pcm_Events\<close> (pcm/types.h), \<open>Counter_States\<close>, \<open>Pcm_Double\<close>,
    \<open>Pcm_Model\<close>, \<open>Pcm_Metrics\<close> (pcm/cpucounters.h), \<open>Asynch_Counter\<close> (pcm/cpuasynchcounter.h), \<open>Pcm_Utils\<close>, \<open>Pcm_Sleep\<close>, \<open>Win_Sleep\<close> (pcm/utils.h), \<open>Pcm_Report\<close>:
    the inline part of the PCM library. Registers are layouts (locale \<open>bit_layout\<close>, six interpretations), their addresses
    differ for any number of boxes (locale \<open>box_registers\<close>, two interpretations),
    counter states records with accumulation (locale \<open>accumulator\<close>, two interpretations). A \<open>double\<close> is
    a real, an infinity or not a number; the rounding is a parameter, of which \<open>ieee\<close> states
    that it is monotone and exact at 0 and 1. \<open>Double_Rounding\<close> defines the machine's rounding to 53 bits, ties to
    even, and shows that it is \<open>ieee\<close>, exact on integers of 53 bits, and how far it is off; the sleep
    functions are shown accurate with it, and the witnesses use it. \<open>Win_Sleep\<close> has the sleep functions for Windows,
    of which \<open>win_usleep\<close> is a loop over a performance counter: when it ends, and after how many ticks.
    \<open>Pcm_Report\<close> holds what the headers print (QPI speeds, MCFG table, on streams that keep their number base),
    \<open>null_stream\<close>, the addresses of pcm/client_bw.h and the single constants of pcm/types.h.
  \<^item> \<open>Mutex_Threads\<close>, \<open>Extender_Threads\<close>, \<open>Extender_Destructor\<close>, \<open>Async_Threads\<close>, \<open>Async_Destructor\<close>: the threads of pcm/width_extender.h and
    pcm/cpuasynchcounter.h. A call locks the mutex, executes its statements one by one and unlocks (\<open>mstep\<close>); schedules
    interleave the threads. The locale \<open>critical_section\<close> is the contract of such a section with its
    sequential meaning: every interleaving gives the results of the calls made one after the other, sections
    exclude each other, and no thread is shut out. Its two interpretations are \<open>internal_read\<close> and the rounds and
    accessors of \<open>AsynchronCounterState\<close>. Both destructors run beside the thread they have
    cancelled but not joined: exactly when that ends in a use of freed memory.
  \<^item> \<open>Clocks\<close> (clock.h, clc/MyClock.cpp): the stop watch refines a sum of intervals.
  \<^item> \<open>Mem_Bench\<close>, \<open>Mem_Bench_Runs\<close> (mem/numatest.cpp, mem/smptest.cpp, mem/mypcm.cpp): the benchmarks over the
    patterns, atomics, clocks and metrics above. The locale \<open>bench_level\<close> is the contract between a
    pattern, its warm-up and the timed loop; its interpretations are the four levels. Shown: what whole
    runs do event by event, what they allocate and free, and that the atomic loop is the plain loop.
    \<open>Numa_Barrier\<close> has the two barrier threads as step relations with an invariant, \<open>Test_Driver\<close>
    (test.h, test.cpp) the \<open>main\<close> that calls the test.
  \<^item> \<open>Net_Echo\<close>, \<open>Net_Stream\<close>, \<open>Net_Short_Read\<close> (net/Network.cpp): server and client, each against every network; the
    server on a stream in pieces of any size; and both together, with messages that arrive whole and with one answer that is read in part: then the bytes on
    their way and the client's string form a word that every exchange rotates, which gives the
    number of errors reported.
  \<^item> \<open>Disk_Generate\<close> (disk/Generate.cpp): the record generator and the write loop with its report.

  \<^item> \<open>Debug_Log\<close> (debuglog.h): the levels, the header line and the five logging macros.

  \<^bold>\<open>Code outside the repository\<close> is a parameter: the operating system and C library, libibverbs,
  libnuma, \<open>getopt\<close> (its results are arguments), the machine's memory contents where the source reads
  memory it did not set, and the binary libintelpcm.so. Hypotheses such as \<open>net_ok\<close>, \<open>disk_ok\<close>,
  \<open>obliging\<close> or \<open>ieee\<close> state documented behaviour of these; each has a witness with a concrete environment.

  \<^bold>\<open>Loops.\<close> Loops with a bound recurse on it. Loops that may run for ever (the exchange loop
  of \<open>exec_block\<close>, \<open>fill_loop\<close>, \<open>sync_loop\<close>, \<open>poll_loop\<close>, \<open>handler_loop\<close>, \<open>wait_loop\<close>) are partial functions into options, where
  \<open>None\<close> is a loop that does not end; that they end, or when, is part of the theorems. No fuel
  is used. Memory accesses of a single thread are sequential; interleaving is modelled where threads share memory
  (\<open>Atomic\<close>, \<open>Numa_Barrier\<close>, \<open>Extender_Threads\<close>, \<open>Async_Threads\<close>). \<open>Asynch_Counter\<close> and \<open>Width_Extender\<close> have whole operations,
  which the mutex justifies. A thread that runs for ever is a program with a call for every number.

  \<^bold>\<open>Not modelled:\<close> what has no body in the repository: the signal handlers, \<open>MySystem\<close> and
  \<open>ThreadGroupTempAffinity\<close> of utils.h, the classes of pci.h, \<open>ClientBW\<close>, \<open>MsrHandle\<close>, \<open>WatchDogProc\<close> (for the
  destructor it is a thread that reads, with its cancellation points as parameters) and the part of class
  \<open>PCM\<close> that detects, programs and reads the processor: cpucounters.h declares them, their code is in
  libintelpcm.so. The fields of \<open>PCM\<close> that only this code uses, the \<open>friend\<close> declarations, the Windows
  variants of the mutex and the unused union \<open>cvt_ds\<close> are left out, and so is the commented-out \<open>main\<close> of
  rc_example.c. Destructors that only free memory are left out.
\<close>

end
